(* ===== verification/Prelude.thy ===== *)
theory Prelude
  imports Main "HOL-Library.Word"
begin

text \<open>
  Shared vocabulary of the libsodchan development: machine integers, byte
  buffers, the return codes of \<^verbatim>\<open>include/sodchan.h\<close>, the conventions for C
  pointers, and the generic lemmas on lists and words that the component
  theories use.

  Conventions for C parameters:
  \<^item> an input pointer with its length is a \<open>span\<close>: \<open>Some bs\<close> is a pointer to the
    bytes \<open>bs\<close>; \<open>None\<close> is a NULL pointer (with a nonzero length, where the
    source accepts NULL for length 0; that case is \<open>Some []\<close>);
  \<^item> an output buffer with its capacity is a \<open>dest\<close>: \<open>Some cap\<close> is a writable
    buffer of \<open>cap\<close> bytes; \<open>None\<close> means that one of the pointers the function
    requires is NULL. What the function writes is its result. A decoder has
    its input as a \<open>span\<close> and \<open>None\<close> there stands for any required pointer
    being NULL;
  \<^item> a C string is the list of its bytes; \<open>cstr\<close> cuts a character buffer at
    the first NUL, as \<^verbatim>\<open>strlen\<close> and \<^verbatim>\<open>snprintf("%s")\<close> do;
  \<^item> \<^verbatim>\<open>size_t\<close> is a \<open>nat\<close>; where a sum of sizes can pass \<^verbatim>\<open>SIZE_MAX\<close> the
    wrap-around is written out with \<open>size_wrap\<close> (64-bit \<^verbatim>\<open>size_t\<close>).
\<close>

unbundle bit_operations_syntax

section \<open>Types\<close>

type_synonym byte = "8 word"
type_synonym u16 = "16 word"
type_synonym u32 = "32 word"
type_synonym bytes = "byte list"
type_synonym span = "bytes option"
type_synonym dest = "nat option"

text \<open>The return codes of the public API.\<close>

datatype rc =
    SODCHAN_OK
  | SODCHAN_ERR_PARAM
  | SODCHAN_ERR_STATE
  | SODCHAN_ERR_NOMEM
  | SODCHAN_ERR_CRYPTO
  | SODCHAN_ERR_PROTOCOL
  | SODCHAN_ERR_WINDOW
  | SODCHAN_ERR_FULL
  | SODCHAN_ERR_NOTFOUND
  | SODCHAN_ERR_REJECTED

primrec rc_code :: "rc \<Rightarrow> int" where
  "rc_code SODCHAN_OK = 0"
| "rc_code SODCHAN_ERR_PARAM = -1"
| "rc_code SODCHAN_ERR_STATE = -2"
| "rc_code SODCHAN_ERR_NOMEM = -3"
| "rc_code SODCHAN_ERR_CRYPTO = -4"
| "rc_code SODCHAN_ERR_PROTOCOL = -5"
| "rc_code SODCHAN_ERR_WINDOW = -6"
| "rc_code SODCHAN_ERR_FULL = -7"
| "rc_code SODCHAN_ERR_NOTFOUND = -8"
| "rc_code SODCHAN_ERR_REJECTED = -9"

section \<open>C library idioms\<close>

definition size_wrap :: "nat \<Rightarrow> nat" where
  "size_wrap n = n mod 2 ^ 64"

definition cstr :: "bytes \<Rightarrow> bytes" where
  "cstr s = takeWhile (\<lambda>b. b \<noteq> 0) s"

definition c_strlen :: "bytes \<Rightarrow> nat" where
  "c_strlen s = length (cstr s)"

text \<open>
  \<^verbatim>\<open>snprintf(dst, cap, "%s", src)\<close>: the C string that \<open>dst\<close> holds afterwards.
\<close>

definition snprintf_s :: "nat \<Rightarrow> bytes \<Rightarrow> bytes" where
  "snprintf_s cap src = take (cap - 1) (cstr src)"

text \<open>
  The guarded copy of the decoders: at most \<open>cap - 1\<close> of the \<open>n\<close> bytes at
  \<open>src\<close>, then a NUL; nothing is written when the buffer is NULL or has no room.
\<close>

definition copy_cstr :: "bytes \<Rightarrow> nat \<Rightarrow> nat \<Rightarrow> bytes" where
  "copy_cstr src n cap =
     (if cap > 0 then take (if n \<ge> cap then cap - 1 else n) src @ [0] else [])"

definition ascii :: "string \<Rightarrow> bytes" where
  "ascii s = map of_char s"

section \<open>Collections\<close>

named_theorems wire_defs \<open>definitions of encoders and decoders\<close>
named_theorems wire_join \<open>adjacent fields of a PDU joined again\<close>
named_theorems frame_simps \<open>which fields of the context an operation leaves alone\<close>
named_theorems len_simps \<open>lengths of encoded fields\<close>

section \<open>Generic lemmas\<close>

lemma rc_code_inj: "rc_code a = rc_code b \<longleftrightarrow> a = b"
  by (cases a; cases b) simp_all

lemma rc_code_le_0 [simp]: "rc_code a \<le> 0"
  by (cases a) simp_all

lemma rc_code_eq_0 [simp]: "rc_code a = 0 \<longleftrightarrow> a = SODCHAN_OK"
  by (cases a) simp_all

lemma size_wrap_small [simp]: "n < 2 ^ 64 \<Longrightarrow> size_wrap n = n"
  by (simp add: size_wrap_def)

lemma length_ascii [simp]: "length (ascii s) = length s"
  by (simp add: ascii_def)

lemma cstr_no_nul: "0 \<notin> set (cstr s)"
  by (auto simp: cstr_def dest: set_takeWhileD)

lemma cstr_id [simp]: "0 \<notin> set s \<Longrightarrow> cstr s = s"
  by (induction s) (auto simp: cstr_def)

lemma cstr_idem [simp]: "cstr (cstr s) = cstr s"
  by (rule cstr_id) (rule cstr_no_nul)

lemma cstr_append_nul [simp]: "0 \<notin> set s \<Longrightarrow> cstr (s @ 0 # t) = s"
  by (induction s) (auto simp: cstr_def)

lemma length_cstr_le: "length (cstr s) \<le> length s"
  by (simp add: cstr_def length_takeWhile_le)

lemma snprintf_s_fits: "length (cstr s) < cap \<Longrightarrow> snprintf_s cap s = cstr s"
  by (simp add: snprintf_s_def)

lemma copy_cstr_fits: "n < cap \<Longrightarrow> copy_cstr src n cap = take n src @ [0]"
  by (simp add: copy_cstr_def)

lemma drop_append_exact: "length xs = n \<Longrightarrow> drop n (xs @ ys) = ys"
  by simp

lemma take_append_exact: "length xs = n \<Longrightarrow> take n (xs @ ys) = xs"
  by simp

lemma take_drop_split3:
  "length xs = a + b \<Longrightarrow> take a xs @ take b (drop a xs) = xs"
  by (metis append_take_drop_id length_drop add_diff_cancel_left' order_refl take_all)

lemma nth_0_Cons: "xs \<noteq> [] \<Longrightarrow> xs = xs ! 0 # drop 1 xs"
  by (cases xs) simp_all

lemma unat_of_nat_u32: "n < 2 ^ 32 \<Longrightarrow> unat (of_nat n :: u32) = n"
  by (simp add: unat_of_nat take_bit_nat_eq_self)

lemma unat_of_nat_u16: "n < 2 ^ 16 \<Longrightarrow> unat (of_nat n :: u16) = n"
  by (simp add: unat_of_nat take_bit_nat_eq_self)

lemma unat_of_nat_byte: "n < 2 ^ 8 \<Longrightarrow> unat (of_nat n :: byte) = n"
  by (simp add: unat_of_nat take_bit_nat_eq_self)

end
