(* ===== verification/Wire_Base.thy ===== *)
theory Wire_Base
  imports Prelude
begin

text \<open>
  The bottom of \<^verbatim>\<open>src/sodchan_wire.c\<close>: big-endian integers and the
  length-prefixed frame, with the two interfaces every wire format of the
  library is held to: \<open>codec\<close> (encoder and decoder are inverse to each other on
  the valid values) and \<open>framing\<close> (frames can be cut out of a byte stream that
  arrives in pieces).
\<close>

section \<open>Protocol constants\<close>

definition SODCHAN_PROTO_VERSION :: u16 where "SODCHAN_PROTO_VERSION = 1"
definition SODCHAN_SUITE_V1 :: u16 where "SODCHAN_SUITE_V1 = 1"
definition SODCHAN_MAGIC :: u16 where "SODCHAN_MAGIC = 0x5343"

definition SODCHAN_SS_HEADER_BYTES :: nat where "SODCHAN_SS_HEADER_BYTES = 24"
definition SODCHAN_SS_ABYTES :: nat where "SODCHAN_SS_ABYTES = 17"
definition SODCHAN_MAX_CLEAR_FRAME :: u32 where "SODCHAN_MAX_CLEAR_FRAME = 512"
definition SODCHAN_HELLO_BODY_LEN :: nat where "SODCHAN_HELLO_BODY_LEN = 140"

definition SODCHAN_USER_MAX :: nat where "SODCHAN_USER_MAX = 128"
definition SODCHAN_DEVICE_ID_MAX :: nat where "SODCHAN_DEVICE_ID_MAX = 128"
definition SODCHAN_CLAIMS_MAX :: nat where "SODCHAN_CLAIMS_MAX = 1024"
definition SODCHAN_CHANNEL_NAME_MAX :: nat where "SODCHAN_CHANNEL_NAME_MAX = 63"

section \<open>Big-endian integers\<close>

definition sodchan_wire_put_u16 :: "u16 \<Rightarrow> bytes" where
  "sodchan_wire_put_u16 v = [ucast (drop_bit 8 v), ucast v]"

definition sodchan_wire_put_u32 :: "u32 \<Rightarrow> bytes" where
  "sodchan_wire_put_u32 v =
     [ucast (drop_bit 24 v), ucast (drop_bit 16 v), ucast (drop_bit 8 v), ucast v]"

definition sodchan_wire_get_u16 :: "bytes \<Rightarrow> u16" where
  "sodchan_wire_get_u16 p = push_bit 8 (ucast (p ! 0)) OR ucast (p ! 1)"

definition sodchan_wire_get_u32 :: "bytes \<Rightarrow> u32" where
  "sodchan_wire_get_u32 p =
     push_bit 24 (ucast (p ! 0)) OR push_bit 16 (ucast (p ! 1)) OR
     push_bit 8 (ucast (p ! 2)) OR ucast (p ! 3)"

lemma length_put_u16 [simp]: "length (sodchan_wire_put_u16 v) = 2"
  by (simp add: sodchan_wire_put_u16_def)

lemma length_put_u32 [simp]: "length (sodchan_wire_put_u32 v) = 4"
  by (simp add: sodchan_wire_put_u32_def)

lemma get_put_u16 [simp]: "sodchan_wire_get_u16 (sodchan_wire_put_u16 v @ r) = v"
  unfolding sodchan_wire_get_u16_def sodchan_wire_put_u16_def
  by (rule bit_word_eqI)
    (auto simp: bit_simps not_less le_diff_conv2)

lemma get_put_u32 [simp]: "sodchan_wire_get_u32 (sodchan_wire_put_u32 v @ r) = v"
proof (rule bit_word_eqI)
  fix n assume "n < LENGTH(32)"
  then consider "n < 8" | "8 \<le> n" "n < 16" | "16 \<le> n" "n < 24" | "24 \<le> n" "n < 32"
    by fastforce
  then show "bit (sodchan_wire_get_u32 (sodchan_wire_put_u32 v @ r)) n = bit v n"
    by cases (auto simp: sodchan_wire_get_u32_def sodchan_wire_put_u32_def bit_simps)
qed

lemma byte_of_shifted_u16:
  fixes a b :: byte
  shows "ucast (drop_bit 8 (push_bit 8 (ucast a) OR ucast b :: u16)) = a"
    and "ucast (push_bit 8 (ucast a) OR ucast b :: u16) = b"
  by (rule bit_word_eqI; auto simp: bit_simps dest: bit_imp_le_length)+

lemma byte_of_shifted_u32:
  fixes a b c d :: byte
  defines "w \<equiv> push_bit 24 (ucast a) OR push_bit 16 (ucast b) OR
                 push_bit 8 (ucast c) OR ucast d :: u32"
  shows "ucast (drop_bit 24 w) = a" and "ucast (drop_bit 16 w) = b"
    and "ucast (drop_bit 8 w) = c" and "ucast w = d"
  unfolding w_def
  by (rule bit_word_eqI; auto simp: bit_simps dest: bit_imp_le_length)+

lemma length_2_nth: "length xs = 2 \<Longrightarrow> xs = [xs ! 0, xs ! 1]"
  by (cases xs; cases "tl xs") (auto simp: numeral_2_eq_2)

lemma length_4_nth: "length xs = 4 \<Longrightarrow> xs = [xs ! 0, xs ! 1, xs ! 2, xs ! 3]"
  by (rule nth_equalityI) (auto simp: less_Suc_eq numeral_eq_Suc)

lemma put_get_u16: "length p = 2 \<Longrightarrow> sodchan_wire_put_u16 (sodchan_wire_get_u16 p) = p"
  unfolding sodchan_wire_get_u16_def sodchan_wire_put_u16_def byte_of_shifted_u16
  by (rule length_2_nth [symmetric])

lemma put_get_u32: "length p = 4 \<Longrightarrow> sodchan_wire_put_u32 (sodchan_wire_get_u32 p) = p"
  unfolding sodchan_wire_get_u32_def sodchan_wire_put_u32_def byte_of_shifted_u32
  by (rule length_4_nth [symmetric])

lemma get_u16_take: "sodchan_wire_get_u16 (take 2 p) = sodchan_wire_get_u16 p"
  by (simp add: sodchan_wire_get_u16_def)

lemma get_u32_take: "sodchan_wire_get_u32 (take 4 p) = sodchan_wire_get_u32 p"
  by (simp add: sodchan_wire_get_u32_def)

lemma put_get_u16_take:
  "2 \<le> length p \<Longrightarrow> sodchan_wire_put_u16 (sodchan_wire_get_u16 p) = take 2 p"
  using put_get_u16 [of "take 2 p"] by (simp add: get_u16_take)

lemma put_get_u32_take:
  "4 \<le> length p \<Longrightarrow> sodchan_wire_put_u32 (sodchan_wire_get_u32 p) = take 4 p"
  using put_get_u32 [of "take 4 p"] by (simp add: get_u32_take)

lemma get_put_u16_nil [simp]: "sodchan_wire_get_u16 (sodchan_wire_put_u16 v) = v"
  using get_put_u16 [of v "[]"] by simp

lemma get_put_u32_nil [simp]: "sodchan_wire_get_u32 (sodchan_wire_put_u32 v) = v"
  using get_put_u32 [of v "[]"] by simp

lemma get_u32_append: "4 \<le> length p \<Longrightarrow> sodchan_wire_get_u32 (p @ q) = sodchan_wire_get_u32 p"
  by (cases p) (auto simp: sodchan_wire_get_u32_def nth_append)

section \<open>The codec interface\<close>

text \<open>
  What every PDU format promises its users: on valid values the decoder undoes
  the encoder, and the decoder accepts nothing but encodings of valid values.
\<close>

locale codec =
  fixes enc :: "'a \<Rightarrow> bytes"
    and dec :: "bytes \<Rightarrow> rc + 'a"
    and ok :: "'a \<Rightarrow> bool"
  assumes dec_enc: "ok v \<Longrightarrow> dec (enc v) = Inr v"
    and dec_ok: "dec bs = Inr v \<Longrightarrow> ok v"
    and enc_dec: "dec bs = Inr v \<Longrightarrow> enc v = bs"
begin

lemma dec_iff: "dec bs = Inr v \<longleftrightarrow> ok v \<and> enc v = bs"
  using dec_enc dec_ok enc_dec by blast

lemma enc_inj: "ok v \<Longrightarrow> ok w \<Longrightarrow> enc v = enc w \<longleftrightarrow> v = w"
  using dec_enc by (metis sum.inject(2))

lemma dec_unique: "dec a = Inr v \<Longrightarrow> dec b = Inr v \<Longrightarrow> a = b"
  using enc_dec by blast

lemma dec_rejects: "(\<exists>e. dec bs = Inl e) \<longleftrightarrow> bs \<notin> enc ` {v. ok v}"
proof (cases "dec bs")
  case (Inl e)
  then show ?thesis using dec_enc by fastforce
next
  case (Inr v)
  then show ?thesis using dec_ok enc_dec by fastforce
qed

end

text \<open>The bytes an encoder produced (none when it reported an error).\<close>

definition encoded :: "rc + bytes \<Rightarrow> bytes" where
  "encoded r = (case r of Inl e \<Rightarrow> [] | Inr bs \<Rightarrow> bs)"

lemma encoded_simps [simp]: "encoded (Inr bs) = bs" "encoded (Inl e) = []"
  by (simp_all add: encoded_def)

section \<open>Frames\<close>

definition sodchan_wire_frame_encode_max :: "span \<Rightarrow> u32 \<Rightarrow> dest \<Rightarrow> rc + bytes" where
  "sodchan_wire_frame_encode_max body max_body out =
     (case (body, out) of
        (Some b, Some out_cap) \<Rightarrow>
          if length b = 0 then Inl SODCHAN_ERR_PARAM
          else if length b > unat max_body then Inl SODCHAN_ERR_PROTOCOL
          else if out_cap < 4 + length b then Inl SODCHAN_ERR_FULL
          else Inr (sodchan_wire_put_u32 (of_nat (length b)) @ b)
      | _ \<Rightarrow> Inl SODCHAN_ERR_PARAM)"

definition sodchan_wire_frame_encode :: "span \<Rightarrow> dest \<Rightarrow> rc + bytes" where
  "sodchan_wire_frame_encode body out =
     sodchan_wire_frame_encode_max body SODCHAN_MAX_CLEAR_FRAME out"

text \<open>
  The parser's results are the body (the \<^verbatim>\<open>L\<close> bytes after the length) and the
  number of bytes consumed. \<open>SODCHAN_ERR_FULL\<close> asks for more input.
\<close>

definition sodchan_wire_frame_parse_max :: "span \<Rightarrow> u32 \<Rightarrow> rc + bytes \<times> nat" where
  "sodchan_wire_frame_parse_max data max_body =
     (case data of
        None \<Rightarrow> Inl SODCHAN_ERR_PARAM
      | Some d \<Rightarrow>
          if length d < 4 then Inl SODCHAN_ERR_FULL
          else let L = sodchan_wire_get_u32 d in
            if L = 0 \<or> L > max_body then Inl SODCHAN_ERR_PROTOCOL
            else if length d < 4 + unat L then Inl SODCHAN_ERR_FULL
            else Inr (take (unat L) (drop 4 d), 4 + unat L))"

definition sodchan_wire_frame_parse :: "span \<Rightarrow> rc + bytes \<times> nat" where
  "sodchan_wire_frame_parse data = sodchan_wire_frame_parse_max data SODCHAN_MAX_CLEAR_FRAME"

section \<open>The framing interface\<close>

text \<open>
  What a reader of a byte stream relies on: a parser that answers
  \<open>SODCHAN_ERR_FULL\<close> exactly while it cannot decide, whose verdict does not
  change when more bytes arrive, and that consumes a positive number of the
  bytes it was given.
\<close>

locale framing =
  fixes frame :: "bytes \<Rightarrow> bytes"
    and parse :: "bytes \<Rightarrow> rc + bytes \<times> nat"
    and ok :: "bytes \<Rightarrow> bool"
  assumes parse_frame: "ok b \<Longrightarrow> parse (frame b) = Inr (b, length (frame b))"
    and parse_stable: "parse d \<noteq> Inl SODCHAN_ERR_FULL \<Longrightarrow> parse (d @ e) = parse d"
    and parse_consumes: "parse d = Inr (b, n) \<Longrightarrow> 0 < n \<and> n \<le> length d \<and> ok b \<and> take n d = frame b"
begin

lemma parse_frame_append: "ok b \<Longrightarrow> parse (frame b @ rest) = Inr (b, length (frame b))"
  using parse_frame parse_stable by (metis sum.distinct(1))

lemma parse_partial:
  assumes "ok b" and "frame b = d @ e" and "e \<noteq> []"
  shows "parse d = Inl SODCHAN_ERR_FULL"
proof (rule ccontr)
  assume "parse d \<noteq> Inl SODCHAN_ERR_FULL"
  then have "parse d = Inr (b, length (frame b))"
    using parse_stable parse_frame assms by metis
  then have "length (frame b) \<le> length d"
    using parse_consumes by blast
  with assms(2,3) show False by simp
qed

text \<open>Cutting all complete frames off the front of a stream: the bodies and the rest.\<close>

function frames :: "bytes \<Rightarrow> bytes list \<times> bytes" where
  "frames d = (case parse d of Inl e \<Rightarrow> ([], d)
     | Inr (b, n) \<Rightarrow> (case frames (drop n d) of (bs, rest) \<Rightarrow> (b # bs, rest)))"
  by pat_completeness auto
termination
  by (relation "measure length") (use parse_consumes in \<open>fastforce+\<close>)

declare frames.simps [simp del]

lemma frames_concat:
  assumes "list_all ok bs" and "parse rest = Inl e"
  shows "frames (concat (map frame bs) @ rest) = (bs, rest)"
  using assms(1)
proof (induction bs)
  case Nil
  then show ?case using assms(2) by (simp add: frames.simps)
next
  case (Cons b bs)
  then have "parse (frame b @ concat (map frame bs) @ rest) = Inr (b, length (frame b))"
    by (simp add: parse_frame_append)
  with Cons show ?case by (subst frames.simps) simp
qed

lemma frames_split:
  "frames d = (bs, rest) \<Longrightarrow>
     list_all ok bs \<and> d = concat (map frame bs) @ rest \<and> (\<exists>e. parse rest = Inl e)"
proof (induction d arbitrary: bs rest rule: frames.induct)
  case (1 d)
  show ?case
  proof (cases "parse d")
    case (Inl e)
    with "1.prems" show ?thesis by (simp add: frames.simps)
  next
    case (Inr bn)
    obtain b n where bn: "bn = (b, n)" by (cases bn)
    obtain cs r where f: "frames (drop n d) = (cs, r)" by fastforce
    have d: "d = frame b @ drop n d" using parse_consumes [of d b n] Inr bn by (metis append_take_drop_id)
    have "bs = b # cs" "rest = r" using "1.prems" Inr bn f by (auto simp: frames.simps [of d])
    with "1.IH" [OF Inr bn [symmetric] f] parse_consumes [of d b n] Inr bn d show ?thesis by auto
  qed
qed

end

text \<open>The valid bodies of a frame, for a given limit.\<close>

definition frame_ok :: "u32 \<Rightarrow> bytes \<Rightarrow> bool" where
  "frame_ok max_body b \<longleftrightarrow> 0 < length b \<and> length b \<le> unat max_body"

definition wire_frame :: "u32 \<Rightarrow> bytes \<Rightarrow> bytes" where
  "wire_frame max_body b =
     encoded (sodchan_wire_frame_encode_max (Some b) max_body (Some (4 + length b)))"

lemma frame_len_u32: "length b \<le> unat (m :: u32) \<Longrightarrow> unat (of_nat (length b) :: u32) = length b"
  using unsigned_less [of m, where 'a = nat] by (intro unat_of_nat_u32) simp

lemma wire_frame_eq:
  "frame_ok m b \<Longrightarrow> wire_frame m b = sodchan_wire_put_u32 (of_nat (length b)) @ b"
  by (simp add: wire_frame_def frame_ok_def sodchan_wire_frame_encode_max_def)

lemma frame_parse_stable:
  assumes "sodchan_wire_frame_parse_max (Some d) m \<noteq> Inl SODCHAN_ERR_FULL"
  shows "sodchan_wire_frame_parse_max (Some (d @ e)) m = sodchan_wire_frame_parse_max (Some d) m"
  using assms
  by (auto simp: sodchan_wire_frame_parse_max_def Let_def get_u32_append not_less split: if_splits)

lemma frame_parse_Inr:
  assumes "sodchan_wire_frame_parse_max (Some d) m = Inr (b, n)"
  shows "n = 4 + length b" and "n \<le> length d" and "frame_ok m b" and "take n d = wire_frame m b"
proof -
  from assms show n: "n = 4 + length b" and "n \<le> length d"
    by (auto simp: sodchan_wire_frame_parse_max_def Let_def split: if_splits)
  from assms have "length b = unat (sodchan_wire_get_u32 d)" and "0 < sodchan_wire_get_u32 d"
    and "sodchan_wire_get_u32 d \<le> m"
    by (auto simp: sodchan_wire_frame_parse_max_def Let_def word_neq_0_conv split: if_splits)
  then show ok: "frame_ok m b"
    by (simp add: frame_ok_def word_le_nat_alt word_less_nat_alt)
  from assms have "b = take (length b) (drop 4 d)" and "sodchan_wire_get_u32 d = of_nat (length b)"
    and "4 \<le> length d"
    by (auto simp: sodchan_wire_frame_parse_max_def Let_def split: if_splits)
  then have "take 4 d = sodchan_wire_put_u32 (of_nat (length b))"
    by (metis put_get_u32_take)
  with \<open>b = take (length b) (drop 4 d)\<close> show "take n d = wire_frame m b"
    unfolding n wire_frame_eq [OF ok] by (metis take_add)
qed

lemma frame_parse_frame:
  assumes "frame_ok m b"
  shows "sodchan_wire_frame_parse_max (Some (wire_frame m b)) m = Inr (b, length (wire_frame m b))"
proof -
  from assms have len: "unat (of_nat (length b) :: u32) = length b"
    unfolding frame_ok_def by (intro frame_len_u32) auto
  moreover from assms len have "\<not> m < of_nat (length b)" "of_nat (length b) \<noteq> (0 :: u32)"
    by (auto simp: frame_ok_def word_less_nat_alt)
  ultimately show ?thesis
    by (simp add: sodchan_wire_frame_parse_max_def wire_frame_eq [OF assms] Let_def)
qed

interpretation wf: framing
  "wire_frame m" "\<lambda>d. sodchan_wire_frame_parse_max (Some d) m" "frame_ok m"
  for m :: u32
  by unfold_locales
    (auto simp: frame_parse_frame frame_parse_stable frame_parse_Inr dest: frame_parse_Inr(1))

text \<open>
  Reading a stream the way \<open>sodchan_wire_frame_parse_max\<close> is called by the input
  loop: parse at the front, drop what was consumed, go on until it declines.
\<close>

function cut_frames :: "u32 \<Rightarrow> bytes \<Rightarrow> bytes list \<times> bytes" where
  "cut_frames m d = (case sodchan_wire_frame_parse_max (Some d) m of
       Inl e \<Rightarrow> ([], d)
     | Inr (b, n) \<Rightarrow> (case cut_frames m (drop n d) of (bs, rest) \<Rightarrow> (b # bs, rest)))"
  by pat_completeness auto
termination
  by (relation "measure (length \<circ> snd)") (use frame_parse_Inr in \<open>fastforce+\<close>)

declare cut_frames.simps [simp del]

lemma cut_frames_eq: "cut_frames m d = wf.frames m d"
proof (induction m d rule: cut_frames.induct)
  case (1 m d)
  then show ?case
    by (simp add: cut_frames.simps [of m d] wf.frames.simps [of m d] split: sum.splits prod.splits)
qed

section \<open>Reading fields back\<close>

text \<open>
  Adjacent fields read out of a PDU and written next to each other again give
  the stretch of the PDU they came from; these rules close the
  encode-after-decode half of every codec.
\<close>

lemma join_nth [wire_join]:
  "m = n + 1 \<Longrightarrow> n < length xs \<Longrightarrow> xs ! n # take c (drop m xs) = take (Suc c) (drop n xs)"
  by (metis Cons_nth_drop_Suc Suc_eq_plus1 take_Suc_Cons)

lemma join_nth_last [wire_join]: "n < length xs \<Longrightarrow> [xs ! n] = take 1 (drop n xs)"
  by (simp add: take_Suc_conv_app_nth)

lemma join_tag [wire_join]:
  "xs ! 0 = t \<Longrightarrow> 0 < length xs \<Longrightarrow> t # take c (drop (Suc 0) xs) = take (Suc c) xs"
  by (cases xs) simp_all

lemma join_take [wire_join]:
  "d = b + a \<Longrightarrow> take a (drop b xs) @ take c (drop d xs) = take (a + c) (drop b xs)"
  by (metis add.commute drop_drop take_add)

lemma join_nth_end [wire_join]:
  "m = n + 1 \<Longrightarrow> n < length xs \<Longrightarrow> xs ! n # drop m xs = drop n xs"
  by (simp add: Cons_nth_drop_Suc)

lemma join_tag_end [wire_join]: "xs ! 0 = t \<Longrightarrow> 0 < length xs \<Longrightarrow> t # drop (Suc 0) xs = xs"
  by (cases xs) simp_all

lemma join_take_end [wire_join]: "d = b + a \<Longrightarrow> take a (drop b xs) @ drop d xs = drop b xs"
  by (metis add.commute append_take_drop_id drop_drop)

lemma join_u16 [wire_join]:
  "n + 2 \<le> length xs \<Longrightarrow>
     sodchan_wire_put_u16 (sodchan_wire_get_u16 (drop n xs)) = take 2 (drop n xs)"
  by (rule put_get_u16_take) simp

lemma join_u32 [wire_join]:
  "n + 4 \<le> length xs \<Longrightarrow>
     sodchan_wire_put_u32 (sodchan_wire_get_u32 (drop n xs)) = take 4 (drop n xs)"
  by (rule put_get_u32_take) simp

lemma unat_byte_le: "unat (b :: byte) \<le> 255"
  using unsigned_less [of b, where 'a = nat] by simp

lemma unat_byte_not_gt [wire_join]: "255 \<le> n \<Longrightarrow> \<not> n < unat (b :: byte)"
  using unat_byte_le [of b] by simp

lemma copy_cstr_byte [wire_join]:
  "copy_cstr src (unat (b :: byte)) 256 = take (unat b) src @ [0]"
  using unat_byte_le [of b] by (simp add: copy_cstr_def)

section \<open>Properties\<close>

text \<open>
  C22. Framing: a stream of frames, followed by bytes that are no complete
  frame, is cut into exactly their bodies, in order, and those bytes; whatever
  the cutting yields are the bodies of the frames at the front of the input,
  up to where the parser stops. One by one: a frame followed by anything
  parses to its body and its length, and every strict prefix of it makes the
  parser ask for more input.
\<close>

theorem frame_stream_reassembly:
  fixes m :: u32
  assumes "frame_ok m b"
  shows "sodchan_wire_frame_parse_max (Some (wire_frame m b @ rest)) m = Inr (b, 4 + length b)
    \<and> (\<forall>k < 4 + length b.
         sodchan_wire_frame_parse_max (Some (take k (wire_frame m b))) m = Inl SODCHAN_ERR_FULL)
    \<and> (sodchan_wire_frame_parse_max (Some d) m = Inr (b, n) \<longrightarrow>
         (\<exists>rest'. d = wire_frame m b @ rest' \<and> n = 4 + length b))
    \<and> (\<forall>bodies e. list_all (frame_ok m) bodies
         \<longrightarrow> sodchan_wire_frame_parse_max (Some rest) m = Inl e
         \<longrightarrow> cut_frames m (concat (map (wire_frame m) bodies) @ rest) = (bodies, rest))
    \<and> (\<forall>bodies tail. cut_frames m d = (bodies, tail) \<longrightarrow>
         list_all (frame_ok m) bodies \<and> d = concat (map (wire_frame m) bodies) @ tail
         \<and> (\<exists>e. sodchan_wire_frame_parse_max (Some tail) m = Inl e))"
proof (intro conjI allI impI)
  have len: "length (wire_frame m b) = 4 + length b"
    using wire_frame_eq [OF assms] by simp
  show "sodchan_wire_frame_parse_max (Some (wire_frame m b @ rest)) m = Inr (b, 4 + length b)"
    using wf.parse_frame_append [OF assms] len by simp
  show "sodchan_wire_frame_parse_max (Some (take k (wire_frame m b))) m = Inl SODCHAN_ERR_FULL"
    if "k < 4 + length b" for k
    using len that by (intro wf.parse_partial [OF assms, where e = "drop k (wire_frame m b)"]) auto
  show "\<exists>rest'. d = wire_frame m b @ rest' \<and> n = 4 + length b"
    if "sodchan_wire_frame_parse_max (Some d) m = Inr (b, n)"
    using frame_parse_Inr [OF that] by (metis append_take_drop_id)
qed (use wf.frames_concat wf.frames_split in \<open>auto simp: cut_frames_eq\<close>)

theorem frame_stream_reassembly_witness:
  "frame_ok 512 [7, 8]
     \<and> sodchan_wire_frame_parse_max (Some (wire_frame 512 [7, 8] @ [9])) 512 = Inr ([7, 8], 6)
     \<and> sodchan_wire_frame_parse_max (Some (take 5 (wire_frame 512 [7, 8]))) 512
         = Inl SODCHAN_ERR_FULL
     \<and> cut_frames 512 (wire_frame 512 [7, 8] @ wire_frame 512 [5] @ [9]) = ([[7, 8], [5]], [9])"
proof -
  have ok: "frame_ok 512 [7, 8]" by (simp add: frame_ok_def)
  moreover have "list_all (frame_ok 512) [[7, 8], [5]]" by (simp add: frame_ok_def)
  moreover have "sodchan_wire_frame_parse_max (Some [9]) 512 = Inl SODCHAN_ERR_FULL"
    by (simp add: sodchan_wire_frame_parse_max_def)
  ultimately have "cut_frames 512 (concat (map (wire_frame 512) [[7, 8], [5]]) @ [9])
      = ([[7, 8], [5]], [9])"
    using frame_stream_reassembly [OF ok, of "[9]"] by blast
  with ok show ?thesis
    using frame_stream_reassembly [OF ok, of "[9]"] by simp
qed

end
