(* ===== verification/Wire_Auth.thy ===== *)
theory Wire_Auth
  imports Wire_Base
begin

text \<open>
  HELLO, the two signed transcripts and the AUTH PDUs of
  \<^verbatim>\<open>src/sodchan_wire.c\<close>. HELLO, AUTH_DEVICE and AUTH_OK are codecs; the
  transcripts are injective in everything they bind and separate from each
  other, so that a signature over one is a statement about exactly one set of
  parameters.
\<close>

section \<open>Constants\<close>

definition SODCHAN_ROLE_SERVER :: u16 where "SODCHAN_ROLE_SERVER = 0"
definition SODCHAN_ROLE_CLIENT :: u16 where "SODCHAN_ROLE_CLIENT = 1"

definition SODCHAN_PDU_AUTH_DEVICE :: byte where "SODCHAN_PDU_AUTH_DEVICE = 20"
definition SODCHAN_PDU_AUTH_OK :: byte where "SODCHAN_PDU_AUTH_OK = 21"
definition SODCHAN_PDU_AUTH_FAIL :: byte where "SODCHAN_PDU_AUTH_FAIL = 22"
definition SODCHAN_AUTH_FAIL_UNSPEC :: byte where "SODCHAN_AUTH_FAIL_UNSPEC = 0"

definition SODCHAN_DOM_SERVER_HELLO :: bytes where
  "SODCHAN_DOM_SERVER_HELLO = ascii ''sodchan-v1-server-hello''"
definition SODCHAN_DOM_CLIENT_AUTH :: bytes where
  "SODCHAN_DOM_CLIENT_AUTH = ascii ''sodchan-v1-client-auth''"
definition SODCHAN_DOM_SERVER_HELLO_LEN :: nat where "SODCHAN_DOM_SERVER_HELLO_LEN = 23"
definition SODCHAN_DOM_CLIENT_AUTH_LEN :: nat where "SODCHAN_DOM_CLIENT_AUTH_LEN = 22"
definition SODCHAN_T_HELLO_LEN :: nat where "SODCHAN_T_HELLO_LEN = 123"

lemmas auth_const_defs =
  SODCHAN_DOM_SERVER_HELLO_def SODCHAN_DOM_CLIENT_AUTH_def
  SODCHAN_DOM_SERVER_HELLO_LEN_def SODCHAN_DOM_CLIENT_AUTH_LEN_def SODCHAN_T_HELLO_LEN_def
  SODCHAN_USER_MAX_def SODCHAN_DEVICE_ID_MAX_def SODCHAN_CLAIMS_MAX_def

section \<open>HELLO\<close>

record sodchan_hello =
  h_proto_version :: u16
  h_suite_id :: u16
  h_role :: u16
  h_flags :: u32
  h_eph_pk :: bytes
  h_id_pk :: bytes
  h_id_sig :: bytes

text \<open>The C arrays have fixed lengths.\<close>

definition hello_arrays :: "sodchan_hello \<Rightarrow> bool" where
  "hello_arrays h \<longleftrightarrow>
     length (h_eph_pk h) = 32 \<and> length (h_id_pk h) = 32 \<and> length (h_id_sig h) = 64"

definition sodchan_wire_hello_encode :: "sodchan_hello \<Rightarrow> dest \<Rightarrow> rc + bytes" where
  "sodchan_wire_hello_encode h out =
     (case out of
        None \<Rightarrow> Inl SODCHAN_ERR_PARAM
      | Some out_cap \<Rightarrow>
          if out_cap < SODCHAN_HELLO_BODY_LEN then Inl SODCHAN_ERR_FULL
          else Inr (sodchan_wire_put_u16 SODCHAN_MAGIC
                    @ sodchan_wire_put_u16 (h_proto_version h)
                    @ sodchan_wire_put_u16 (h_suite_id h)
                    @ sodchan_wire_put_u16 (h_role h)
                    @ sodchan_wire_put_u32 (h_flags h)
                    @ h_eph_pk h @ h_id_pk h @ h_id_sig h))"

definition sodchan_wire_hello_decode :: "span \<Rightarrow> rc + sodchan_hello" where
  "sodchan_wire_hello_decode body =
     (case body of
        None \<Rightarrow> Inl SODCHAN_ERR_PARAM
      | Some b \<Rightarrow>
          if length b \<noteq> SODCHAN_HELLO_BODY_LEN then Inl SODCHAN_ERR_PROTOCOL
          else if sodchan_wire_get_u16 (drop 0 b) \<noteq> SODCHAN_MAGIC then Inl SODCHAN_ERR_PROTOCOL
          else let h = \<lparr> h_proto_version = sodchan_wire_get_u16 (drop 2 b),
                         h_suite_id = sodchan_wire_get_u16 (drop 4 b),
                         h_role = sodchan_wire_get_u16 (drop 6 b),
                         h_flags = sodchan_wire_get_u32 (drop 8 b),
                         h_eph_pk = take 32 (drop 12 b),
                         h_id_pk = take 32 (drop 44 b),
                         h_id_sig = take 64 (drop 76 b) \<rparr> in
            if h_proto_version h \<noteq> SODCHAN_PROTO_VERSION \<or> h_suite_id h \<noteq> SODCHAN_SUITE_V1
            then Inl SODCHAN_ERR_PROTOCOL
            else if h_role h \<noteq> SODCHAN_ROLE_SERVER \<and> h_role h \<noteq> SODCHAN_ROLE_CLIENT
            then Inl SODCHAN_ERR_PROTOCOL
            else Inr h)"

section \<open>Transcripts\<close>

text \<open>
  The \<^verbatim>\<open>off\<close> counter of the source counts the bytes copied; its final check
  compares the sum of the constant field sizes.
\<close>

definition sodchan_wire_build_t_hello ::
    "u16 \<Rightarrow> u16 \<Rightarrow> bytes \<Rightarrow> bytes \<Rightarrow> bytes \<Rightarrow> dest \<Rightarrow> rc + bytes" where
  "sodchan_wire_build_t_hello proto_version suite_id client_eph_pk server_eph_pk server_id_pk out =
     (case out of
        None \<Rightarrow> Inl SODCHAN_ERR_PARAM
      | Some _ \<Rightarrow>
          if length SODCHAN_DOM_SERVER_HELLO \<noteq> SODCHAN_DOM_SERVER_HELLO_LEN
          then Inl SODCHAN_ERR_PROTOCOL
          else if SODCHAN_DOM_SERVER_HELLO_LEN + 2 + 2 + 32 + 32 + 32 \<noteq> SODCHAN_T_HELLO_LEN
          then Inl SODCHAN_ERR_PROTOCOL
          else Inr (SODCHAN_DOM_SERVER_HELLO
                    @ sodchan_wire_put_u16 proto_version
                    @ sodchan_wire_put_u16 suite_id
                    @ client_eph_pk @ server_eph_pk @ server_id_pk))"

definition sodchan_wire_build_t_auth ::
    "bytes \<Rightarrow> bytes \<Rightarrow> span \<Rightarrow> span \<Rightarrow> dest \<Rightarrow> rc + bytes" where
  "sodchan_wire_build_t_auth t_hello client_id_pk username device_id out =
     (case (username, device_id, out) of
        (Some user, Some dev, Some out_cap) \<Rightarrow>
          if length user > SODCHAN_USER_MAX \<or> length dev > SODCHAN_DEVICE_ID_MAX
          then Inl SODCHAN_ERR_PARAM
          else if length SODCHAN_DOM_CLIENT_AUTH \<noteq> SODCHAN_DOM_CLIENT_AUTH_LEN
          then Inl SODCHAN_ERR_PROTOCOL
          else if out_cap < SODCHAN_DOM_CLIENT_AUTH_LEN + SODCHAN_T_HELLO_LEN + 32 + 1
                              + length user + 1 + length dev
          then Inl SODCHAN_ERR_FULL
          else Inr (SODCHAN_DOM_CLIENT_AUTH @ t_hello @ client_id_pk
                    @ [of_nat (length user)] @ user @ [of_nat (length dev)] @ dev)
      | _ \<Rightarrow> Inl SODCHAN_ERR_PARAM)"

section \<open>AUTH PDUs\<close>

definition sodchan_wire_auth_device_encode ::
    "bytes \<Rightarrow> bytes \<Rightarrow> span \<Rightarrow> span \<Rightarrow> dest \<Rightarrow> rc + bytes" where
  "sodchan_wire_auth_device_encode client_id_pk client_sig username device_id out =
     (case (username, device_id, out) of
        (Some user, Some dev, Some out_cap) \<Rightarrow>
          if length user > SODCHAN_USER_MAX \<or> length dev > SODCHAN_DEVICE_ID_MAX
          then Inl SODCHAN_ERR_PARAM
          else if out_cap < 1 + 32 + 64 + 1 + length user + 1 + length dev
          then Inl SODCHAN_ERR_FULL
          else Inr ([SODCHAN_PDU_AUTH_DEVICE] @ client_id_pk @ client_sig
                    @ [of_nat (length user)] @ user @ [of_nat (length dev)] @ dev)
      | _ \<Rightarrow> Inl SODCHAN_ERR_PARAM)"

text \<open>
  Results: public key, signature, contents of the username buffer, its wire
  length, contents of the device-id buffer, its wire length.
\<close>

definition sodchan_wire_auth_device_decode ::
    "span \<Rightarrow> nat \<Rightarrow> nat \<Rightarrow> rc + bytes \<times> bytes \<times> bytes \<times> nat \<times> bytes \<times> nat" where
  "sodchan_wire_auth_device_decode pdu username_cap device_id_cap =
     (case pdu of
        None \<Rightarrow> Inl SODCHAN_ERR_PARAM
      | Some p \<Rightarrow>
          if length p < 1 + 32 + 64 + 1 + 1 then Inl SODCHAN_ERR_PROTOCOL
          else if p ! 0 \<noteq> SODCHAN_PDU_AUTH_DEVICE then Inl SODCHAN_ERR_PROTOCOL
          else let ulen = unat (p ! 97) in
            if ulen > SODCHAN_USER_MAX \<or> 98 + ulen + 1 > length p then Inl SODCHAN_ERR_PROTOCOL
            else let dlen = unat (p ! (98 + ulen)); off = 99 + ulen in
              if dlen > SODCHAN_DEVICE_ID_MAX \<or> off + dlen > length p
              then Inl SODCHAN_ERR_PROTOCOL
              else if off + dlen \<noteq> length p then Inl SODCHAN_ERR_PROTOCOL
              else Inr (take 32 (drop 1 p), take 64 (drop 33 p),
                        copy_cstr (drop 98 p) ulen username_cap, ulen,
                        copy_cstr (drop off p) dlen device_id_cap, dlen))"

definition sodchan_wire_auth_ok_encode :: "span \<Rightarrow> dest \<Rightarrow> rc + bytes" where
  "sodchan_wire_auth_ok_encode claims out =
     (case (claims, out) of
        (Some c, Some out_cap) \<Rightarrow>
          if length c > SODCHAN_CLAIMS_MAX then Inl SODCHAN_ERR_PARAM
          else if out_cap < 1 + 2 + length c then Inl SODCHAN_ERR_FULL
          else Inr ([SODCHAN_PDU_AUTH_OK] @ sodchan_wire_put_u16 (of_nat (length c)) @ c)
      | _ \<Rightarrow> Inl SODCHAN_ERR_PARAM)"

definition sodchan_wire_auth_ok_decode :: "span \<Rightarrow> rc + bytes" where
  "sodchan_wire_auth_ok_decode pdu =
     (case pdu of
        None \<Rightarrow> Inl SODCHAN_ERR_PARAM
      | Some p \<Rightarrow>
          if length p < 3 \<or> p ! 0 \<noteq> SODCHAN_PDU_AUTH_OK then Inl SODCHAN_ERR_PROTOCOL
          else let C = unat (sodchan_wire_get_u16 (drop 1 p)) in
            if C > SODCHAN_CLAIMS_MAX \<or> length p \<noteq> 3 + C then Inl SODCHAN_ERR_PROTOCOL
            else Inr (take C (drop 3 p)))"

definition sodchan_wire_auth_fail_encode :: "dest \<Rightarrow> rc + bytes" where
  "sodchan_wire_auth_fail_encode out =
     (case out of
        None \<Rightarrow> Inl SODCHAN_ERR_PARAM
      | Some out_cap \<Rightarrow>
          if out_cap < 3 then Inl SODCHAN_ERR_FULL
          else Inr [SODCHAN_PDU_AUTH_FAIL, SODCHAN_AUTH_FAIL_UNSPEC, 0])"

text \<open>Results: reason and message length.\<close>

definition sodchan_wire_auth_fail_decode :: "span \<Rightarrow> rc + byte \<times> byte" where
  "sodchan_wire_auth_fail_decode pdu =
     (case pdu of
        None \<Rightarrow> Inl SODCHAN_ERR_PARAM
      | Some p \<Rightarrow>
          if length p < 3 \<or> p ! 0 \<noteq> SODCHAN_PDU_AUTH_FAIL then Inl SODCHAN_ERR_PROTOCOL
          else if length p \<noteq> 3 + unat (p ! 2) then Inl SODCHAN_ERR_PROTOCOL
          else Inr (p ! 1, p ! 2))"

lemmas auth_codec_defs =
  sodchan_wire_hello_encode_def sodchan_wire_hello_decode_def
  sodchan_wire_auth_device_encode_def sodchan_wire_auth_device_decode_def
  sodchan_wire_auth_ok_encode_def sodchan_wire_auth_ok_decode_def
  sodchan_wire_auth_fail_encode_def sodchan_wire_auth_fail_decode_def

section \<open>The formats as codecs\<close>

definition hello_enc :: "sodchan_hello \<Rightarrow> bytes" where
  "hello_enc h = encoded (sodchan_wire_hello_encode h (Some SODCHAN_HELLO_BODY_LEN))"

definition hello_ok :: "sodchan_hello \<Rightarrow> bool" where
  "hello_ok h \<longleftrightarrow> hello_arrays h \<and> h_proto_version h = SODCHAN_PROTO_VERSION \<and>
     h_suite_id h = SODCHAN_SUITE_V1 \<and>
     (h_role h = SODCHAN_ROLE_SERVER \<or> h_role h = SODCHAN_ROLE_CLIENT)"

definition auth_device_enc :: "bytes \<times> bytes \<times> bytes \<times> bytes \<Rightarrow> bytes" where
  "auth_device_enc = (\<lambda>(pk, sig, user, dev).
     encoded (sodchan_wire_auth_device_encode pk sig (Some user) (Some dev) (Some 512)))"

definition auth_device_dec :: "bytes \<Rightarrow> rc + bytes \<times> bytes \<times> bytes \<times> bytes" where
  "auth_device_dec p =
     map_sum id (\<lambda>(pk, sig, ubuf, ulen, dbuf, dlen). (pk, sig, take ulen ubuf, take dlen dbuf))
       (sodchan_wire_auth_device_decode (Some p) (SODCHAN_USER_MAX + 1) (SODCHAN_DEVICE_ID_MAX + 1))"

definition auth_device_ok :: "bytes \<times> bytes \<times> bytes \<times> bytes \<Rightarrow> bool" where
  "auth_device_ok = (\<lambda>(pk, sig, user, dev). length pk = 32 \<and> length sig = 64 \<and>
     length user \<le> SODCHAN_USER_MAX \<and> length dev \<le> SODCHAN_DEVICE_ID_MAX)"

definition auth_ok_enc :: "bytes \<Rightarrow> bytes" where
  "auth_ok_enc c = encoded (sodchan_wire_auth_ok_encode (Some c) (Some (3 + SODCHAN_CLAIMS_MAX)))"

lemma hello_dec_enc: "hello_ok h \<Longrightarrow> sodchan_wire_hello_decode (Some (hello_enc h)) = Inr h"
  by (cases h)
    (simp add: hello_ok_def hello_arrays_def hello_enc_def auth_codec_defs
      SODCHAN_HELLO_BODY_LEN_def Let_def)

lemma hello_enc_dec:
  assumes "sodchan_wire_hello_decode (Some bs) = Inr h"
  shows "hello_ok h" and "hello_enc h = bs"
proof -
  from assms have len: "length bs = 140" and magic: "sodchan_wire_get_u16 bs = SODCHAN_MAGIC"
    and h: "h = \<lparr> h_proto_version = sodchan_wire_get_u16 (drop 2 bs),
                  h_suite_id = sodchan_wire_get_u16 (drop 4 bs),
                  h_role = sodchan_wire_get_u16 (drop 6 bs),
                  h_flags = sodchan_wire_get_u32 (drop 8 bs),
                  h_eph_pk = take 32 (drop 12 bs),
                  h_id_pk = take 32 (drop 44 bs),
                  h_id_sig = take 64 (drop 76 bs) \<rparr>"
    by (auto simp: sodchan_wire_hello_decode_def SODCHAN_HELLO_BODY_LEN_def Let_def
        split: if_splits)
  from assms show "hello_ok h"
    using h len
    by (auto simp: sodchan_wire_hello_decode_def hello_ok_def hello_arrays_def Let_def
        split: if_splits)
  have "sodchan_wire_put_u16 SODCHAN_MAGIC = take 2 bs"
    using put_get_u16_take [of bs] len magic by simp
  then show "hello_enc h = bs"
    using len join_take_end [of 2 0 2 bs]
    by (simp add: hello_enc_def sodchan_wire_hello_encode_def SODCHAN_HELLO_BODY_LEN_def h wire_join)
qed

interpretation hello_codec: codec
  hello_enc "\<lambda>p. sodchan_wire_hello_decode (Some p)" hello_ok
  by unfold_locales (auto simp: hello_dec_enc dest: hello_enc_dec)

lemma auth_ok_dec_enc:
  "length c \<le> SODCHAN_CLAIMS_MAX \<Longrightarrow> sodchan_wire_auth_ok_decode (Some (auth_ok_enc c)) = Inr c"
  by (simp add: auth_ok_enc_def auth_codec_defs auth_const_defs unat_of_nat_u16 Let_def)

lemma auth_ok_enc_dec:
  assumes "sodchan_wire_auth_ok_decode (Some bs) = Inr c"
  shows "length c \<le> SODCHAN_CLAIMS_MAX" and "auth_ok_enc c = bs"
proof -
  define n where "n = unat (sodchan_wire_get_u16 (drop 1 bs))"
  from assms have b: "3 \<le> length bs \<and> bs ! 0 = SODCHAN_PDU_AUTH_OK \<and> length bs = 3 + n
      \<and> n \<le> SODCHAN_CLAIMS_MAX \<and> c = take n (drop 3 bs)"
    unfolding sodchan_wire_auth_ok_decode_def option.case Let_def n_def [symmetric]
    by (auto split: if_splits)
  then have c: "c = drop 3 bs" "length c = n" by auto
  then show "length c \<le> SODCHAN_CLAIMS_MAX" using b by simp
  have "of_nat n = sodchan_wire_get_u16 (drop 1 bs)" by (simp add: n_def)
  then have "auth_ok_enc c
      = SODCHAN_PDU_AUTH_OK # sodchan_wire_put_u16 (sodchan_wire_get_u16 (drop 1 bs)) @ c"
    using b c by (simp add: auth_ok_enc_def sodchan_wire_auth_ok_encode_def)
  also have "\<dots> = bs"
    unfolding c(1) using b by (cases "bs = []") (simp_all add: wire_join)
  finally show "auth_ok_enc c = bs" .
qed

interpretation auth_ok_codec: codec
  auth_ok_enc "\<lambda>p. sodchan_wire_auth_ok_decode (Some p)" "\<lambda>c. length c \<le> SODCHAN_CLAIMS_MAX"
  by unfold_locales (auto simp: auth_ok_dec_enc dest: auth_ok_enc_dec)

lemma auth_device_dec_enc:
  assumes "auth_device_ok v"
  shows "auth_device_dec (auth_device_enc v) = Inr v"
  using assms
  by (cases v)
    (simp add: auth_device_ok_def auth_device_enc_def auth_device_dec_def auth_codec_defs
      auth_const_defs Let_def nth_append unat_of_nat_byte copy_cstr_fits drop_Cons')

lemma auth_device_enc_dec:
  assumes "auth_device_dec bs = Inr v"
  shows "auth_device_ok v" and "auth_device_enc v = bs"
proof -
  define u where "u = unat (bs ! 97)"
  define d where "d = unat (bs ! (98 + u))"
  from assms have b: "bs ! 0 = SODCHAN_PDU_AUTH_DEVICE" "u \<le> 128" "d \<le> 128"
      "length bs = 99 + u + d"
    and v: "v = (take 32 (drop 1 bs), take 64 (drop 33 bs), take u (drop 98 bs),
                 take d (drop (99 + u) bs))"
    by (auto simp: auth_device_dec_def sodchan_wire_auth_device_decode_def auth_const_defs
        Let_def copy_cstr_fits u_def d_def split: if_splits)
  show "auth_device_ok v"
    using b by (simp add: v auth_device_ok_def auth_const_defs)
  have "of_nat u = bs ! 97" "of_nat d = bs ! (98 + u)"
    by (simp_all add: u_def d_def)
  moreover have "bs ! 0 = SODCHAN_PDU_AUTH_DEVICE \<Longrightarrow> bs \<noteq> [] \<Longrightarrow>
      SODCHAN_PDU_AUTH_DEVICE # drop (Suc 0) bs = bs"
    by (simp add: wire_join)
  ultimately show "auth_device_enc v = bs"
    using b by (simp add: v auth_device_enc_def sodchan_wire_auth_device_encode_def auth_const_defs
        min_def wire_join)
qed

interpretation auth_device_codec: codec auth_device_enc auth_device_dec auth_device_ok
  by unfold_locales (auto simp: auth_device_dec_enc dest: auth_device_enc_dec)

section \<open>Transcripts bind their fields\<close>

lemma dom_lengths [simp]:
  "length SODCHAN_DOM_SERVER_HELLO = 23" "length SODCHAN_DOM_CLIENT_AUTH = 22"
  by (simp_all add: auth_const_defs)

lemma t_hello_Inr:
  "sodchan_wire_build_t_hello v s c e i (Some n) =
     Inr (SODCHAN_DOM_SERVER_HELLO @ sodchan_wire_put_u16 v @ sodchan_wire_put_u16 s @ c @ e @ i)"
  by (simp add: sodchan_wire_build_t_hello_def SODCHAN_DOM_SERVER_HELLO_LEN_def
      SODCHAN_T_HELLO_LEN_def)

lemma t_auth_Inr:
  "sodchan_wire_build_t_auth t pk u d out = Inr a \<longleftrightarrow>
     (\<exists>user dev cap. u = Some user \<and> d = Some dev \<and> out = Some cap
        \<and> length user \<le> 128 \<and> length dev \<le> 128 \<and> 179 + length user + length dev \<le> cap
        \<and> a = SODCHAN_DOM_CLIENT_AUTH @ t @ pk
                @ [of_nat (length user)] @ user @ [of_nat (length dev)] @ dev)"
  by (auto simp: sodchan_wire_build_t_auth_def auth_const_defs split: option.splits if_splits)

lemma put_u16_inject [simp]: "sodchan_wire_put_u16 v = sodchan_wire_put_u16 w \<longleftrightarrow> v = w"
  by (metis get_put_u16_nil)

lemma power_numeral_256: "(2 :: nat) ^ 8 = 256"
  by simp

lemma lp_append_inject:
  assumes "length xs < 256" and "length ys < 256"
    and "(of_nat (length xs) :: byte) # xs @ r = of_nat (length ys) # ys @ q"
  shows "xs = ys" and "r = q"
proof -
  from assms(3) have "(of_nat (length xs) :: byte) = of_nat (length ys)" and eq: "xs @ r = ys @ q"
    by (simp_all only: list.inject)
  then have "unat (of_nat (length xs) :: byte) = unat (of_nat (length ys) :: byte)"
    by (simp only:)
  moreover have "unat (of_nat (length xs) :: byte) = length xs"
    "unat (of_nat (length ys) :: byte) = length ys"
    using assms(1,2) by (simp_all only: unat_of_nat_byte power_numeral_256)
  ultimately have "length xs = length ys" by (simp only:)
  with eq have "xs = ys \<and> r = q" by (metis append_eq_append_conv)
  then show "xs = ys" and "r = q" by blast+
qed

lemma t_hello_not_t_auth:
  "SODCHAN_DOM_SERVER_HELLO @ x \<noteq> SODCHAN_DOM_CLIENT_AUTH @ y"
proof
  assume "SODCHAN_DOM_SERVER_HELLO @ x = SODCHAN_DOM_CLIENT_AUTH @ y"
  then have "(SODCHAN_DOM_SERVER_HELLO @ x) ! 11 = (SODCHAN_DOM_CLIENT_AUTH @ y) ! 11" by simp
  then show False by (simp add: nth_append) (simp add: auth_const_defs ascii_def)
qed

section \<open>Properties\<close>

text \<open>
  C24. HELLO, AUTH_DEVICE and AUTH_OK: decoding inverts encoding on the valid
  values, and the decoder accepts nothing but such encodings (so a HELLO of
  another version, suite, role or length, or an AUTH_DEVICE with trailing
  bytes, is rejected).
\<close>

theorem auth_pdu_roundtrip:
  "(sodchan_wire_hello_decode (Some b) = Inr h \<longleftrightarrow> hello_ok h \<and> hello_enc h = b)
   \<and> (auth_device_dec b = Inr v \<longleftrightarrow> auth_device_ok v \<and> auth_device_enc v = b)
   \<and> (sodchan_wire_auth_ok_decode (Some b) = Inr c \<longleftrightarrow>
        length c \<le> SODCHAN_CLAIMS_MAX \<and> auth_ok_enc c = b)"
  using hello_codec.dec_iff auth_device_codec.dec_iff auth_ok_codec.dec_iff by blast

text \<open>
  C25. The signed transcripts bind their fields: two runs with the same
  transcript agree on version, suite, both ephemeral keys and the server
  identity (T_hello), and on the HELLO transcript, client key, username and
  device id (T_auth); and no T_hello equals a T_auth, so a server's signature
  can never be replayed as a device's.
\<close>

theorem transcript_binding:
  assumes "length c = 32" "length e = 32" "length c' = 32" "length e' = 32"
    and "length t = 123" "length t' = 123" "length pk = 32" "length pk' = 32"
  shows "(sodchan_wire_build_t_hello v s c e i (Some n) =
            sodchan_wire_build_t_hello v' s' c' e' i' (Some n') \<longleftrightarrow>
            (v, s, c, e, i) = (v', s', c', e', i'))
    \<and> (sodchan_wire_build_t_auth t pk u d out = Inr a \<longrightarrow>
         sodchan_wire_build_t_auth t' pk' u' d' out' = Inr a \<longrightarrow>
         (t, pk, u, d) = (t', pk', u', d'))
    \<and> (sodchan_wire_build_t_auth t pk u d out = Inr a \<longrightarrow>
         sodchan_wire_build_t_hello v s c e i (Some n) \<noteq> Inr a)"
proof (intro conjI impI)
  show "sodchan_wire_build_t_hello v s c e i (Some n) =
      sodchan_wire_build_t_hello v' s' c' e' i' (Some n') \<longleftrightarrow>
      (v, s, c, e, i) = (v', s', c', e', i')"
    using assms by (auto simp: t_hello_Inr)
next
  assume "sodchan_wire_build_t_auth t pk u d out = Inr a"
    and "sodchan_wire_build_t_auth t' pk' u' d' out' = Inr a"
  then obtain x y x' y' where
    f: "u = Some x" "d = Some y" "u' = Some x'" "d' = Some y'"
      "length x \<le> 128" "length x' \<le> 128" "length y \<le> 128" "length y' \<le> 128" and
    eq: "t @ pk @ of_nat (length x) # x @ of_nat (length y) # y @ [] =
         t' @ pk' @ of_nat (length x') # x' @ of_nat (length y') # (y' @ [] :: bytes)"
    by (auto simp: t_auth_Inr)
  from eq assms have "t = t'" "pk = pk'"
    and xy: "of_nat (length x) # x @ of_nat (length y) # y @ [] =
         of_nat (length x') # x' @ of_nat (length y') # (y' @ [] :: bytes)"
    by simp_all
  moreover have "x = x'" and "of_nat (length y) # y @ [] = of_nat (length y') # (y' @ [] :: bytes)"
    using lp_append_inject [OF _ _ xy] f by simp_all
  moreover from this(2) have "y = y'"
    using lp_append_inject(1) [of y y' "[]" "[]"] f by simp
  ultimately show "(t, pk, u, d) = (t', pk', u', d')"
    using f by simp
next
  assume "sodchan_wire_build_t_auth t pk u d out = Inr a"
  then show "sodchan_wire_build_t_hello v s c e i (Some n) \<noteq> Inr a"
    using t_hello_not_t_auth by (auto simp: t_auth_Inr t_hello_Inr)
qed

theorem transcript_binding_witness:
  "sodchan_wire_build_t_hello 1 1 (replicate 32 1) (replicate 32 2) (replicate 32 3) (Some 123)
     \<noteq> sodchan_wire_build_t_hello 1 1 (replicate 32 1) (replicate 32 2) (replicate 32 4) (Some 123)"
proof -
  have "replicate 32 (3 :: byte) \<noteq> replicate 32 4" by simp
  then show ?thesis
    using transcript_binding [of "replicate 32 1" "replicate 32 2" "replicate 32 1" "replicate 32 2"
        "replicate 123 0" "replicate 123 0" "replicate 32 0" "replicate 32 0"
        1 1 "replicate 32 3" 123 1 1 "replicate 32 4" 123]
    by simp
qed

end
