(* ===== verification/Sodium.thy ===== *)
theory Sodium
  imports Wire_Auth
begin

text \<open>
  libsodium is not part of the repository: its functions are the fields of a
  record \<open>sodium\<close> that is an argument of every definition that calls them, and
  nothing is assumed of them in the definitions. The documented laws that some
  properties rely on are named here, and the last section gives an instance
  that satisfies them, which the witnesses evaluate.
\<close>

section \<open>The functions of libsodium\<close>

text \<open>
  \<open>'ss\<close> is the opaque secretstream state, \<open>'gh\<close> the opaque generichash state. A
  function that can fail returns an option (\<open>None\<close> is a nonzero return); the
  functions that draw randomness take the number of the draw, which the model
  counts; \<^verbatim>\<open>sodium_memcmp\<close> and \<^verbatim>\<open>sodium_is_zero\<close> are the truth values "equal" and
  "all zero". The secretstream names leave out \<^verbatim>\<open>xchacha20poly1305\<close>.
\<close>

record ('ss, 'gh) sodium =
  sodium_init_ok :: bool
  crypto_sign_keypair :: "nat \<Rightarrow> (bytes \<times> bytes) option"
  crypto_sign_seed_keypair :: "bytes \<Rightarrow> (bytes \<times> bytes) option"
  crypto_sign_detached :: "bytes \<Rightarrow> bytes \<Rightarrow> bytes option"
  crypto_sign_verify_detached :: "bytes \<Rightarrow> bytes \<Rightarrow> bytes \<Rightarrow> bool"
  crypto_kx_keypair :: "nat \<Rightarrow> (bytes \<times> bytes) option"
  crypto_kx_client_session_keys :: "bytes \<Rightarrow> bytes \<Rightarrow> bytes \<Rightarrow> (bytes \<times> bytes) option"
  crypto_kx_server_session_keys :: "bytes \<Rightarrow> bytes \<Rightarrow> bytes \<Rightarrow> (bytes \<times> bytes) option"
  crypto_generichash_init :: "nat \<Rightarrow> 'gh option"
  crypto_generichash_update :: "'gh \<Rightarrow> bytes \<Rightarrow> 'gh option"
  crypto_generichash_final :: "'gh \<Rightarrow> nat \<Rightarrow> bytes option"
  crypto_hash_sha256 :: "bytes \<Rightarrow> bytes option"
  sodium_bin2base64 :: "bytes \<Rightarrow> bytes"
  sodium_memcmp_eq :: "bytes \<Rightarrow> bytes \<Rightarrow> bool"
  sodium_is_zero :: "bytes \<Rightarrow> bool"
  sodium_memzero :: "bytes \<Rightarrow> bytes"
  crypto_secretstream_init_push :: "nat \<Rightarrow> bytes \<Rightarrow> ('ss \<times> bytes) option"
  crypto_secretstream_init_pull :: "bytes \<Rightarrow> bytes \<Rightarrow> 'ss option"
  crypto_secretstream_push :: "'ss \<Rightarrow> bytes \<Rightarrow> byte \<Rightarrow> ('ss \<times> bytes) option"
  crypto_secretstream_pull :: "'ss \<Rightarrow> bytes \<Rightarrow> ('ss \<times> bytes \<times> byte) option"

text \<open>The message tags of secretstream, as libsodium documents them.\<close>

definition TAG_MESSAGE :: byte where "TAG_MESSAGE = 0"
definition TAG_REKEY :: byte where "TAG_REKEY = 2"
definition TAG_FINAL :: byte where "TAG_FINAL = 3"

section \<open>The documented laws of libsodium\<close>

text \<open>
  Each law is a predicate that a property names when it relies on it.
  \<^item> \<open>sign_law\<close>: a signature made with a secret key verifies under its public key;
  \<^item> \<open>kx_law\<close>: both sides of \<^verbatim>\<open>crypto_kx\<close> derive the same two keys, crossed;
  \<^item> \<open>stream_law\<close>: a pull state started from a push header and the same key reads
    back what is pushed, in order, and a ciphertext is 17 bytes longer than its
    plaintext; \<open>paired\<close> relates the states of the two ends, and the messages are
    below 4 GiB, well within what libsodium admits;
  \<^item> \<open>memory_law\<close>: the comparison and zeroing helpers.
\<close>

definition sign_law :: "('ss, 'gh) sodium \<Rightarrow> bytes \<Rightarrow> bytes \<Rightarrow> bool" where
  "sign_law sod pk sk \<longleftrightarrow>
     (\<forall>m. \<exists>s. crypto_sign_detached sod m sk = Some s \<and> length s = 64
        \<and> crypto_sign_verify_detached sod s m pk)"

definition kx_law :: "('ss, 'gh) sodium \<Rightarrow> bool" where
  "kx_law sod \<longleftrightarrow>
     (\<forall>i j. \<exists>cpk csk spk ssk rx tx.
        crypto_kx_keypair sod i = Some (cpk, csk) \<and> length cpk = 32 \<and>
        crypto_kx_keypair sod j = Some (spk, ssk) \<and> length spk = 32 \<and>
        crypto_kx_client_session_keys sod cpk csk spk = Some (rx, tx) \<and>
        crypto_kx_server_session_keys sod spk ssk cpk = Some (tx, rx))"

definition stream_law :: "('ss, 'gh) sodium \<Rightarrow> ('ss \<Rightarrow> 'ss \<Rightarrow> bool) \<Rightarrow> bool" where
  "stream_law sod paired \<longleftrightarrow>
     (\<forall>i k. \<exists>s h r. crypto_secretstream_init_push sod i k = Some (s, h) \<and>
        length h = SODCHAN_SS_HEADER_BYTES \<and>
        crypto_secretstream_init_pull sod h k = Some r \<and> paired s r) \<and>
     (\<forall>s r m t. paired s r \<longrightarrow> length m < 2 ^ 32 \<longrightarrow>
        (\<exists>s' c r'. crypto_secretstream_push sod s m t = Some (s', c) \<and>
           length c = length m + SODCHAN_SS_ABYTES \<and>
           crypto_secretstream_pull sod r c = Some (r', m, t) \<and> paired s' r'))"

definition memory_law :: "('ss, 'gh) sodium \<Rightarrow> bool" where
  "memory_law sod \<longleftrightarrow>
     (\<forall>a b. sodium_memcmp_eq sod a b \<longleftrightarrow> a = b) \<and>
     (\<forall>a. sodium_is_zero sod a \<longleftrightarrow> (\<forall>x \<in> set a. x = 0)) \<and>
     (\<forall>a. sodium_memzero sod a = replicate (length a) 0)"

text \<open>The documented length of a ciphertext alone, where nothing else is needed.\<close>

definition push_len_law :: "('ss, 'gh) sodium \<Rightarrow> bool" where
  "push_len_law sod \<longleftrightarrow>
     (\<forall>s m t s' c. crypto_secretstream_push sod s m t = Some (s', c) \<longrightarrow>
        length c = length m + SODCHAN_SS_ABYTES)"

text \<open>\<^verbatim>\<open>crypto_kx_keypair\<close> always succeeds, with keys of 32 bytes.\<close>

definition kx_keypair_law :: "('ss, 'gh) sodium \<Rightarrow> bool" where
  "kx_keypair_law sod \<longleftrightarrow>
     (\<forall>i. \<exists>pk sk. crypto_kx_keypair sod i = Some (pk, sk) \<and> length pk = 32 \<and> length sk = 32)"

lemma stream_law_send:
  assumes "stream_law sod paired" and "paired s r" and "length m < 2 ^ 32"
  obtains s' c r' where "crypto_secretstream_push sod s m t = Some (s', c)"
    and "length c = length m + SODCHAN_SS_ABYTES"
    and "crypto_secretstream_pull sod r c = Some (r', m, t)" and "paired s' r'"
  using assms unfolding stream_law_def by metis

lemma stream_law_push:
  assumes "stream_law sod paired" and "paired s r" and "length m < 2 ^ 32"
    and "crypto_secretstream_push sod s m t = Some (s', c)"
  obtains r' where "length c = length m + SODCHAN_SS_ABYTES"
    and "crypto_secretstream_pull sod r c = Some (r', m, t)" and "paired s' r'"
  using assms(4) that by (auto intro: stream_law_send [OF assms(1-3), where t = t])

lemma stream_law_init:
  assumes "stream_law sod paired"
  obtains s h r where "crypto_secretstream_init_push sod i k = Some (s, h)"
    and "length h = SODCHAN_SS_HEADER_BYTES"
    and "crypto_secretstream_init_pull sod h k = Some r" and "paired s r"
  using assms unfolding stream_law_def by blast

section \<open>An instance that satisfies the laws\<close>

text \<open>
  Not cryptography: signatures carry the key and a checksum, secretstream
  prepends the tag and appends 16 zero bytes. It only shows that the laws can
  hold together.
\<close>

definition sample_sig :: "bytes \<Rightarrow> bytes \<Rightarrow> bytes" where
  "sample_sig pk m = take 32 (pk @ replicate 32 0) @ replicate 32 (fold (+) m 0)"

definition sample_sodium :: "(bytes, bytes) sodium" where
  "sample_sodium = \<lparr>
     sodium_init_ok = True,
     crypto_sign_keypair = (\<lambda>i. Some (replicate 32 (of_nat i), replicate 64 (of_nat i))),
     crypto_sign_seed_keypair = (\<lambda>s. Some (s, s @ s)),
     crypto_sign_detached = (\<lambda>m sk. Some (sample_sig (take 32 sk) m)),
     crypto_sign_verify_detached = (\<lambda>s m pk. s = sample_sig pk m),
     crypto_kx_keypair = (\<lambda>i. Some (replicate 32 (of_nat i), replicate 32 (of_nat i))),
     crypto_kx_client_session_keys = (\<lambda>cpk csk spk. Some (spk, cpk)),
     crypto_kx_server_session_keys = (\<lambda>spk ssk cpk. Some (cpk, spk)),
     crypto_generichash_init = (\<lambda>n. Some []),
     crypto_generichash_update = (\<lambda>h m. Some (h @ m)),
     crypto_generichash_final = (\<lambda>h n. Some (take n (h @ replicate n 0))),
     crypto_hash_sha256 = (\<lambda>m. Some (take 32 (m @ replicate 32 0))),
     sodium_bin2base64 = (\<lambda>d. replicate 43 65),
     sodium_memcmp_eq = (\<lambda>a b. a = b),
     sodium_is_zero = list_all (\<lambda>x. x = 0),
     sodium_memzero = (\<lambda>a. replicate (length a) 0),
     crypto_secretstream_init_push = (\<lambda>i k. Some (k, replicate 24 (of_nat i))),
     crypto_secretstream_init_pull = (\<lambda>h k. Some k),
     crypto_secretstream_push = (\<lambda>s m t. Some (s, t # m @ replicate 16 0)),
     crypto_secretstream_pull = (\<lambda>s c.
        if length c \<ge> 17 \<and> drop (length c - 16) c = replicate 16 0
        then Some (s, take (length c - 17) (tl c), hd c) else None) \<rparr>"

lemma sample_sign_law: "length sk = 64 \<Longrightarrow> take 32 sk = pk \<Longrightarrow> sign_law sample_sodium pk sk"
  by (auto simp add: sign_law_def sample_sodium_def sample_sig_def)

lemma sample_kx_law: "kx_law sample_sodium"
  by (simp add: kx_law_def sample_sodium_def)

lemma sample_stream_law: "stream_law sample_sodium (=)"
  by (simp add: stream_law_def sample_sodium_def SODCHAN_SS_HEADER_BYTES_def SODCHAN_SS_ABYTES_def)

lemma sample_push_len_law: "push_len_law sample_sodium"
  by (simp add: push_len_law_def sample_sodium_def SODCHAN_SS_ABYTES_def)

lemma sample_kx_keypair_law: "kx_keypair_law sample_sodium"
  by (simp add: kx_keypair_law_def sample_sodium_def)

lemma sample_memory_law: "memory_law sample_sodium"
  by (simp add: memory_law_def sample_sodium_def list_all_iff)

end
