(* ===== verification/Crypto.thy ===== *)
theory Crypto
  imports Sodium
begin

text \<open>
  \<^verbatim>\<open>src/sodchan_crypto.c\<close>: key generation, the SCSK seed blob, fingerprints
  and the labelled session-key derivation, over the \<open>sodium\<close> parameter.
\<close>

section \<open>Key generation and seeds\<close>

definition SODCHAN_SEED_BLOB_LEN :: nat where "SODCHAN_SEED_BLOB_LEN = 37"
definition SODCHAN_SEED_MAGIC :: bytes where "SODCHAN_SEED_MAGIC = ascii ''SCSK'' @ [1]"

definition SODCHAN_DOM_SS_C2S :: bytes where "SODCHAN_DOM_SS_C2S = ascii ''sodchan-ss-c2s-v1''"
definition SODCHAN_DOM_SS_S2C :: bytes where "SODCHAN_DOM_SS_S2C = ascii ''sodchan-ss-s2c-v1''"

definition sodchan_crypto_init :: "('ss, 'gh) sodium \<Rightarrow> rc" where
  "sodchan_crypto_init sod = (if \<not> sodium_init_ok sod then SODCHAN_ERR_CRYPTO else SODCHAN_OK)"

text \<open>\<open>ptrs\<close>: all required pointers are non-NULL. The result is (pk, sk).\<close>

definition sodchan_keygen_device ::
    "('ss, 'gh) sodium \<Rightarrow> nat \<Rightarrow> bool \<Rightarrow> rc + bytes \<times> bytes" where
  "sodchan_keygen_device sod draw ptrs =
     (if \<not> ptrs then Inl SODCHAN_ERR_PARAM
      else if sodchan_crypto_init sod \<noteq> SODCHAN_OK then Inl SODCHAN_ERR_CRYPTO
      else (case crypto_sign_keypair sod draw of
              None \<Rightarrow> Inl SODCHAN_ERR_CRYPTO
            | Some kp \<Rightarrow> Inr kp))"

definition sodchan_keygen_from_seed ::
    "('ss, 'gh) sodium \<Rightarrow> span \<Rightarrow> rc + bytes \<times> bytes" where
  "sodchan_keygen_from_seed sod seed =
     (case seed of
        None \<Rightarrow> Inl SODCHAN_ERR_PARAM
      | Some s \<Rightarrow>
          if sodchan_crypto_init sod \<noteq> SODCHAN_OK then Inl SODCHAN_ERR_CRYPTO
          else (case crypto_sign_seed_keypair sod s of
                  None \<Rightarrow> Inl SODCHAN_ERR_CRYPTO
                | Some kp \<Rightarrow> Inr kp))"

definition sodchan_seed_encode :: "span \<Rightarrow> rc + bytes" where
  "sodchan_seed_encode seed =
     (case seed of
        None \<Rightarrow> Inl SODCHAN_ERR_PARAM
      | Some s \<Rightarrow> Inr (SODCHAN_SEED_MAGIC @ take 32 s))"

definition sodchan_seed_decode :: "span \<Rightarrow> rc + bytes" where
  "sodchan_seed_decode blob =
     (case blob of
        None \<Rightarrow> Inl SODCHAN_ERR_PARAM
      | Some b \<Rightarrow>
          if length b \<noteq> SODCHAN_SEED_BLOB_LEN then Inl SODCHAN_ERR_PARAM
          else if b ! 0 \<noteq> SODCHAN_SEED_MAGIC ! 0 \<or> b ! 1 \<noteq> SODCHAN_SEED_MAGIC ! 1 \<or>
                  b ! 2 \<noteq> SODCHAN_SEED_MAGIC ! 2 \<or> b ! 3 \<noteq> SODCHAN_SEED_MAGIC ! 3 \<or>
                  b ! 4 \<noteq> SODCHAN_SEED_MAGIC ! 4
          then Inl SODCHAN_ERR_PARAM
          else Inr (take 32 (drop 5 b)))"

definition sodchan_keygen_from_seed_blob ::
    "('ss, 'gh) sodium \<Rightarrow> span \<Rightarrow> rc + bytes \<times> bytes" where
  "sodchan_keygen_from_seed_blob sod blob =
     (case sodchan_seed_decode blob of
        Inl e \<Rightarrow> Inl e
      | Inr seed \<Rightarrow> sodchan_keygen_from_seed sod (Some seed))"

definition sodchan_pubkey_fingerprint_sha256 ::
    "('ss, 'gh) sodium \<Rightarrow> bytes \<Rightarrow> dest \<Rightarrow> rc + bytes" where
  "sodchan_pubkey_fingerprint_sha256 sod pk out =
     (case out of
        None \<Rightarrow> Inl SODCHAN_ERR_PARAM
      | Some out_len \<Rightarrow>
          if out_len = 0 then Inl SODCHAN_ERR_PARAM
          else if sodchan_crypto_init sod \<noteq> SODCHAN_OK then Inl SODCHAN_ERR_CRYPTO
          else (case crypto_hash_sha256 sod pk of
                  None \<Rightarrow> Inl SODCHAN_ERR_CRYPTO
                | Some digest \<Rightarrow>
                    let b64 = sodium_bin2base64 sod digest; need = 7 + c_strlen b64 + 1 in
                    if out_len < need then Inl SODCHAN_ERR_PARAM
                    else Inr (ascii ''SHA256:'' @ cstr b64 @ [0])))"

definition sodchan_crypto_ss_key_derive ::
    "('ss, 'gh) sodium \<Rightarrow> bytes \<Rightarrow> bytes \<Rightarrow> rc + bytes" where
  "sodchan_crypto_ss_key_derive sod kx_key dom_str =
     (if sodchan_crypto_init sod \<noteq> SODCHAN_OK then Inl SODCHAN_ERR_CRYPTO
      else (case crypto_generichash_init sod 32 of
              None \<Rightarrow> Inl SODCHAN_ERR_CRYPTO
            | Some st \<Rightarrow>
                (case crypto_generichash_update sod st kx_key of
                   None \<Rightarrow> Inl SODCHAN_ERR_CRYPTO
                 | Some st \<Rightarrow>
                     (case crypto_generichash_update sod st (cstr dom_str) of
                        None \<Rightarrow> Inl SODCHAN_ERR_CRYPTO
                      | Some st \<Rightarrow>
                          (case crypto_generichash_final sod st 32 of
                             None \<Rightarrow> Inl SODCHAN_ERR_CRYPTO
                           | Some key \<Rightarrow> Inr key)))))"

section \<open>The seed blob is a codec\<close>

lemma length_seed_magic [simp]: "length SODCHAN_SEED_MAGIC = 5"
  by (simp add: SODCHAN_SEED_MAGIC_def)

lemma take_5_nth: "5 \<le> length xs \<Longrightarrow> take 5 xs = [xs ! 0, xs ! 1, xs ! 2, xs ! 3, xs ! 4]"
  by (rule nth_equalityI) (auto simp: less_Suc_eq numeral_eq_Suc)

lemma seed_decode_Inr:
  "sodchan_seed_decode (Some b) = Inr s \<longleftrightarrow>
     length s = 32 \<and> b = SODCHAN_SEED_MAGIC @ s"
proof
  assume dec: "sodchan_seed_decode (Some b) = Inr s"
  then have len: "length b = 37" and s: "s = take 32 (drop 5 b)"
    and magic: "b ! 0 = SODCHAN_SEED_MAGIC ! 0" "b ! 1 = SODCHAN_SEED_MAGIC ! 1"
      "b ! 2 = SODCHAN_SEED_MAGIC ! 2" "b ! 3 = SODCHAN_SEED_MAGIC ! 3"
      "b ! 4 = SODCHAN_SEED_MAGIC ! 4"
    by (auto simp: sodchan_seed_decode_def SODCHAN_SEED_BLOB_LEN_def split: if_splits)
  then have "take 5 b = take 5 SODCHAN_SEED_MAGIC"
    by (simp only: take_5_nth length_seed_magic)
  then have "b = SODCHAN_SEED_MAGIC @ drop 5 b"
    by (metis append_take_drop_id length_seed_magic order_refl take_all)
  with len s show "length s = 32 \<and> b = SODCHAN_SEED_MAGIC @ s" by simp
next
  assume "length s = 32 \<and> b = SODCHAN_SEED_MAGIC @ s"
  then show "sodchan_seed_decode (Some b) = Inr s"
    by (simp add: sodchan_seed_decode_def SODCHAN_SEED_BLOB_LEN_def nth_append)
qed

definition seed_enc :: "bytes \<Rightarrow> bytes" where
  "seed_enc s = encoded (sodchan_seed_encode (Some s))"

interpretation seed_codec: codec
  seed_enc "\<lambda>b. sodchan_seed_decode (Some b)" "\<lambda>s. length s = 32"
  by unfold_locales (auto simp: seed_decode_Inr seed_enc_def sodchan_seed_encode_def)

section \<open>Properties\<close>

text \<open>
  C34. Seed blobs: exactly the 37-byte blobs that start with the magic decode,
  to the seed that was encoded; a bare 32-byte seed is rejected; and the
  key pair made from a blob is the one made from its seed.
\<close>

theorem seed_blob_roundtrip:
  "(sodchan_seed_decode (Some b) = Inr s \<longleftrightarrow>
      length s = 32 \<and> sodchan_seed_encode (Some s) = Inr b)
   \<and> (length b = 32 \<longrightarrow> sodchan_keygen_from_seed_blob sod (Some b) = Inl SODCHAN_ERR_PARAM)
   \<and> (length s = 32 \<longrightarrow> sodchan_seed_encode (Some s) = Inr b \<longrightarrow>
        sodchan_keygen_from_seed_blob sod (Some b) = sodchan_keygen_from_seed sod (Some s))"
proof (intro conjI impI)
  have dec: "sodchan_seed_decode (Some b) = Inr s \<longleftrightarrow> length s = 32 \<and> seed_enc s = b"
    by (rule seed_codec.dec_iff)
  also have "\<dots> \<longleftrightarrow> length s = 32 \<and> sodchan_seed_encode (Some s) = Inr b"
    by (auto simp: seed_enc_def sodchan_seed_encode_def)
  finally show *: "sodchan_seed_decode (Some b) = Inr s \<longleftrightarrow>
      length s = 32 \<and> sodchan_seed_encode (Some s) = Inr b" .
  show "sodchan_keygen_from_seed_blob sod (Some b) = Inl SODCHAN_ERR_PARAM" if "length b = 32"
    using that
    by (simp add: sodchan_keygen_from_seed_blob_def sodchan_seed_decode_def SODCHAN_SEED_BLOB_LEN_def)
  show "sodchan_keygen_from_seed_blob sod (Some b) = sodchan_keygen_from_seed sod (Some s)"
    if "length s = 32" and "sodchan_seed_encode (Some s) = Inr b"
    using * that by (simp add: sodchan_keygen_from_seed_blob_def)
qed

theorem seed_blob_roundtrip_witness:
  "sodchan_keygen_from_seed_blob sample_sodium (Some (SODCHAN_SEED_MAGIC @ replicate 32 9))
     = sodchan_keygen_from_seed sample_sodium (Some (replicate 32 9))
   \<and> sodchan_keygen_from_seed_blob sample_sodium (Some (replicate 32 9)) = Inl SODCHAN_ERR_PARAM"
  using seed_blob_roundtrip [of "SODCHAN_SEED_MAGIC @ replicate 32 9" "replicate 32 9" sample_sodium]
    seed_blob_roundtrip [of "replicate 32 9" "replicate 32 9" sample_sodium]
  by (simp add: sodchan_seed_encode_def)

end
