(* ===== verification/Context.thy ===== *)
theory Context
  imports Crypto
begin

text \<open>
  The context of \<^verbatim>\<open>src/sodchan_internal.h\<close> (\<^verbatim>\<open>struct sodchan_ctx\<close>), the public
  configuration and events of \<^verbatim>\<open>include/sodchan.h\<close>.

  Representation. A buffer with a fill length (\<^verbatim>\<open>in_buf/in_len\<close>,
  \<^verbatim>\<open>out_buf/out_len\<close>) is the list of its first \<^verbatim>\<open>len\<close> bytes; the bytes behind are
  never read. \<^verbatim>\<open>have_\<close> flags and truth values are \<open>bool\<close>. \<open>ctx_draws\<close> is not a C
  field: it counts the draws of randomness, so that a draw is a function of its
  number.
\<close>

section \<open>Bounds\<close>

definition SODCHAN_MAX_CHANNELS :: nat where "SODCHAN_MAX_CHANNELS = 16"
definition SODCHAN_DATA_MAX :: nat where "SODCHAN_DATA_MAX = 65536"
definition SODCHAN_ERROR_MAX :: nat where "SODCHAN_ERROR_MAX = 256"
definition SODCHAN_FP_SHA256_MAX :: nat where "SODCHAN_FP_SHA256_MAX = 96"
definition SODCHAN_OUT_BUF_SIZE :: nat where "SODCHAN_OUT_BUF_SIZE = 131072"
definition SODCHAN_IN_BUF_SIZE :: nat where "SODCHAN_IN_BUF_SIZE = 131072"
definition SODCHAN_CFG_STORE_SIZE :: nat where "SODCHAN_CFG_STORE_SIZE = 2048"
definition SODCHAN_DEFAULT_EVENT_QUEUE :: nat where "SODCHAN_DEFAULT_EVENT_QUEUE = 16"
definition SODCHAN_DEFAULT_MAX_RECORD :: nat where "SODCHAN_DEFAULT_MAX_RECORD = 262144"
definition SODCHAN_DEFAULT_MAX_CHANNEL :: nat where "SODCHAN_DEFAULT_MAX_CHANNEL = 262144"
definition SODCHAN_DEFAULT_INIT_WINDOW :: u32 where "SODCHAN_DEFAULT_INIT_WINDOW = 262144"
definition SODCHAN_DEFAULT_MAX_PACKET :: u32 where "SODCHAN_DEFAULT_MAX_PACKET = 65536"

section \<open>Data\<close>

datatype sodchan_role = ROLE_SERVER | ROLE_CLIENT

datatype sodchan_state =
    STATE_IDLE | STATE_HELLO | STATE_SS_HEADER | STATE_AUTH
  | STATE_READY | STATE_DRAINING | STATE_CLOSED | STATE_ERROR

datatype sodchan_hs = HS_START | HS_WAIT_PEER_HELLO | HS_WAIT_PEER_SS | HS_DONE

datatype sodchan_ch_state = CH_UNUSED | CH_OPENING | CH_PENDING | CH_OPEN | CH_CLOSED

text \<open>
  The tagged union \<^verbatim>\<open>sodchan_event_t\<close>: one constructor per event type, with the
  members that the code fills in (the others are zero).
\<close>

datatype sodchan_event =
    EVENT_NONE
  | EVENT_HELLO_RECEIVED bytes
  | EVENT_KX_COMPLETE
  | EVENT_AUTH_DEVICE bytes bytes bytes bytes bool
      \<comment> \<open>peer_id_pk, username, device_id, fingerprint_sha256, sig_ok\<close>
  | EVENT_AUTHENTICATED
  | EVENT_AUTH_FAILED int string
  | EVENT_CHANNEL_OPEN u32 u32 bytes u32 u32
      \<comment> \<open>channel_id, peer_channel_id, name, init_window, max_packet\<close>
  | EVENT_CHANNEL_OPENED u32 u32 bytes u32 u32
  | EVENT_CHANNEL_OPEN_FAIL u32 bytes
  | EVENT_CHANNEL_DATA u32 bytes
  | EVENT_CHANNEL_WINDOW u32 u32 u32
      \<comment> \<open>channel_id, bytes_added, window_avail\<close>
  | EVENT_CHANNEL_EOF u32
  | EVENT_CHANNEL_CLOSE u32
  | EVENT_PING
  | EVENT_DISCONNECTED int bytes
  | EVENT_ERROR int string

record sodchan_config =
  cfg_event_queue_size :: nat
  cfg_max_record_size :: nat
  cfg_max_channel_data :: nat
  cfg_max_channels :: nat
  cfg_initial_window :: u32
  cfg_max_packet :: u32
  cfg_client_id_pk :: span
  cfg_client_id_sk :: span
  cfg_server_id_pk :: span
  cfg_server_id_sk :: span
  cfg_accept_any_server_pk :: bool
  cfg_allowed_channels :: span
  cfg_client_username :: span
  cfg_client_device_id :: span
  cfg_max_auth_attempts_reserved :: int
  cfg_lab_mode :: bool

record sodchan_channel =
  ch_state :: sodchan_ch_state
  ch_local_id :: u32
  ch_peer_id :: u32
  ch_have_peer_id :: bool
  ch_name :: bytes
  ch_send_window :: u32
  ch_recv_window :: u32
  ch_max_packet :: u32
  ch_local_eof :: bool
  ch_remote_eof :: bool

record 'ss sodchan_ctx =
  ctx_role :: sodchan_role
  ctx_state :: sodchan_state
  ctx_hs :: sodchan_hs
  ctx_error :: int
  ctx_error_msg :: string
  ctx_event_queue_size :: nat
  ctx_max_record_size :: nat
  ctx_max_channel_data :: nat
  ctx_max_channels :: nat
  ctx_initial_window :: u32
  ctx_max_packet :: u32
  ctx_accept_any_server_pk :: bool
  ctx_lab_mode :: bool
  ctx_client_id_pk :: bytes
  ctx_client_id_sk :: bytes
  ctx_server_id_pk :: bytes
  ctx_server_id_sk :: bytes
  ctx_have_client_id_pk :: bool
  ctx_have_client_id_sk :: bool
  ctx_have_server_id_pk :: bool
  ctx_have_server_id_sk :: bool
  ctx_eph_pk :: bytes
  ctx_eph_sk :: bytes
  ctx_peer_eph_pk :: bytes
  ctx_peer_id_pk :: bytes
  ctx_have_peer_eph :: bool
  ctx_have_peer_id :: bool
  ctx_ss_key_c2s :: bytes
  ctx_ss_key_s2c :: bytes
  ctx_ss_push :: 'ss
  ctx_ss_pull :: 'ss
  ctx_ss_push_ready :: bool
  ctx_ss_pull_ready :: bool
  ctx_t_hello :: bytes
  ctx_have_t_hello :: bool
  ctx_auth_sent :: bool
  ctx_auth_awaiting_decide :: bool
  ctx_auth_decided :: bool
  ctx_auth_complete :: bool
  ctx_channels :: "sodchan_channel list"
  ctx_next_local_channel_id :: u32
  ctx_active_channels :: u32
  ctx_cfg_store_used :: nat
  ctx_allowed_channels :: span
  ctx_client_username :: span
  ctx_client_device_id :: span
  ctx_out_buf :: bytes
  ctx_out_off :: nat
  ctx_in_buf :: bytes
  ctx_events :: "sodchan_event list"
  ctx_event_cap :: nat
  ctx_event_head :: nat
  ctx_event_count :: nat
  ctx_draws :: nat

text \<open>\<^verbatim>\<open>memset(ch, 0, sizeof *ch)\<close>\<close>

definition zero_channel :: sodchan_channel where
  "zero_channel = \<lparr> ch_state = CH_UNUSED, ch_local_id = 0, ch_peer_id = 0,
     ch_have_peer_id = False, ch_name = [], ch_send_window = 0, ch_recv_window = 0,
     ch_max_packet = 0, ch_local_eof = False, ch_remote_eof = False \<rparr>"

text \<open>
  The context as \<^verbatim>\<open>calloc\<close> returns it. \<open>z\<close> stands for an all-zero secretstream
  state; no operation reads it before \<^verbatim>\<open>init_push\<close> or \<^verbatim>\<open>init_pull\<close> replaced it.
\<close>

definition zero_ctx :: "'ss \<Rightarrow> sodchan_role \<Rightarrow> 'ss sodchan_ctx" where
  "zero_ctx z role = \<lparr> ctx_role = role, ctx_state = STATE_IDLE, ctx_hs = HS_START,
     ctx_error = 0, ctx_error_msg = [],
     ctx_event_queue_size = 0, ctx_max_record_size = 0, ctx_max_channel_data = 0,
     ctx_max_channels = 0, ctx_initial_window = 0, ctx_max_packet = 0,
     ctx_accept_any_server_pk = False, ctx_lab_mode = False,
     ctx_client_id_pk = replicate 32 0, ctx_client_id_sk = replicate 64 0,
     ctx_server_id_pk = replicate 32 0, ctx_server_id_sk = replicate 64 0,
     ctx_have_client_id_pk = False, ctx_have_client_id_sk = False,
     ctx_have_server_id_pk = False, ctx_have_server_id_sk = False,
     ctx_eph_pk = replicate 32 0, ctx_eph_sk = replicate 32 0,
     ctx_peer_eph_pk = replicate 32 0, ctx_peer_id_pk = replicate 32 0,
     ctx_have_peer_eph = False, ctx_have_peer_id = False,
     ctx_ss_key_c2s = replicate 32 0, ctx_ss_key_s2c = replicate 32 0,
     ctx_ss_push = z, ctx_ss_pull = z, ctx_ss_push_ready = False, ctx_ss_pull_ready = False,
     ctx_t_hello = replicate 123 0, ctx_have_t_hello = False,
     ctx_auth_sent = False, ctx_auth_awaiting_decide = False,
     ctx_auth_decided = False, ctx_auth_complete = False,
     ctx_channels = replicate SODCHAN_MAX_CHANNELS zero_channel,
     ctx_next_local_channel_id = 0, ctx_active_channels = 0,
     ctx_cfg_store_used = 0, ctx_allowed_channels = None,
     ctx_client_username = None, ctx_client_device_id = None,
     ctx_out_buf = [], ctx_out_off = 0, ctx_in_buf = [],
     ctx_events = [], ctx_event_cap = 0, ctx_event_head = 0, ctx_event_count = 0,
     ctx_draws = 0 \<rparr>"

lemma zero_ctx_fields [simp]:
  "ctx_role (zero_ctx z role) = role" "ctx_state (zero_ctx z role) = STATE_IDLE"
  "ctx_hs (zero_ctx z role) = HS_START" "ctx_error (zero_ctx z role) = 0"
  "ctx_error_msg (zero_ctx z role) = []" "ctx_event_queue_size (zero_ctx z role) = 0"
  "ctx_max_record_size (zero_ctx z role) = 0" "ctx_max_channel_data (zero_ctx z role) = 0"
  "ctx_max_channels (zero_ctx z role) = 0" "ctx_initial_window (zero_ctx z role) = 0"
  "ctx_max_packet (zero_ctx z role) = 0" "ctx_accept_any_server_pk (zero_ctx z role) = False"
  "ctx_lab_mode (zero_ctx z role) = False" "ctx_client_id_pk (zero_ctx z role) = replicate 32 0"
  "ctx_client_id_sk (zero_ctx z role) = replicate 64 0"
  "ctx_server_id_pk (zero_ctx z role) = replicate 32 0"
  "ctx_server_id_sk (zero_ctx z role) = replicate 64 0"
  "ctx_have_client_id_pk (zero_ctx z role) = False"
  "ctx_have_client_id_sk (zero_ctx z role) = False"
  "ctx_have_server_id_pk (zero_ctx z role) = False"
  "ctx_have_server_id_sk (zero_ctx z role) = False" "ctx_eph_pk (zero_ctx z role) = replicate 32 0"
  "ctx_eph_sk (zero_ctx z role) = replicate 32 0"
  "ctx_peer_eph_pk (zero_ctx z role) = replicate 32 0"
  "ctx_peer_id_pk (zero_ctx z role) = replicate 32 0" "ctx_have_peer_eph (zero_ctx z role) = False"
  "ctx_have_peer_id (zero_ctx z role) = False" "ctx_ss_key_c2s (zero_ctx z role) = replicate 32 0"
  "ctx_ss_key_s2c (zero_ctx z role) = replicate 32 0" "ctx_ss_push (zero_ctx z role) = z"
  "ctx_ss_pull (zero_ctx z role) = z" "ctx_ss_push_ready (zero_ctx z role) = False"
  "ctx_ss_pull_ready (zero_ctx z role) = False" "ctx_t_hello (zero_ctx z role) = replicate 123 0"
  "ctx_have_t_hello (zero_ctx z role) = False" "ctx_auth_sent (zero_ctx z role) = False"
  "ctx_auth_awaiting_decide (zero_ctx z role) = False" "ctx_auth_decided (zero_ctx z role) = False"
  "ctx_auth_complete (zero_ctx z role) = False"
  "ctx_channels (zero_ctx z role) = replicate SODCHAN_MAX_CHANNELS zero_channel"
  "ctx_next_local_channel_id (zero_ctx z role) = 0" "ctx_active_channels (zero_ctx z role) = 0"
  "ctx_cfg_store_used (zero_ctx z role) = 0" "ctx_allowed_channels (zero_ctx z role) = None"
  "ctx_client_username (zero_ctx z role) = None" "ctx_client_device_id (zero_ctx z role) = None"
  "ctx_out_buf (zero_ctx z role) = []" "ctx_out_off (zero_ctx z role) = 0"
  "ctx_in_buf (zero_ctx z role) = []" "ctx_events (zero_ctx z role) = []"
  "ctx_event_cap (zero_ctx z role) = 0" "ctx_event_head (zero_ctx z role) = 0"
  "ctx_event_count (zero_ctx z role) = 0" "ctx_draws (zero_ctx z role) = 0"
  by (simp_all add: zero_ctx_def)

end
