(* ===== verification/Buffers.thy ===== *)
theory Buffers
  imports Context
begin

text \<open>
  The two containers of \<^verbatim>\<open>src/sodchan.c\<close> that every component writes to: the
  event ring (\<^verbatim>\<open>sodchan_i_queue_event\<close>, \<^verbatim>\<open>sodchan_next_event\<close>) and the output
  buffer (\<^verbatim>\<open>out_append\<close>, \<^verbatim>\<open>sodchan_get_output\<close>), with the error entry
  \<^verbatim>\<open>sodchan_i_set_error\<close> that writes to the ring. The ring implements a bounded
  queue (locale \<open>bounded_queue\<close>), the buffer a bounded byte stream (locale
  \<open>byte_pipe\<close>); the rest of the development uses only these two contracts.
\<close>

section \<open>The event ring\<close>

text \<open>
  \<^verbatim>\<open>ctx\<close>, \<^verbatim>\<open>ev\<close> and \<^verbatim>\<open>ctx->events\<close> are non-NULL wherever the library calls
  \<^verbatim>\<open>sodchan_i_queue_event\<close> (\<^verbatim>\<open>sodchan_create\<close> fails when the ring cannot be
  allocated); an empty list of slots is the NULL pointer.
\<close>

definition sodchan_i_queue_event ::
    "sodchan_event \<Rightarrow> 'ss sodchan_ctx \<Rightarrow> rc \<times> 'ss sodchan_ctx" where
  "sodchan_i_queue_event ev ctx =
     (if ctx_events ctx = [] then (SODCHAN_ERR_PARAM, ctx)
      else if ctx_event_count ctx \<ge> ctx_event_cap ctx then (SODCHAN_ERR_FULL, ctx)
      else let idx = (ctx_event_head ctx + ctx_event_count ctx) mod ctx_event_cap ctx in
        (SODCHAN_OK, ctx\<lparr> ctx_events := (ctx_events ctx)[idx := ev],
                          ctx_event_count := ctx_event_count ctx + 1 \<rparr>))"

text \<open>\<^verbatim>\<open>(void)sodchan_i_queue_event(ctx, &ev)\<close>: the return code is ignored.\<close>

definition emit :: "sodchan_event \<Rightarrow> 'ss sodchan_ctx \<Rightarrow> 'ss sodchan_ctx" where
  "emit ev ctx = snd (sodchan_i_queue_event ev ctx)"

definition sodchan_i_set_error ::
    "rc \<Rightarrow> string \<Rightarrow> 'ss sodchan_ctx \<Rightarrow> 'ss sodchan_ctx" where
  "sodchan_i_set_error code msg ctx =
     (let err = (if rc_code code \<noteq> 0 then rc_code code else rc_code SODCHAN_ERR_PROTOCOL);
          text = take (SODCHAN_ERROR_MAX - 1) msg in
      emit (EVENT_ERROR err text)
        (ctx\<lparr> ctx_error := err, ctx_state := STATE_ERROR, ctx_error_msg := text \<rparr>))"

text \<open>\<^verbatim>\<open>sodchan_i_set_error(...); return -1;\<close>\<close>

abbreviation err_ret :: "rc \<Rightarrow> string \<Rightarrow> 'ss sodchan_ctx \<Rightarrow> int \<times> 'ss sodchan_ctx" where
  "err_ret code msg ctx \<equiv> (-1, sodchan_i_set_error code msg ctx)"

text \<open>\<open>None\<close> is the return value 0, \<open>Some ev\<close> the return value 1 with the event.\<close>

definition sodchan_next_event ::
    "'ss sodchan_ctx \<Rightarrow> sodchan_event option \<times> 'ss sodchan_ctx" where
  "sodchan_next_event ctx =
     (if ctx_event_count ctx = 0 then (None, ctx)
      else (Some (ctx_events ctx ! ctx_event_head ctx),
            ctx\<lparr> ctx_event_head := (ctx_event_head ctx + 1) mod ctx_event_cap ctx,
                 ctx_event_count := ctx_event_count ctx - 1 \<rparr>))"

section \<open>The output buffer\<close>

definition out_compact :: "'ss sodchan_ctx \<Rightarrow> 'ss sodchan_ctx" where
  "out_compact ctx =
     (if ctx_out_off ctx = 0 then ctx
      else if ctx_out_off ctx \<ge> length (ctx_out_buf ctx)
      then ctx\<lparr> ctx_out_off := 0, ctx_out_buf := [] \<rparr>
      else ctx\<lparr> ctx_out_buf := drop (ctx_out_off ctx) (ctx_out_buf ctx), ctx_out_off := 0 \<rparr>)"

definition out_append :: "bytes \<Rightarrow> 'ss sodchan_ctx \<Rightarrow> rc \<times> 'ss sodchan_ctx" where
  "out_append p ctx =
     (let ctx = out_compact ctx in
      if length p > SODCHAN_OUT_BUF_SIZE - length (ctx_out_buf ctx) then (SODCHAN_ERR_FULL, ctx)
      else (SODCHAN_OK, ctx\<lparr> ctx_out_buf := ctx_out_buf ctx @ p \<rparr>))"

definition out_append_frame :: "bytes \<Rightarrow> 'ss sodchan_ctx \<Rightarrow> rc \<times> 'ss sodchan_ctx" where
  "out_append_frame body ctx =
     (case sodchan_wire_frame_encode (Some body) (Some (4 + unat SODCHAN_MAX_CLEAR_FRAME)) of
        Inl e \<Rightarrow> (e, ctx)
      | Inr frame \<Rightarrow> out_append frame ctx)"

text \<open>\<open>None\<close> as the buffer: \<^verbatim>\<open>buf\<close> is NULL. The result is the bytes written to it.\<close>

definition sodchan_get_output :: "dest \<Rightarrow> 'ss sodchan_ctx \<Rightarrow> bytes \<times> 'ss sodchan_ctx" where
  "sodchan_get_output buf ctx =
     (case buf of
        None \<Rightarrow> ([], ctx)
      | Some max_len \<Rightarrow>
          if max_len = 0 then ([], ctx)
          else if ctx_out_off ctx \<ge> length (ctx_out_buf ctx) then ([], ctx)
          else let n0 = length (ctx_out_buf ctx) - ctx_out_off ctx;
                   n = (if n0 > max_len then max_len else n0);
                   out = take n (drop (ctx_out_off ctx) (ctx_out_buf ctx));
                   ctx' = ctx\<lparr> ctx_out_off := ctx_out_off ctx + n \<rparr> in
            if ctx_out_off ctx' \<ge> length (ctx_out_buf ctx')
            then (out, ctx'\<lparr> ctx_out_off := 0, ctx_out_buf := [] \<rparr>)
            else (out, ctx'))"

section \<open>What these operations leave alone\<close>

lemma emit_frame [simp]:
  "ctx_role (emit ev ctx) = ctx_role ctx" "ctx_state (emit ev ctx) = ctx_state ctx"
  "ctx_hs (emit ev ctx) = ctx_hs ctx" "ctx_error (emit ev ctx) = ctx_error ctx"
  "ctx_error_msg (emit ev ctx) = ctx_error_msg ctx"
  "ctx_event_queue_size (emit ev ctx) = ctx_event_queue_size ctx"
  "ctx_max_record_size (emit ev ctx) = ctx_max_record_size ctx"
  "ctx_max_channel_data (emit ev ctx) = ctx_max_channel_data ctx"
  "ctx_max_channels (emit ev ctx) = ctx_max_channels ctx"
  "ctx_initial_window (emit ev ctx) = ctx_initial_window ctx"
  "ctx_max_packet (emit ev ctx) = ctx_max_packet ctx"
  "ctx_accept_any_server_pk (emit ev ctx) = ctx_accept_any_server_pk ctx"
  "ctx_lab_mode (emit ev ctx) = ctx_lab_mode ctx"
  "ctx_client_id_pk (emit ev ctx) = ctx_client_id_pk ctx"
  "ctx_client_id_sk (emit ev ctx) = ctx_client_id_sk ctx"
  "ctx_server_id_pk (emit ev ctx) = ctx_server_id_pk ctx"
  "ctx_server_id_sk (emit ev ctx) = ctx_server_id_sk ctx"
  "ctx_have_client_id_pk (emit ev ctx) = ctx_have_client_id_pk ctx"
  "ctx_have_client_id_sk (emit ev ctx) = ctx_have_client_id_sk ctx"
  "ctx_have_server_id_pk (emit ev ctx) = ctx_have_server_id_pk ctx"
  "ctx_have_server_id_sk (emit ev ctx) = ctx_have_server_id_sk ctx"
  "ctx_eph_pk (emit ev ctx) = ctx_eph_pk ctx" "ctx_eph_sk (emit ev ctx) = ctx_eph_sk ctx"
  "ctx_peer_eph_pk (emit ev ctx) = ctx_peer_eph_pk ctx"
  "ctx_peer_id_pk (emit ev ctx) = ctx_peer_id_pk ctx"
  "ctx_have_peer_eph (emit ev ctx) = ctx_have_peer_eph ctx"
  "ctx_have_peer_id (emit ev ctx) = ctx_have_peer_id ctx"
  "ctx_ss_key_c2s (emit ev ctx) = ctx_ss_key_c2s ctx"
  "ctx_ss_key_s2c (emit ev ctx) = ctx_ss_key_s2c ctx" "ctx_ss_push (emit ev ctx) = ctx_ss_push ctx"
  "ctx_ss_pull (emit ev ctx) = ctx_ss_pull ctx"
  "ctx_ss_push_ready (emit ev ctx) = ctx_ss_push_ready ctx"
  "ctx_ss_pull_ready (emit ev ctx) = ctx_ss_pull_ready ctx"
  "ctx_t_hello (emit ev ctx) = ctx_t_hello ctx"
  "ctx_have_t_hello (emit ev ctx) = ctx_have_t_hello ctx"
  "ctx_auth_sent (emit ev ctx) = ctx_auth_sent ctx"
  "ctx_auth_awaiting_decide (emit ev ctx) = ctx_auth_awaiting_decide ctx"
  "ctx_auth_decided (emit ev ctx) = ctx_auth_decided ctx"
  "ctx_auth_complete (emit ev ctx) = ctx_auth_complete ctx"
  "ctx_channels (emit ev ctx) = ctx_channels ctx"
  "ctx_next_local_channel_id (emit ev ctx) = ctx_next_local_channel_id ctx"
  "ctx_active_channels (emit ev ctx) = ctx_active_channels ctx"
  "ctx_cfg_store_used (emit ev ctx) = ctx_cfg_store_used ctx"
  "ctx_allowed_channels (emit ev ctx) = ctx_allowed_channels ctx"
  "ctx_client_username (emit ev ctx) = ctx_client_username ctx"
  "ctx_client_device_id (emit ev ctx) = ctx_client_device_id ctx"
  "ctx_out_buf (emit ev ctx) = ctx_out_buf ctx" "ctx_out_off (emit ev ctx) = ctx_out_off ctx"
  "ctx_in_buf (emit ev ctx) = ctx_in_buf ctx" "ctx_event_cap (emit ev ctx) = ctx_event_cap ctx"
  "ctx_event_head (emit ev ctx) = ctx_event_head ctx" "ctx_draws (emit ev ctx) = ctx_draws ctx"
  by (simp_all add: emit_def sodchan_i_queue_event_def Let_def)

lemma set_error_frame [simp]:
  "ctx_role (sodchan_i_set_error code msg ctx) = ctx_role ctx"
  "ctx_hs (sodchan_i_set_error code msg ctx) = ctx_hs ctx"
  "ctx_event_queue_size (sodchan_i_set_error code msg ctx) = ctx_event_queue_size ctx"
  "ctx_max_record_size (sodchan_i_set_error code msg ctx) = ctx_max_record_size ctx"
  "ctx_max_channel_data (sodchan_i_set_error code msg ctx) = ctx_max_channel_data ctx"
  "ctx_max_channels (sodchan_i_set_error code msg ctx) = ctx_max_channels ctx"
  "ctx_initial_window (sodchan_i_set_error code msg ctx) = ctx_initial_window ctx"
  "ctx_max_packet (sodchan_i_set_error code msg ctx) = ctx_max_packet ctx"
  "ctx_accept_any_server_pk (sodchan_i_set_error code msg ctx) = ctx_accept_any_server_pk ctx"
  "ctx_lab_mode (sodchan_i_set_error code msg ctx) = ctx_lab_mode ctx"
  "ctx_client_id_pk (sodchan_i_set_error code msg ctx) = ctx_client_id_pk ctx"
  "ctx_client_id_sk (sodchan_i_set_error code msg ctx) = ctx_client_id_sk ctx"
  "ctx_server_id_pk (sodchan_i_set_error code msg ctx) = ctx_server_id_pk ctx"
  "ctx_server_id_sk (sodchan_i_set_error code msg ctx) = ctx_server_id_sk ctx"
  "ctx_have_client_id_pk (sodchan_i_set_error code msg ctx) = ctx_have_client_id_pk ctx"
  "ctx_have_client_id_sk (sodchan_i_set_error code msg ctx) = ctx_have_client_id_sk ctx"
  "ctx_have_server_id_pk (sodchan_i_set_error code msg ctx) = ctx_have_server_id_pk ctx"
  "ctx_have_server_id_sk (sodchan_i_set_error code msg ctx) = ctx_have_server_id_sk ctx"
  "ctx_eph_pk (sodchan_i_set_error code msg ctx) = ctx_eph_pk ctx"
  "ctx_eph_sk (sodchan_i_set_error code msg ctx) = ctx_eph_sk ctx"
  "ctx_peer_eph_pk (sodchan_i_set_error code msg ctx) = ctx_peer_eph_pk ctx"
  "ctx_peer_id_pk (sodchan_i_set_error code msg ctx) = ctx_peer_id_pk ctx"
  "ctx_have_peer_eph (sodchan_i_set_error code msg ctx) = ctx_have_peer_eph ctx"
  "ctx_have_peer_id (sodchan_i_set_error code msg ctx) = ctx_have_peer_id ctx"
  "ctx_ss_key_c2s (sodchan_i_set_error code msg ctx) = ctx_ss_key_c2s ctx"
  "ctx_ss_key_s2c (sodchan_i_set_error code msg ctx) = ctx_ss_key_s2c ctx"
  "ctx_ss_push (sodchan_i_set_error code msg ctx) = ctx_ss_push ctx"
  "ctx_ss_pull (sodchan_i_set_error code msg ctx) = ctx_ss_pull ctx"
  "ctx_ss_push_ready (sodchan_i_set_error code msg ctx) = ctx_ss_push_ready ctx"
  "ctx_ss_pull_ready (sodchan_i_set_error code msg ctx) = ctx_ss_pull_ready ctx"
  "ctx_t_hello (sodchan_i_set_error code msg ctx) = ctx_t_hello ctx"
  "ctx_have_t_hello (sodchan_i_set_error code msg ctx) = ctx_have_t_hello ctx"
  "ctx_auth_sent (sodchan_i_set_error code msg ctx) = ctx_auth_sent ctx"
  "ctx_auth_awaiting_decide (sodchan_i_set_error code msg ctx) = ctx_auth_awaiting_decide ctx"
  "ctx_auth_decided (sodchan_i_set_error code msg ctx) = ctx_auth_decided ctx"
  "ctx_auth_complete (sodchan_i_set_error code msg ctx) = ctx_auth_complete ctx"
  "ctx_channels (sodchan_i_set_error code msg ctx) = ctx_channels ctx"
  "ctx_next_local_channel_id (sodchan_i_set_error code msg ctx) = ctx_next_local_channel_id ctx"
  "ctx_active_channels (sodchan_i_set_error code msg ctx) = ctx_active_channels ctx"
  "ctx_cfg_store_used (sodchan_i_set_error code msg ctx) = ctx_cfg_store_used ctx"
  "ctx_allowed_channels (sodchan_i_set_error code msg ctx) = ctx_allowed_channels ctx"
  "ctx_client_username (sodchan_i_set_error code msg ctx) = ctx_client_username ctx"
  "ctx_client_device_id (sodchan_i_set_error code msg ctx) = ctx_client_device_id ctx"
  "ctx_out_buf (sodchan_i_set_error code msg ctx) = ctx_out_buf ctx"
  "ctx_out_off (sodchan_i_set_error code msg ctx) = ctx_out_off ctx"
  "ctx_in_buf (sodchan_i_set_error code msg ctx) = ctx_in_buf ctx"
  "ctx_event_cap (sodchan_i_set_error code msg ctx) = ctx_event_cap ctx"
  "ctx_event_head (sodchan_i_set_error code msg ctx) = ctx_event_head ctx"
  "ctx_draws (sodchan_i_set_error code msg ctx) = ctx_draws ctx"
  by (simp_all add: sodchan_i_set_error_def Let_def)

lemma set_error_state [simp]: "ctx_state (sodchan_i_set_error code msg ctx) = STATE_ERROR"
  by (simp add: sodchan_i_set_error_def Let_def)

lemma set_error_code:
  "code \<noteq> SODCHAN_OK \<Longrightarrow> ctx_error (sodchan_i_set_error code msg ctx) = rc_code code"
  by (simp add: sodchan_i_set_error_def Let_def)

lemma out_compact_frame [simp]:
  "ctx_role (out_compact ctx) = ctx_role ctx" "ctx_state (out_compact ctx) = ctx_state ctx"
  "ctx_hs (out_compact ctx) = ctx_hs ctx" "ctx_error (out_compact ctx) = ctx_error ctx"
  "ctx_error_msg (out_compact ctx) = ctx_error_msg ctx"
  "ctx_event_queue_size (out_compact ctx) = ctx_event_queue_size ctx"
  "ctx_max_record_size (out_compact ctx) = ctx_max_record_size ctx"
  "ctx_max_channel_data (out_compact ctx) = ctx_max_channel_data ctx"
  "ctx_max_channels (out_compact ctx) = ctx_max_channels ctx"
  "ctx_initial_window (out_compact ctx) = ctx_initial_window ctx"
  "ctx_max_packet (out_compact ctx) = ctx_max_packet ctx"
  "ctx_accept_any_server_pk (out_compact ctx) = ctx_accept_any_server_pk ctx"
  "ctx_lab_mode (out_compact ctx) = ctx_lab_mode ctx"
  "ctx_client_id_pk (out_compact ctx) = ctx_client_id_pk ctx"
  "ctx_client_id_sk (out_compact ctx) = ctx_client_id_sk ctx"
  "ctx_server_id_pk (out_compact ctx) = ctx_server_id_pk ctx"
  "ctx_server_id_sk (out_compact ctx) = ctx_server_id_sk ctx"
  "ctx_have_client_id_pk (out_compact ctx) = ctx_have_client_id_pk ctx"
  "ctx_have_client_id_sk (out_compact ctx) = ctx_have_client_id_sk ctx"
  "ctx_have_server_id_pk (out_compact ctx) = ctx_have_server_id_pk ctx"
  "ctx_have_server_id_sk (out_compact ctx) = ctx_have_server_id_sk ctx"
  "ctx_eph_pk (out_compact ctx) = ctx_eph_pk ctx" "ctx_eph_sk (out_compact ctx) = ctx_eph_sk ctx"
  "ctx_peer_eph_pk (out_compact ctx) = ctx_peer_eph_pk ctx"
  "ctx_peer_id_pk (out_compact ctx) = ctx_peer_id_pk ctx"
  "ctx_have_peer_eph (out_compact ctx) = ctx_have_peer_eph ctx"
  "ctx_have_peer_id (out_compact ctx) = ctx_have_peer_id ctx"
  "ctx_ss_key_c2s (out_compact ctx) = ctx_ss_key_c2s ctx"
  "ctx_ss_key_s2c (out_compact ctx) = ctx_ss_key_s2c ctx"
  "ctx_ss_push (out_compact ctx) = ctx_ss_push ctx"
  "ctx_ss_pull (out_compact ctx) = ctx_ss_pull ctx"
  "ctx_ss_push_ready (out_compact ctx) = ctx_ss_push_ready ctx"
  "ctx_ss_pull_ready (out_compact ctx) = ctx_ss_pull_ready ctx"
  "ctx_t_hello (out_compact ctx) = ctx_t_hello ctx"
  "ctx_have_t_hello (out_compact ctx) = ctx_have_t_hello ctx"
  "ctx_auth_sent (out_compact ctx) = ctx_auth_sent ctx"
  "ctx_auth_awaiting_decide (out_compact ctx) = ctx_auth_awaiting_decide ctx"
  "ctx_auth_decided (out_compact ctx) = ctx_auth_decided ctx"
  "ctx_auth_complete (out_compact ctx) = ctx_auth_complete ctx"
  "ctx_channels (out_compact ctx) = ctx_channels ctx"
  "ctx_next_local_channel_id (out_compact ctx) = ctx_next_local_channel_id ctx"
  "ctx_active_channels (out_compact ctx) = ctx_active_channels ctx"
  "ctx_cfg_store_used (out_compact ctx) = ctx_cfg_store_used ctx"
  "ctx_allowed_channels (out_compact ctx) = ctx_allowed_channels ctx"
  "ctx_client_username (out_compact ctx) = ctx_client_username ctx"
  "ctx_client_device_id (out_compact ctx) = ctx_client_device_id ctx"
  "ctx_in_buf (out_compact ctx) = ctx_in_buf ctx" "ctx_events (out_compact ctx) = ctx_events ctx"
  "ctx_event_cap (out_compact ctx) = ctx_event_cap ctx"
  "ctx_event_head (out_compact ctx) = ctx_event_head ctx"
  "ctx_event_count (out_compact ctx) = ctx_event_count ctx"
  "ctx_draws (out_compact ctx) = ctx_draws ctx"
  by (simp_all add: out_compact_def)

lemma out_append_frame_fields [simp]:
  "ctx_role (snd (out_append p ctx)) = ctx_role ctx"
  "ctx_state (snd (out_append p ctx)) = ctx_state ctx"
  "ctx_hs (snd (out_append p ctx)) = ctx_hs ctx"
  "ctx_error (snd (out_append p ctx)) = ctx_error ctx"
  "ctx_error_msg (snd (out_append p ctx)) = ctx_error_msg ctx"
  "ctx_event_queue_size (snd (out_append p ctx)) = ctx_event_queue_size ctx"
  "ctx_max_record_size (snd (out_append p ctx)) = ctx_max_record_size ctx"
  "ctx_max_channel_data (snd (out_append p ctx)) = ctx_max_channel_data ctx"
  "ctx_max_channels (snd (out_append p ctx)) = ctx_max_channels ctx"
  "ctx_initial_window (snd (out_append p ctx)) = ctx_initial_window ctx"
  "ctx_max_packet (snd (out_append p ctx)) = ctx_max_packet ctx"
  "ctx_accept_any_server_pk (snd (out_append p ctx)) = ctx_accept_any_server_pk ctx"
  "ctx_lab_mode (snd (out_append p ctx)) = ctx_lab_mode ctx"
  "ctx_client_id_pk (snd (out_append p ctx)) = ctx_client_id_pk ctx"
  "ctx_client_id_sk (snd (out_append p ctx)) = ctx_client_id_sk ctx"
  "ctx_server_id_pk (snd (out_append p ctx)) = ctx_server_id_pk ctx"
  "ctx_server_id_sk (snd (out_append p ctx)) = ctx_server_id_sk ctx"
  "ctx_have_client_id_pk (snd (out_append p ctx)) = ctx_have_client_id_pk ctx"
  "ctx_have_client_id_sk (snd (out_append p ctx)) = ctx_have_client_id_sk ctx"
  "ctx_have_server_id_pk (snd (out_append p ctx)) = ctx_have_server_id_pk ctx"
  "ctx_have_server_id_sk (snd (out_append p ctx)) = ctx_have_server_id_sk ctx"
  "ctx_eph_pk (snd (out_append p ctx)) = ctx_eph_pk ctx"
  "ctx_eph_sk (snd (out_append p ctx)) = ctx_eph_sk ctx"
  "ctx_peer_eph_pk (snd (out_append p ctx)) = ctx_peer_eph_pk ctx"
  "ctx_peer_id_pk (snd (out_append p ctx)) = ctx_peer_id_pk ctx"
  "ctx_have_peer_eph (snd (out_append p ctx)) = ctx_have_peer_eph ctx"
  "ctx_have_peer_id (snd (out_append p ctx)) = ctx_have_peer_id ctx"
  "ctx_ss_key_c2s (snd (out_append p ctx)) = ctx_ss_key_c2s ctx"
  "ctx_ss_key_s2c (snd (out_append p ctx)) = ctx_ss_key_s2c ctx"
  "ctx_ss_push (snd (out_append p ctx)) = ctx_ss_push ctx"
  "ctx_ss_pull (snd (out_append p ctx)) = ctx_ss_pull ctx"
  "ctx_ss_push_ready (snd (out_append p ctx)) = ctx_ss_push_ready ctx"
  "ctx_ss_pull_ready (snd (out_append p ctx)) = ctx_ss_pull_ready ctx"
  "ctx_t_hello (snd (out_append p ctx)) = ctx_t_hello ctx"
  "ctx_have_t_hello (snd (out_append p ctx)) = ctx_have_t_hello ctx"
  "ctx_auth_sent (snd (out_append p ctx)) = ctx_auth_sent ctx"
  "ctx_auth_awaiting_decide (snd (out_append p ctx)) = ctx_auth_awaiting_decide ctx"
  "ctx_auth_decided (snd (out_append p ctx)) = ctx_auth_decided ctx"
  "ctx_auth_complete (snd (out_append p ctx)) = ctx_auth_complete ctx"
  "ctx_channels (snd (out_append p ctx)) = ctx_channels ctx"
  "ctx_next_local_channel_id (snd (out_append p ctx)) = ctx_next_local_channel_id ctx"
  "ctx_active_channels (snd (out_append p ctx)) = ctx_active_channels ctx"
  "ctx_cfg_store_used (snd (out_append p ctx)) = ctx_cfg_store_used ctx"
  "ctx_allowed_channels (snd (out_append p ctx)) = ctx_allowed_channels ctx"
  "ctx_client_username (snd (out_append p ctx)) = ctx_client_username ctx"
  "ctx_client_device_id (snd (out_append p ctx)) = ctx_client_device_id ctx"
  "ctx_in_buf (snd (out_append p ctx)) = ctx_in_buf ctx"
  "ctx_events (snd (out_append p ctx)) = ctx_events ctx"
  "ctx_event_cap (snd (out_append p ctx)) = ctx_event_cap ctx"
  "ctx_event_head (snd (out_append p ctx)) = ctx_event_head ctx"
  "ctx_event_count (snd (out_append p ctx)) = ctx_event_count ctx"
  "ctx_draws (snd (out_append p ctx)) = ctx_draws ctx"
  by (simp_all add: out_append_def Let_def)

lemma out_append_frame_frame [simp]:
  "ctx_role (snd (out_append_frame b ctx)) = ctx_role ctx"
  "ctx_state (snd (out_append_frame b ctx)) = ctx_state ctx"
  "ctx_hs (snd (out_append_frame b ctx)) = ctx_hs ctx"
  "ctx_error (snd (out_append_frame b ctx)) = ctx_error ctx"
  "ctx_error_msg (snd (out_append_frame b ctx)) = ctx_error_msg ctx"
  "ctx_event_queue_size (snd (out_append_frame b ctx)) = ctx_event_queue_size ctx"
  "ctx_max_record_size (snd (out_append_frame b ctx)) = ctx_max_record_size ctx"
  "ctx_max_channel_data (snd (out_append_frame b ctx)) = ctx_max_channel_data ctx"
  "ctx_max_channels (snd (out_append_frame b ctx)) = ctx_max_channels ctx"
  "ctx_initial_window (snd (out_append_frame b ctx)) = ctx_initial_window ctx"
  "ctx_max_packet (snd (out_append_frame b ctx)) = ctx_max_packet ctx"
  "ctx_accept_any_server_pk (snd (out_append_frame b ctx)) = ctx_accept_any_server_pk ctx"
  "ctx_lab_mode (snd (out_append_frame b ctx)) = ctx_lab_mode ctx"
  "ctx_client_id_pk (snd (out_append_frame b ctx)) = ctx_client_id_pk ctx"
  "ctx_client_id_sk (snd (out_append_frame b ctx)) = ctx_client_id_sk ctx"
  "ctx_server_id_pk (snd (out_append_frame b ctx)) = ctx_server_id_pk ctx"
  "ctx_server_id_sk (snd (out_append_frame b ctx)) = ctx_server_id_sk ctx"
  "ctx_have_client_id_pk (snd (out_append_frame b ctx)) = ctx_have_client_id_pk ctx"
  "ctx_have_client_id_sk (snd (out_append_frame b ctx)) = ctx_have_client_id_sk ctx"
  "ctx_have_server_id_pk (snd (out_append_frame b ctx)) = ctx_have_server_id_pk ctx"
  "ctx_have_server_id_sk (snd (out_append_frame b ctx)) = ctx_have_server_id_sk ctx"
  "ctx_eph_pk (snd (out_append_frame b ctx)) = ctx_eph_pk ctx"
  "ctx_eph_sk (snd (out_append_frame b ctx)) = ctx_eph_sk ctx"
  "ctx_peer_eph_pk (snd (out_append_frame b ctx)) = ctx_peer_eph_pk ctx"
  "ctx_peer_id_pk (snd (out_append_frame b ctx)) = ctx_peer_id_pk ctx"
  "ctx_have_peer_eph (snd (out_append_frame b ctx)) = ctx_have_peer_eph ctx"
  "ctx_have_peer_id (snd (out_append_frame b ctx)) = ctx_have_peer_id ctx"
  "ctx_ss_key_c2s (snd (out_append_frame b ctx)) = ctx_ss_key_c2s ctx"
  "ctx_ss_key_s2c (snd (out_append_frame b ctx)) = ctx_ss_key_s2c ctx"
  "ctx_ss_push (snd (out_append_frame b ctx)) = ctx_ss_push ctx"
  "ctx_ss_pull (snd (out_append_frame b ctx)) = ctx_ss_pull ctx"
  "ctx_ss_push_ready (snd (out_append_frame b ctx)) = ctx_ss_push_ready ctx"
  "ctx_ss_pull_ready (snd (out_append_frame b ctx)) = ctx_ss_pull_ready ctx"
  "ctx_t_hello (snd (out_append_frame b ctx)) = ctx_t_hello ctx"
  "ctx_have_t_hello (snd (out_append_frame b ctx)) = ctx_have_t_hello ctx"
  "ctx_auth_sent (snd (out_append_frame b ctx)) = ctx_auth_sent ctx"
  "ctx_auth_awaiting_decide (snd (out_append_frame b ctx)) = ctx_auth_awaiting_decide ctx"
  "ctx_auth_decided (snd (out_append_frame b ctx)) = ctx_auth_decided ctx"
  "ctx_auth_complete (snd (out_append_frame b ctx)) = ctx_auth_complete ctx"
  "ctx_channels (snd (out_append_frame b ctx)) = ctx_channels ctx"
  "ctx_next_local_channel_id (snd (out_append_frame b ctx)) = ctx_next_local_channel_id ctx"
  "ctx_active_channels (snd (out_append_frame b ctx)) = ctx_active_channels ctx"
  "ctx_cfg_store_used (snd (out_append_frame b ctx)) = ctx_cfg_store_used ctx"
  "ctx_allowed_channels (snd (out_append_frame b ctx)) = ctx_allowed_channels ctx"
  "ctx_client_username (snd (out_append_frame b ctx)) = ctx_client_username ctx"
  "ctx_client_device_id (snd (out_append_frame b ctx)) = ctx_client_device_id ctx"
  "ctx_in_buf (snd (out_append_frame b ctx)) = ctx_in_buf ctx"
  "ctx_events (snd (out_append_frame b ctx)) = ctx_events ctx"
  "ctx_event_cap (snd (out_append_frame b ctx)) = ctx_event_cap ctx"
  "ctx_event_head (snd (out_append_frame b ctx)) = ctx_event_head ctx"
  "ctx_event_count (snd (out_append_frame b ctx)) = ctx_event_count ctx"
  "ctx_draws (snd (out_append_frame b ctx)) = ctx_draws ctx"
  by (simp_all add: out_append_frame_def split: sum.splits)

lemma get_output_frame [simp]:
  "ctx_role (snd (sodchan_get_output buf ctx)) = ctx_role ctx"
  "ctx_state (snd (sodchan_get_output buf ctx)) = ctx_state ctx"
  "ctx_hs (snd (sodchan_get_output buf ctx)) = ctx_hs ctx"
  "ctx_error (snd (sodchan_get_output buf ctx)) = ctx_error ctx"
  "ctx_error_msg (snd (sodchan_get_output buf ctx)) = ctx_error_msg ctx"
  "ctx_event_queue_size (snd (sodchan_get_output buf ctx)) = ctx_event_queue_size ctx"
  "ctx_max_record_size (snd (sodchan_get_output buf ctx)) = ctx_max_record_size ctx"
  "ctx_max_channel_data (snd (sodchan_get_output buf ctx)) = ctx_max_channel_data ctx"
  "ctx_max_channels (snd (sodchan_get_output buf ctx)) = ctx_max_channels ctx"
  "ctx_initial_window (snd (sodchan_get_output buf ctx)) = ctx_initial_window ctx"
  "ctx_max_packet (snd (sodchan_get_output buf ctx)) = ctx_max_packet ctx"
  "ctx_accept_any_server_pk (snd (sodchan_get_output buf ctx)) = ctx_accept_any_server_pk ctx"
  "ctx_lab_mode (snd (sodchan_get_output buf ctx)) = ctx_lab_mode ctx"
  "ctx_client_id_pk (snd (sodchan_get_output buf ctx)) = ctx_client_id_pk ctx"
  "ctx_client_id_sk (snd (sodchan_get_output buf ctx)) = ctx_client_id_sk ctx"
  "ctx_server_id_pk (snd (sodchan_get_output buf ctx)) = ctx_server_id_pk ctx"
  "ctx_server_id_sk (snd (sodchan_get_output buf ctx)) = ctx_server_id_sk ctx"
  "ctx_have_client_id_pk (snd (sodchan_get_output buf ctx)) = ctx_have_client_id_pk ctx"
  "ctx_have_client_id_sk (snd (sodchan_get_output buf ctx)) = ctx_have_client_id_sk ctx"
  "ctx_have_server_id_pk (snd (sodchan_get_output buf ctx)) = ctx_have_server_id_pk ctx"
  "ctx_have_server_id_sk (snd (sodchan_get_output buf ctx)) = ctx_have_server_id_sk ctx"
  "ctx_eph_pk (snd (sodchan_get_output buf ctx)) = ctx_eph_pk ctx"
  "ctx_eph_sk (snd (sodchan_get_output buf ctx)) = ctx_eph_sk ctx"
  "ctx_peer_eph_pk (snd (sodchan_get_output buf ctx)) = ctx_peer_eph_pk ctx"
  "ctx_peer_id_pk (snd (sodchan_get_output buf ctx)) = ctx_peer_id_pk ctx"
  "ctx_have_peer_eph (snd (sodchan_get_output buf ctx)) = ctx_have_peer_eph ctx"
  "ctx_have_peer_id (snd (sodchan_get_output buf ctx)) = ctx_have_peer_id ctx"
  "ctx_ss_key_c2s (snd (sodchan_get_output buf ctx)) = ctx_ss_key_c2s ctx"
  "ctx_ss_key_s2c (snd (sodchan_get_output buf ctx)) = ctx_ss_key_s2c ctx"
  "ctx_ss_push (snd (sodchan_get_output buf ctx)) = ctx_ss_push ctx"
  "ctx_ss_pull (snd (sodchan_get_output buf ctx)) = ctx_ss_pull ctx"
  "ctx_ss_push_ready (snd (sodchan_get_output buf ctx)) = ctx_ss_push_ready ctx"
  "ctx_ss_pull_ready (snd (sodchan_get_output buf ctx)) = ctx_ss_pull_ready ctx"
  "ctx_t_hello (snd (sodchan_get_output buf ctx)) = ctx_t_hello ctx"
  "ctx_have_t_hello (snd (sodchan_get_output buf ctx)) = ctx_have_t_hello ctx"
  "ctx_auth_sent (snd (sodchan_get_output buf ctx)) = ctx_auth_sent ctx"
  "ctx_auth_awaiting_decide (snd (sodchan_get_output buf ctx)) = ctx_auth_awaiting_decide ctx"
  "ctx_auth_decided (snd (sodchan_get_output buf ctx)) = ctx_auth_decided ctx"
  "ctx_auth_complete (snd (sodchan_get_output buf ctx)) = ctx_auth_complete ctx"
  "ctx_channels (snd (sodchan_get_output buf ctx)) = ctx_channels ctx"
  "ctx_next_local_channel_id (snd (sodchan_get_output buf ctx)) = ctx_next_local_channel_id ctx"
  "ctx_active_channels (snd (sodchan_get_output buf ctx)) = ctx_active_channels ctx"
  "ctx_cfg_store_used (snd (sodchan_get_output buf ctx)) = ctx_cfg_store_used ctx"
  "ctx_allowed_channels (snd (sodchan_get_output buf ctx)) = ctx_allowed_channels ctx"
  "ctx_client_username (snd (sodchan_get_output buf ctx)) = ctx_client_username ctx"
  "ctx_client_device_id (snd (sodchan_get_output buf ctx)) = ctx_client_device_id ctx"
  "ctx_in_buf (snd (sodchan_get_output buf ctx)) = ctx_in_buf ctx"
  "ctx_events (snd (sodchan_get_output buf ctx)) = ctx_events ctx"
  "ctx_event_cap (snd (sodchan_get_output buf ctx)) = ctx_event_cap ctx"
  "ctx_event_head (snd (sodchan_get_output buf ctx)) = ctx_event_head ctx"
  "ctx_event_count (snd (sodchan_get_output buf ctx)) = ctx_event_count ctx"
  "ctx_draws (snd (sodchan_get_output buf ctx)) = ctx_draws ctx"
  by (simp_all add: sodchan_get_output_def Let_def split: option.splits)

lemma next_event_frame [simp]:
  "ctx_role (snd (sodchan_next_event ctx)) = ctx_role ctx"
  "ctx_state (snd (sodchan_next_event ctx)) = ctx_state ctx"
  "ctx_hs (snd (sodchan_next_event ctx)) = ctx_hs ctx"
  "ctx_error (snd (sodchan_next_event ctx)) = ctx_error ctx"
  "ctx_error_msg (snd (sodchan_next_event ctx)) = ctx_error_msg ctx"
  "ctx_event_queue_size (snd (sodchan_next_event ctx)) = ctx_event_queue_size ctx"
  "ctx_max_record_size (snd (sodchan_next_event ctx)) = ctx_max_record_size ctx"
  "ctx_max_channel_data (snd (sodchan_next_event ctx)) = ctx_max_channel_data ctx"
  "ctx_max_channels (snd (sodchan_next_event ctx)) = ctx_max_channels ctx"
  "ctx_initial_window (snd (sodchan_next_event ctx)) = ctx_initial_window ctx"
  "ctx_max_packet (snd (sodchan_next_event ctx)) = ctx_max_packet ctx"
  "ctx_accept_any_server_pk (snd (sodchan_next_event ctx)) = ctx_accept_any_server_pk ctx"
  "ctx_lab_mode (snd (sodchan_next_event ctx)) = ctx_lab_mode ctx"
  "ctx_client_id_pk (snd (sodchan_next_event ctx)) = ctx_client_id_pk ctx"
  "ctx_client_id_sk (snd (sodchan_next_event ctx)) = ctx_client_id_sk ctx"
  "ctx_server_id_pk (snd (sodchan_next_event ctx)) = ctx_server_id_pk ctx"
  "ctx_server_id_sk (snd (sodchan_next_event ctx)) = ctx_server_id_sk ctx"
  "ctx_have_client_id_pk (snd (sodchan_next_event ctx)) = ctx_have_client_id_pk ctx"
  "ctx_have_client_id_sk (snd (sodchan_next_event ctx)) = ctx_have_client_id_sk ctx"
  "ctx_have_server_id_pk (snd (sodchan_next_event ctx)) = ctx_have_server_id_pk ctx"
  "ctx_have_server_id_sk (snd (sodchan_next_event ctx)) = ctx_have_server_id_sk ctx"
  "ctx_eph_pk (snd (sodchan_next_event ctx)) = ctx_eph_pk ctx"
  "ctx_eph_sk (snd (sodchan_next_event ctx)) = ctx_eph_sk ctx"
  "ctx_peer_eph_pk (snd (sodchan_next_event ctx)) = ctx_peer_eph_pk ctx"
  "ctx_peer_id_pk (snd (sodchan_next_event ctx)) = ctx_peer_id_pk ctx"
  "ctx_have_peer_eph (snd (sodchan_next_event ctx)) = ctx_have_peer_eph ctx"
  "ctx_have_peer_id (snd (sodchan_next_event ctx)) = ctx_have_peer_id ctx"
  "ctx_ss_key_c2s (snd (sodchan_next_event ctx)) = ctx_ss_key_c2s ctx"
  "ctx_ss_key_s2c (snd (sodchan_next_event ctx)) = ctx_ss_key_s2c ctx"
  "ctx_ss_push (snd (sodchan_next_event ctx)) = ctx_ss_push ctx"
  "ctx_ss_pull (snd (sodchan_next_event ctx)) = ctx_ss_pull ctx"
  "ctx_ss_push_ready (snd (sodchan_next_event ctx)) = ctx_ss_push_ready ctx"
  "ctx_ss_pull_ready (snd (sodchan_next_event ctx)) = ctx_ss_pull_ready ctx"
  "ctx_t_hello (snd (sodchan_next_event ctx)) = ctx_t_hello ctx"
  "ctx_have_t_hello (snd (sodchan_next_event ctx)) = ctx_have_t_hello ctx"
  "ctx_auth_sent (snd (sodchan_next_event ctx)) = ctx_auth_sent ctx"
  "ctx_auth_awaiting_decide (snd (sodchan_next_event ctx)) = ctx_auth_awaiting_decide ctx"
  "ctx_auth_decided (snd (sodchan_next_event ctx)) = ctx_auth_decided ctx"
  "ctx_auth_complete (snd (sodchan_next_event ctx)) = ctx_auth_complete ctx"
  "ctx_channels (snd (sodchan_next_event ctx)) = ctx_channels ctx"
  "ctx_next_local_channel_id (snd (sodchan_next_event ctx)) = ctx_next_local_channel_id ctx"
  "ctx_active_channels (snd (sodchan_next_event ctx)) = ctx_active_channels ctx"
  "ctx_cfg_store_used (snd (sodchan_next_event ctx)) = ctx_cfg_store_used ctx"
  "ctx_allowed_channels (snd (sodchan_next_event ctx)) = ctx_allowed_channels ctx"
  "ctx_client_username (snd (sodchan_next_event ctx)) = ctx_client_username ctx"
  "ctx_client_device_id (snd (sodchan_next_event ctx)) = ctx_client_device_id ctx"
  "ctx_out_buf (snd (sodchan_next_event ctx)) = ctx_out_buf ctx"
  "ctx_out_off (snd (sodchan_next_event ctx)) = ctx_out_off ctx"
  "ctx_in_buf (snd (sodchan_next_event ctx)) = ctx_in_buf ctx"
  "ctx_events (snd (sodchan_next_event ctx)) = ctx_events ctx"
  "ctx_event_cap (snd (sodchan_next_event ctx)) = ctx_event_cap ctx"
  "ctx_draws (snd (sodchan_next_event ctx)) = ctx_draws ctx"
  by (simp_all add: sodchan_next_event_def)

section \<open>The bounded queue\<close>

locale bounded_queue =
  fixes enq :: "'e \<Rightarrow> 's \<Rightarrow> rc \<times> 's"
    and deq :: "'s \<Rightarrow> 'e option \<times> 's"
    and queue :: "'s \<Rightarrow> 'e list"
    and cap :: "'s \<Rightarrow> nat"
    and inv :: "'s \<Rightarrow> bool"
  assumes enq_room: "inv s \<Longrightarrow> length (queue s) < cap s \<Longrightarrow>
        fst (enq e s) = SODCHAN_OK \<and> queue (snd (enq e s)) = queue s @ [e]"
    and enq_full: "inv s \<Longrightarrow> length (queue s) = cap s \<Longrightarrow> enq e s = (SODCHAN_ERR_FULL, s)"
    and enq_inv: "inv s \<Longrightarrow> inv (snd (enq e s)) \<and> cap (snd (enq e s)) = cap s"
    and deq_empty: "inv s \<Longrightarrow> queue s = [] \<Longrightarrow> deq s = (None, s)"
    and deq_cons: "inv s \<Longrightarrow> queue s = e # es \<Longrightarrow>
        fst (deq s) = Some e \<and> queue (snd (deq s)) = es"
    and deq_inv: "inv s \<Longrightarrow> inv (snd (deq s)) \<and> cap (snd (deq s)) = cap s"
    and queue_bound: "inv s \<Longrightarrow> length (queue s) \<le> cap s"
begin

lemma enq_queue:
  "inv s \<Longrightarrow> queue (snd (enq e s)) = (if length (queue s) < cap s then queue s @ [e] else queue s)"
  using enq_room enq_full queue_bound [of s] by fastforce

text \<open>A burst of events: as many as fit are kept, in order; the rest is dropped.\<close>

lemma enq_many:
  assumes "inv s"
  shows "queue (fold (\<lambda>e s. snd (enq e s)) es s) = queue s @ take (cap s - length (queue s)) es
    \<and> inv (fold (\<lambda>e s. snd (enq e s)) es s) \<and> cap (fold (\<lambda>e s. snd (enq e s)) es s) = cap s"
  using assms
proof (induction es arbitrary: s)
  case Nil
  then show ?case by simp
next
  case (Cons e es)
  from Cons.prems have 1: "inv (snd (enq e s))" "cap (snd (enq e s)) = cap s"
    using enq_inv by auto
  note IH = Cons.IH [OF 1(1), unfolded 1(2) enq_queue [OF Cons.prems]]
  have "Suc (cap s - Suc (length (queue s))) = cap s - length (queue s)"
    if "length (queue s) < cap s" using that by simp
  then show ?case
    using IH queue_bound [OF Cons.prems] by (auto simp: take_Cons' split: if_splits)
qed

fun drain :: "nat \<Rightarrow> 's \<Rightarrow> 'e list \<times> 's" where
  "drain 0 s = ([], s)"
| "drain (Suc n) s =
     (case deq s of
        (None, s') \<Rightarrow> ([], s')
      | (Some e, s') \<Rightarrow> (case drain n s' of (es, s'') \<Rightarrow> (e # es, s'')))"

lemma drain_queue:
  "inv s \<Longrightarrow> fst (drain n s) = take n (queue s) \<and> queue (snd (drain n s)) = drop n (queue s)"
proof (induction n arbitrary: s)
  case 0
  then show ?case by simp
next
  case (Suc n)
  show ?case
  proof (cases "queue s")
    case Nil
    then show ?thesis using deq_empty [OF Suc.prems] by simp
  next
    case (Cons e es)
    then obtain s' where "deq s = (Some e, s')" "queue s' = es" "inv s'"
      using deq_cons [OF Suc.prems Cons] deq_inv [OF Suc.prems] by (cases "deq s") auto
    then show ?thesis using Suc.IH [of s'] Cons by (auto split: prod.splits)
  qed
qed

end

section \<open>The bounded byte stream\<close>

locale byte_pipe =
  fixes put :: "bytes \<Rightarrow> 's \<Rightarrow> rc \<times> 's"
    and get :: "nat \<Rightarrow> 's \<Rightarrow> bytes \<times> 's"
    and pending :: "'s \<Rightarrow> bytes"
    and limit :: nat
    and inv :: "'s \<Rightarrow> bool"
  assumes put_ok: "inv s \<Longrightarrow> length (pending s) + length p \<le> limit \<Longrightarrow>
        fst (put p s) = SODCHAN_OK \<and> pending (snd (put p s)) = pending s @ p"
    and put_full: "inv s \<Longrightarrow> length (pending s) + length p > limit \<Longrightarrow>
        fst (put p s) = SODCHAN_ERR_FULL \<and> pending (snd (put p s)) = pending s"
    and put_inv: "inv s \<Longrightarrow> inv (snd (put p s))"
    and get_takes: "inv s \<Longrightarrow>
        fst (get n s) = take n (pending s) \<and> pending (snd (get n s)) = drop n (pending s)"
    and get_inv: "inv s \<Longrightarrow> inv (snd (get n s))"
begin

text \<open>Draining in pieces of any sizes reads the stream in order, without loss.\<close>

fun gets :: "nat list \<Rightarrow> 's \<Rightarrow> bytes \<times> 's" where
  "gets [] s = ([], s)"
| "gets (n # ns) s = (case get n s of (p, s') \<Rightarrow> (case gets ns s' of (q, s'') \<Rightarrow> (p @ q, s'')))"

lemma gets_takes:
  "inv s \<Longrightarrow> fst (gets ns s) = take (sum_list ns) (pending s)
     \<and> pending (snd (gets ns s)) = drop (sum_list ns) (pending s)"
proof (induction ns arbitrary: s)
  case Nil
  then show ?case by simp
next
  case (Cons n ns)
  then show ?case
    using get_takes [OF Cons.prems, of n] Cons.IH [OF get_inv [OF Cons.prems], of n]
    by (auto simp: take_add add.commute split: prod.splits)
qed

lemma put_get:
  "inv s \<Longrightarrow> pending s = [] \<Longrightarrow> length p \<le> limit \<Longrightarrow>
     fst (get (length p) (snd (put p s))) = p"
  using put_ok [of s p] put_inv [of s p] get_takes [of "snd (put p s)" "length p"] by simp

end

section \<open>The ring is a bounded queue\<close>

definition event_list :: "'ss sodchan_ctx \<Rightarrow> sodchan_event list" where
  "event_list ctx =
     map (\<lambda>i. ctx_events ctx ! ((ctx_event_head ctx + i) mod ctx_event_cap ctx))
       [0..<ctx_event_count ctx]"

definition ring_wf :: "'ss sodchan_ctx \<Rightarrow> bool" where
  "ring_wf ctx \<longleftrightarrow> 0 < ctx_event_cap ctx \<and> length (ctx_events ctx) = ctx_event_cap ctx
     \<and> ctx_event_head ctx < ctx_event_cap ctx \<and> ctx_event_count ctx \<le> ctx_event_cap ctx"

lemma length_event_list [simp]: "length (event_list ctx) = ctx_event_count ctx"
  by (simp add: event_list_def)

lemma ring_slots_distinct:
  fixes h i c cap :: nat
  assumes "i < c" and "c < cap"
  shows "(h + i) mod cap \<noteq> (h + c) mod cap"
proof
  assume "(h + i) mod cap = (h + c) mod cap"
  then have "cap dvd (h + c) - (h + i)"
    using mod_eq_dvd_iff_nat [of "h + i" "h + c" cap] assms by auto
  then have "cap dvd c - i" by simp
  with assms show False by (auto dest: dvd_imp_le)
qed

lemma ring_enq_room:
  assumes "ring_wf ctx" and "ctx_event_count ctx < ctx_event_cap ctx"
  shows "fst (sodchan_i_queue_event ev ctx) = SODCHAN_OK"
    and "event_list (snd (sodchan_i_queue_event ev ctx)) = event_list ctx @ [ev]"
proof -
  let ?h = "ctx_event_head ctx" and ?c = "ctx_event_count ctx" and ?cap = "ctx_event_cap ctx"
  from assms have ne: "ctx_events ctx \<noteq> []" and idx: "(?h + ?c) mod ?cap < length (ctx_events ctx)"
    by (auto simp: ring_wf_def)
  with assms show "fst (sodchan_i_queue_event ev ctx) = SODCHAN_OK"
    by (simp add: sodchan_i_queue_event_def Let_def)
  have "(ctx_events ctx)[(?h + ?c) mod ?cap := ev] ! ((?h + i) mod ?cap)
      = ctx_events ctx ! ((?h + i) mod ?cap)" if "i < ?c" for i
    using ring_slots_distinct [OF that assms(2)] by (simp add: eq_commute)
  with ne idx assms(2) show "event_list (snd (sodchan_i_queue_event ev ctx)) = event_list ctx @ [ev]"
    by (simp add: event_list_def sodchan_i_queue_event_def Let_def)
qed

lemma ring_deq_cons:
  assumes "ring_wf ctx" and "event_list ctx = e # es"
  shows "fst (sodchan_next_event ctx) = Some e" and "event_list (snd (sodchan_next_event ctx)) = es"
proof -
  let ?h = "ctx_event_head ctx" and ?c = "ctx_event_count ctx" and ?cap = "ctx_event_cap ctx"
  from assms(2) have c: "?c = Suc (length es)" by (metis length_Cons length_event_list)
  then have "event_list ctx = ctx_events ctx ! (?h mod ?cap)
      # map (\<lambda>i. ctx_events ctx ! ((?h + Suc i) mod ?cap)) [0..<length es]"
    by (simp add: event_list_def map_upt_Suc del: upt_Suc)
  with assms have "e = ctx_events ctx ! ?h"
    and "es = map (\<lambda>i. ctx_events ctx ! ((?h + Suc i) mod ?cap)) [0..<length es]"
    by (auto simp: ring_wf_def)
  with c show "fst (sodchan_next_event ctx) = Some e"
    and "event_list (snd (sodchan_next_event ctx)) = es"
    by (simp_all add: sodchan_next_event_def event_list_def mod_add_left_eq)
qed

interpretation ring: bounded_queue
  sodchan_i_queue_event sodchan_next_event event_list ctx_event_cap ring_wf
proof unfold_locales
  fix s :: "'a sodchan_ctx" and e :: sodchan_event and es
  assume wf: "ring_wf s"
  show "length (event_list s) < ctx_event_cap s \<Longrightarrow>
      fst (sodchan_i_queue_event e s) = SODCHAN_OK
      \<and> event_list (snd (sodchan_i_queue_event e s)) = event_list s @ [e]"
    using ring_enq_room [OF wf] by simp
  show "length (event_list s) = ctx_event_cap s \<Longrightarrow>
      sodchan_i_queue_event e s = (SODCHAN_ERR_FULL, s)"
    using wf by (auto simp: sodchan_i_queue_event_def ring_wf_def)
  show "ring_wf (snd (sodchan_i_queue_event e s))
      \<and> ctx_event_cap (snd (sodchan_i_queue_event e s)) = ctx_event_cap s"
    using wf by (auto simp: sodchan_i_queue_event_def ring_wf_def Let_def)
  show "event_list s = [] \<Longrightarrow> sodchan_next_event s = (None, s)"
    by (simp add: sodchan_next_event_def event_list_def)
  show "event_list s = e # es \<Longrightarrow>
      fst (sodchan_next_event s) = Some e \<and> event_list (snd (sodchan_next_event s)) = es"
    using ring_deq_cons [OF wf] by simp
  show "ring_wf (snd (sodchan_next_event s))
      \<and> ctx_event_cap (snd (sodchan_next_event s)) = ctx_event_cap s"
    using wf by (auto simp: sodchan_next_event_def ring_wf_def)
  show "length (event_list s) \<le> ctx_event_cap s"
    using wf by (simp add: ring_wf_def)
qed

section \<open>The output buffer is a byte stream\<close>

definition out_pending :: "'ss sodchan_ctx \<Rightarrow> bytes" where
  "out_pending ctx = drop (ctx_out_off ctx) (ctx_out_buf ctx)"

definition out_wf :: "'ss sodchan_ctx \<Rightarrow> bool" where
  "out_wf ctx \<longleftrightarrow> ctx_out_off ctx \<le> length (ctx_out_buf ctx)
     \<and> length (ctx_out_buf ctx) \<le> SODCHAN_OUT_BUF_SIZE"

lemma out_compact_pending [simp]:
  "ctx_out_buf (out_compact ctx) = out_pending ctx" "ctx_out_off (out_compact ctx) = 0"
  by (simp_all add: out_compact_def out_pending_def)

lemma length_out_pending_le: "out_wf ctx \<Longrightarrow> length (out_pending ctx) \<le> SODCHAN_OUT_BUF_SIZE"
  by (auto simp: out_wf_def out_pending_def)

interpretation out: byte_pipe
  out_append "\<lambda>n. sodchan_get_output (Some n)" out_pending SODCHAN_OUT_BUF_SIZE out_wf
proof unfold_locales
  fix s :: "'a sodchan_ctx" and p :: bytes and n :: nat
  assume wf: "out_wf s"
  note len = length_out_pending_le [OF wf]
  show "length (out_pending s) + length p \<le> SODCHAN_OUT_BUF_SIZE \<Longrightarrow>
      fst (out_append p s) = SODCHAN_OK \<and> out_pending (snd (out_append p s)) = out_pending s @ p"
    by (simp add: out_append_def Let_def out_pending_def [of "out_compact s\<lparr>ctx_out_buf := _\<rparr>"])
  show "SODCHAN_OUT_BUF_SIZE < length (out_pending s) + length p \<Longrightarrow>
      fst (out_append p s) = SODCHAN_ERR_FULL \<and> out_pending (snd (out_append p s)) = out_pending s"
    using len by (simp add: out_append_def Let_def out_pending_def [of "out_compact s"])
  show "out_wf (snd (out_append p s))"
    using len by (auto simp: out_append_def Let_def out_wf_def)
  show "fst (sodchan_get_output (Some n) s) = take n (out_pending s)
      \<and> out_pending (snd (sodchan_get_output (Some n) s)) = drop n (out_pending s)"
    using wf by (auto simp: sodchan_get_output_def out_pending_def out_wf_def Let_def add.commute)
  show "out_wf (snd (sodchan_get_output (Some n) s))"
    using wf by (auto simp: sodchan_get_output_def out_wf_def Let_def)
qed

lemma ring_wf_emit [simp]: "ring_wf ctx \<Longrightarrow> ring_wf (emit ev ctx)"
  using ring.enq_inv [of ctx ev] by (simp add: emit_def)

lemma event_list_emit:
  "ring_wf ctx \<Longrightarrow> event_list (emit ev ctx) =
     (if ctx_event_count ctx < ctx_event_cap ctx then event_list ctx @ [ev] else event_list ctx)"
  using ring.enq_queue [of ctx ev] by (simp add: emit_def)

lemma event_count_emit:
  "ring_wf ctx \<Longrightarrow> ctx_event_count (emit ev ctx) =
     (if ctx_event_count ctx < ctx_event_cap ctx then Suc (ctx_event_count ctx)
      else ctx_event_count ctx)"
  using arg_cong [OF event_list_emit, of ctx length ev] by simp

lemma set_error_eq:
  "code \<noteq> SODCHAN_OK \<Longrightarrow> length msg < SODCHAN_ERROR_MAX \<Longrightarrow>
     sodchan_i_set_error code msg ctx =
       emit (EVENT_ERROR (rc_code code) msg)
         (ctx\<lparr> ctx_error := rc_code code, ctx_state := STATE_ERROR, ctx_error_msg := msg \<rparr>)"
  by (simp add: sodchan_i_set_error_def Let_def)

lemma ring_wf_fields [simp]:
  "ring_wf (ctx\<lparr> ctx_error := e, ctx_state := st, ctx_error_msg := msg \<rparr>) = ring_wf ctx"
  by (simp add: ring_wf_def)

lemma ring_wf_set_error [simp]: "ring_wf ctx \<Longrightarrow> ring_wf (sodchan_i_set_error code msg ctx)"
  unfolding sodchan_i_set_error_def Let_def by (intro ring_wf_emit) simp

section \<open>What the two invariants do not look at\<close>

lemma event_list_upd [simp]:
  "event_list (ctx_state_update f_state ctx) = event_list ctx"
  "event_list (ctx_hs_update f_hs ctx) = event_list ctx"
  "event_list (ctx_error_update f_error ctx) = event_list ctx"
  "event_list (ctx_error_msg_update f_error_msg ctx) = event_list ctx"
  "event_list (ctx_server_id_pk_update f_server_id_pk ctx) = event_list ctx"
  "event_list (ctx_have_server_id_pk_update f_have_server_id_pk ctx) = event_list ctx"
  "event_list (ctx_eph_pk_update f_eph_pk ctx) = event_list ctx"
  "event_list (ctx_eph_sk_update f_eph_sk ctx) = event_list ctx"
  "event_list (ctx_peer_eph_pk_update f_peer_eph_pk ctx) = event_list ctx"
  "event_list (ctx_peer_id_pk_update f_peer_id_pk ctx) = event_list ctx"
  "event_list (ctx_have_peer_eph_update f_have_peer_eph ctx) = event_list ctx"
  "event_list (ctx_have_peer_id_update f_have_peer_id ctx) = event_list ctx"
  "event_list (ctx_ss_key_c2s_update f_ss_key_c2s ctx) = event_list ctx"
  "event_list (ctx_ss_key_s2c_update f_ss_key_s2c ctx) = event_list ctx"
  "event_list (ctx_ss_push_update f_ss_push ctx) = event_list ctx"
  "event_list (ctx_ss_pull_update f_ss_pull ctx) = event_list ctx"
  "event_list (ctx_ss_push_ready_update f_ss_push_ready ctx) = event_list ctx"
  "event_list (ctx_ss_pull_ready_update f_ss_pull_ready ctx) = event_list ctx"
  "event_list (ctx_t_hello_update f_t_hello ctx) = event_list ctx"
  "event_list (ctx_have_t_hello_update f_have_t_hello ctx) = event_list ctx"
  "event_list (ctx_auth_sent_update f_auth_sent ctx) = event_list ctx"
  "event_list (ctx_auth_awaiting_decide_update f_auth_awaiting_decide ctx) = event_list ctx"
  "event_list (ctx_auth_decided_update f_auth_decided ctx) = event_list ctx"
  "event_list (ctx_auth_complete_update f_auth_complete ctx) = event_list ctx"
  "event_list (ctx_channels_update f_channels ctx) = event_list ctx"
  "event_list (ctx_next_local_channel_id_update f_next_local_channel_id ctx) = event_list ctx"
  "event_list (ctx_active_channels_update f_active_channels ctx) = event_list ctx"
  "event_list (ctx_out_buf_update f_out_buf ctx) = event_list ctx"
  "event_list (ctx_out_off_update f_out_off ctx) = event_list ctx"
  "event_list (ctx_in_buf_update f_in_buf ctx) = event_list ctx"
  "event_list (ctx_draws_update f_draws ctx) = event_list ctx"
  by (simp_all add: event_list_def)

lemma ring_wf_upd [simp]:
  "ring_wf (ctx_state_update f_state ctx) = ring_wf ctx"
  "ring_wf (ctx_hs_update f_hs ctx) = ring_wf ctx"
  "ring_wf (ctx_error_update f_error ctx) = ring_wf ctx"
  "ring_wf (ctx_error_msg_update f_error_msg ctx) = ring_wf ctx"
  "ring_wf (ctx_server_id_pk_update f_server_id_pk ctx) = ring_wf ctx"
  "ring_wf (ctx_have_server_id_pk_update f_have_server_id_pk ctx) = ring_wf ctx"
  "ring_wf (ctx_eph_pk_update f_eph_pk ctx) = ring_wf ctx"
  "ring_wf (ctx_eph_sk_update f_eph_sk ctx) = ring_wf ctx"
  "ring_wf (ctx_peer_eph_pk_update f_peer_eph_pk ctx) = ring_wf ctx"
  "ring_wf (ctx_peer_id_pk_update f_peer_id_pk ctx) = ring_wf ctx"
  "ring_wf (ctx_have_peer_eph_update f_have_peer_eph ctx) = ring_wf ctx"
  "ring_wf (ctx_have_peer_id_update f_have_peer_id ctx) = ring_wf ctx"
  "ring_wf (ctx_ss_key_c2s_update f_ss_key_c2s ctx) = ring_wf ctx"
  "ring_wf (ctx_ss_key_s2c_update f_ss_key_s2c ctx) = ring_wf ctx"
  "ring_wf (ctx_ss_push_update f_ss_push ctx) = ring_wf ctx"
  "ring_wf (ctx_ss_pull_update f_ss_pull ctx) = ring_wf ctx"
  "ring_wf (ctx_ss_push_ready_update f_ss_push_ready ctx) = ring_wf ctx"
  "ring_wf (ctx_ss_pull_ready_update f_ss_pull_ready ctx) = ring_wf ctx"
  "ring_wf (ctx_t_hello_update f_t_hello ctx) = ring_wf ctx"
  "ring_wf (ctx_have_t_hello_update f_have_t_hello ctx) = ring_wf ctx"
  "ring_wf (ctx_auth_sent_update f_auth_sent ctx) = ring_wf ctx"
  "ring_wf (ctx_auth_awaiting_decide_update f_auth_awaiting_decide ctx) = ring_wf ctx"
  "ring_wf (ctx_auth_decided_update f_auth_decided ctx) = ring_wf ctx"
  "ring_wf (ctx_auth_complete_update f_auth_complete ctx) = ring_wf ctx"
  "ring_wf (ctx_channels_update f_channels ctx) = ring_wf ctx"
  "ring_wf (ctx_next_local_channel_id_update f_next_local_channel_id ctx) = ring_wf ctx"
  "ring_wf (ctx_active_channels_update f_active_channels ctx) = ring_wf ctx"
  "ring_wf (ctx_out_buf_update f_out_buf ctx) = ring_wf ctx"
  "ring_wf (ctx_out_off_update f_out_off ctx) = ring_wf ctx"
  "ring_wf (ctx_in_buf_update f_in_buf ctx) = ring_wf ctx"
  "ring_wf (ctx_draws_update f_draws ctx) = ring_wf ctx"
  by (simp_all add: ring_wf_def)

lemma out_pending_upd [simp]:
  "out_pending (ctx_state_update f_state ctx) = out_pending ctx"
  "out_pending (ctx_hs_update f_hs ctx) = out_pending ctx"
  "out_pending (ctx_error_update f_error ctx) = out_pending ctx"
  "out_pending (ctx_error_msg_update f_error_msg ctx) = out_pending ctx"
  "out_pending (ctx_server_id_pk_update f_server_id_pk ctx) = out_pending ctx"
  "out_pending (ctx_have_server_id_pk_update f_have_server_id_pk ctx) = out_pending ctx"
  "out_pending (ctx_eph_pk_update f_eph_pk ctx) = out_pending ctx"
  "out_pending (ctx_eph_sk_update f_eph_sk ctx) = out_pending ctx"
  "out_pending (ctx_peer_eph_pk_update f_peer_eph_pk ctx) = out_pending ctx"
  "out_pending (ctx_peer_id_pk_update f_peer_id_pk ctx) = out_pending ctx"
  "out_pending (ctx_have_peer_eph_update f_have_peer_eph ctx) = out_pending ctx"
  "out_pending (ctx_have_peer_id_update f_have_peer_id ctx) = out_pending ctx"
  "out_pending (ctx_ss_key_c2s_update f_ss_key_c2s ctx) = out_pending ctx"
  "out_pending (ctx_ss_key_s2c_update f_ss_key_s2c ctx) = out_pending ctx"
  "out_pending (ctx_ss_push_update f_ss_push ctx) = out_pending ctx"
  "out_pending (ctx_ss_pull_update f_ss_pull ctx) = out_pending ctx"
  "out_pending (ctx_ss_push_ready_update f_ss_push_ready ctx) = out_pending ctx"
  "out_pending (ctx_ss_pull_ready_update f_ss_pull_ready ctx) = out_pending ctx"
  "out_pending (ctx_t_hello_update f_t_hello ctx) = out_pending ctx"
  "out_pending (ctx_have_t_hello_update f_have_t_hello ctx) = out_pending ctx"
  "out_pending (ctx_auth_sent_update f_auth_sent ctx) = out_pending ctx"
  "out_pending (ctx_auth_awaiting_decide_update f_auth_awaiting_decide ctx) = out_pending ctx"
  "out_pending (ctx_auth_decided_update f_auth_decided ctx) = out_pending ctx"
  "out_pending (ctx_auth_complete_update f_auth_complete ctx) = out_pending ctx"
  "out_pending (ctx_channels_update f_channels ctx) = out_pending ctx"
  "out_pending (ctx_next_local_channel_id_update f_next_local_channel_id ctx) = out_pending ctx"
  "out_pending (ctx_active_channels_update f_active_channels ctx) = out_pending ctx"
  "out_pending (ctx_in_buf_update f_in_buf ctx) = out_pending ctx"
  "out_pending (ctx_events_update f_events ctx) = out_pending ctx"
  "out_pending (ctx_event_cap_update f_event_cap ctx) = out_pending ctx"
  "out_pending (ctx_event_head_update f_event_head ctx) = out_pending ctx"
  "out_pending (ctx_event_count_update f_event_count ctx) = out_pending ctx"
  "out_pending (ctx_draws_update f_draws ctx) = out_pending ctx"
  by (simp_all add: out_pending_def)

lemma out_wf_upd [simp]:
  "out_wf (ctx_state_update f_state ctx) = out_wf ctx"
  "out_wf (ctx_hs_update f_hs ctx) = out_wf ctx"
  "out_wf (ctx_error_update f_error ctx) = out_wf ctx"
  "out_wf (ctx_error_msg_update f_error_msg ctx) = out_wf ctx"
  "out_wf (ctx_server_id_pk_update f_server_id_pk ctx) = out_wf ctx"
  "out_wf (ctx_have_server_id_pk_update f_have_server_id_pk ctx) = out_wf ctx"
  "out_wf (ctx_eph_pk_update f_eph_pk ctx) = out_wf ctx"
  "out_wf (ctx_eph_sk_update f_eph_sk ctx) = out_wf ctx"
  "out_wf (ctx_peer_eph_pk_update f_peer_eph_pk ctx) = out_wf ctx"
  "out_wf (ctx_peer_id_pk_update f_peer_id_pk ctx) = out_wf ctx"
  "out_wf (ctx_have_peer_eph_update f_have_peer_eph ctx) = out_wf ctx"
  "out_wf (ctx_have_peer_id_update f_have_peer_id ctx) = out_wf ctx"
  "out_wf (ctx_ss_key_c2s_update f_ss_key_c2s ctx) = out_wf ctx"
  "out_wf (ctx_ss_key_s2c_update f_ss_key_s2c ctx) = out_wf ctx"
  "out_wf (ctx_ss_push_update f_ss_push ctx) = out_wf ctx"
  "out_wf (ctx_ss_pull_update f_ss_pull ctx) = out_wf ctx"
  "out_wf (ctx_ss_push_ready_update f_ss_push_ready ctx) = out_wf ctx"
  "out_wf (ctx_ss_pull_ready_update f_ss_pull_ready ctx) = out_wf ctx"
  "out_wf (ctx_t_hello_update f_t_hello ctx) = out_wf ctx"
  "out_wf (ctx_have_t_hello_update f_have_t_hello ctx) = out_wf ctx"
  "out_wf (ctx_auth_sent_update f_auth_sent ctx) = out_wf ctx"
  "out_wf (ctx_auth_awaiting_decide_update f_auth_awaiting_decide ctx) = out_wf ctx"
  "out_wf (ctx_auth_decided_update f_auth_decided ctx) = out_wf ctx"
  "out_wf (ctx_auth_complete_update f_auth_complete ctx) = out_wf ctx"
  "out_wf (ctx_channels_update f_channels ctx) = out_wf ctx"
  "out_wf (ctx_next_local_channel_id_update f_next_local_channel_id ctx) = out_wf ctx"
  "out_wf (ctx_active_channels_update f_active_channels ctx) = out_wf ctx"
  "out_wf (ctx_in_buf_update f_in_buf ctx) = out_wf ctx"
  "out_wf (ctx_events_update f_events ctx) = out_wf ctx"
  "out_wf (ctx_event_cap_update f_event_cap ctx) = out_wf ctx"
  "out_wf (ctx_event_head_update f_event_head ctx) = out_wf ctx"
  "out_wf (ctx_event_count_update f_event_count ctx) = out_wf ctx"
  "out_wf (ctx_draws_update f_draws ctx) = out_wf ctx"
  by (simp_all add: out_wf_def)

lemma out_pending_emit [simp]: "out_pending (emit ev ctx) = out_pending ctx"
  by (simp add: out_pending_def)

lemma out_wf_emit [simp]: "out_wf (emit ev ctx) = out_wf ctx"
  by (simp add: out_wf_def)

lemma out_pending_set_error [simp]:
  "out_pending (sodchan_i_set_error code msg ctx) = out_pending ctx"
  by (simp add: out_pending_def)

lemma out_wf_set_error [simp]: "out_wf (sodchan_i_set_error code msg ctx) = out_wf ctx"
  by (simp add: out_wf_def)

lemma out_wf_compact [simp]: "out_wf ctx \<Longrightarrow> out_wf (out_compact ctx)"
  using length_out_pending_le [of ctx] by (simp add: out_wf_def)

lemma ring_wf_eq:
  "ctx_events c = ctx_events ctx \<Longrightarrow> ctx_event_cap c = ctx_event_cap ctx \<Longrightarrow>
   ctx_event_head c = ctx_event_head ctx \<Longrightarrow> ctx_event_count c = ctx_event_count ctx \<Longrightarrow>
   ring_wf c = ring_wf ctx"
  by (simp add: ring_wf_def)

lemma event_list_eq:
  "ctx_events c = ctx_events ctx \<Longrightarrow> ctx_event_cap c = ctx_event_cap ctx \<Longrightarrow>
   ctx_event_head c = ctx_event_head ctx \<Longrightarrow> ctx_event_count c = ctx_event_count ctx \<Longrightarrow>
   event_list c = event_list ctx"
  by (simp add: event_list_def)

lemma out_append_rings [simp]:
  "ring_wf (snd (out_append p ctx)) = ring_wf ctx"
  "event_list (snd (out_append p ctx)) = event_list ctx"
  "ring_wf (snd (out_append_frame p ctx)) = ring_wf ctx"
  "event_list (snd (out_append_frame p ctx)) = event_list ctx"
  by (intro ring_wf_eq event_list_eq; simp)+

lemma out_wf_append_frame [simp]:
  assumes "out_wf ctx"
  shows "out_wf (snd (out_append_frame p ctx))"
  using out.put_inv [OF assms] assms by (simp add: out_append_frame_def split: sum.split)

section \<open>Properties\<close>

text \<open>
  C26. The event ring is a bounded FIFO: a burst of events is appended in order
  until the ring is full, and the rest of the burst is dropped; the host reads
  the oldest event first, and sees "no event" exactly when the queue is empty.
\<close>

theorem event_ring_fifo:
  assumes "ring_wf ctx"
  shows "event_list (fold emit evs ctx) =
           event_list ctx @ take (ctx_event_cap ctx - ctx_event_count ctx) evs
    \<and> ring_wf (fold emit evs ctx) \<and> ring_wf (snd (sodchan_next_event ctx))
    \<and> fst (sodchan_next_event ctx) =
        (case event_list ctx of [] \<Rightarrow> None | e # es \<Rightarrow> Some e)
    \<and> event_list (snd (sodchan_next_event ctx)) = tl (event_list ctx)"
proof -
  have "fold emit evs ctx = fold (\<lambda>e s. snd (sodchan_i_queue_event e s)) evs ctx"
    by (simp only: emit_def [abs_def])
  then show ?thesis
    using ring.enq_many [OF assms, of evs] ring.deq_inv [OF assms]
      ring.deq_empty [OF assms] ring.deq_cons [OF assms]
    by (auto split: list.splits)
qed

theorem event_ring_fifo_witness:
  "event_list (fold emit [EVENT_PING, EVENT_KX_COMPLETE, EVENT_AUTHENTICATED]
      (zero_ctx (0 :: nat) ROLE_CLIENT\<lparr> ctx_events := [EVENT_NONE, EVENT_NONE], ctx_event_cap := 2 \<rparr>))
    = [EVENT_PING, EVENT_KX_COMPLETE]"
proof -
  let ?ctx = "zero_ctx (0 :: nat) ROLE_CLIENT\<lparr> ctx_events := [EVENT_NONE, EVENT_NONE], ctx_event_cap := 2 \<rparr>"
  have wf: "ring_wf ?ctx" by (simp add: ring_wf_def zero_ctx_def)
  have "event_list ?ctx = []" by (simp add: event_list_def zero_ctx_def)
  then show ?thesis
    using event_ring_fifo [OF wf, of "[EVENT_PING, EVENT_KX_COMPLETE, EVENT_AUTHENTICATED]"]
    by (simp add: zero_ctx_def)
qed

text \<open>
  C27. The output buffer is a bounded FIFO of bytes: an append that fits is
  accepted whole, one that does not leaves the pending bytes as they are and
  reports FULL, and reading in pieces of any sizes yields the pending bytes in
  order, each once.
\<close>

theorem output_buffer_fifo:
  assumes "out_wf ctx"
  shows "(out_append p ctx = (r, ctx') \<longrightarrow>
           (if length (out_pending ctx) + length p \<le> SODCHAN_OUT_BUF_SIZE
            then r = SODCHAN_OK \<and> out_pending ctx' = out_pending ctx @ p
            else r = SODCHAN_ERR_FULL \<and> out_pending ctx' = out_pending ctx))
    \<and> (sodchan_get_output (Some n) ctx = (b, ctx'') \<longrightarrow>
           b @ out_pending ctx'' = out_pending ctx
           \<and> length b = min n (length (out_pending ctx)) \<and> out_wf ctx'')
    \<and> fst (out.gets ns ctx) = take (sum_list ns) (out_pending ctx)"
  using out.put_ok [OF assms, of p] out.put_full [OF assms, of p] out.get_takes [OF assms, of n]
    out.get_inv [OF assms, of n] out.gets_takes [OF assms, of ns]
  by auto

theorem output_buffer_fifo_witness:
  "fst (sodchan_get_output (Some 2)
      (zero_ctx (0 :: nat) ROLE_CLIENT\<lparr> ctx_out_buf := [7, 8, 9], ctx_out_off := 1 \<rparr>)) = [8, 9]"
proof -
  let ?ctx = "zero_ctx (0 :: nat) ROLE_CLIENT\<lparr> ctx_out_buf := [7, 8, 9], ctx_out_off := 1 \<rparr>"
  have wf: "out_wf ?ctx" by (simp add: out_wf_def SODCHAN_OUT_BUF_SIZE_def)
  obtain b c where get: "sodchan_get_output (Some 2) ?ctx = (b, c)" by (cases "sodchan_get_output (Some 2) ?ctx")
  then have "b @ out_pending c = [8, 9]" and "length b = 2"
    using output_buffer_fifo [OF wf, of _ _ _ 2 b c] by (simp_all add: out_pending_def)
  then have "take 2 [8, 9] = b" by (metis append_eq_conv_conj)
  with get show ?thesis by simp
qed

end
