(* ===== verification/Record_Layer.thy ===== *)
theory Record_Layer
  imports Buffers
begin

text \<open>
  The encrypted record layer of \<^verbatim>\<open>src/sodchan.c\<close>: the frame limit
  (\<^verbatim>\<open>ss_frame_max_body\<close>) and sending one PDU as one secretstream message in one
  frame (\<^verbatim>\<open>ss_send_pdu\<close>). The lemmas say that sending is all or nothing and that
  what is queued is a frame a peer with the same limit accepts.
\<close>

section \<open>Definitions\<close>

definition ss_frame_max_body :: "'ss sodchan_ctx \<Rightarrow> u32" where
  "ss_frame_max_body ctx =
     (let m = size_wrap (ctx_max_record_size ctx + SODCHAN_SS_ABYTES);
          m = (if m > 0xFFFFFFFF then 0xFFFFFFFF else m);
          m = (if m + 4 > SODCHAN_IN_BUF_SIZE then SODCHAN_IN_BUF_SIZE - 4 else m) in
      of_nat m)"

text \<open>
  The C code encrypts into the output buffer behind a 4-byte slot and fills the
  slot in afterwards; nothing is added to \<^verbatim>\<open>out_len\<close> unless encryption succeeds.
\<close>

definition ss_send_pdu ::
    "('ss, 'gh) sodium \<Rightarrow> span \<Rightarrow> 'ss sodchan_ctx \<Rightarrow> rc \<times> 'ss sodchan_ctx" where
  "ss_send_pdu sod plain ctx =
     (case plain of
        None \<Rightarrow> (SODCHAN_ERR_STATE, ctx)
      | Some p \<Rightarrow>
          if \<not> ctx_ss_push_ready ctx \<or> length p = 0 then (SODCHAN_ERR_STATE, ctx)
          else if length p > ctx_max_record_size ctx then (SODCHAN_ERR_PARAM, ctx)
          else let ctx = out_compact ctx; ct_max = length p + SODCHAN_SS_ABYTES in
            if 4 + ct_max > SODCHAN_OUT_BUF_SIZE - length (ctx_out_buf ctx)
            then (SODCHAN_ERR_FULL, ctx)
            else if ct_max > unat (ss_frame_max_body ctx) then (SODCHAN_ERR_PROTOCOL, ctx)
            else (case crypto_secretstream_push sod (ctx_ss_push ctx) p TAG_MESSAGE of
                    None \<Rightarrow> (SODCHAN_ERR_CRYPTO, ctx)
                  | Some (st, ct) \<Rightarrow>
                      (SODCHAN_OK,
                       ctx\<lparr> ctx_ss_push := st,
                            ctx_out_buf := ctx_out_buf ctx
                              @ sodchan_wire_put_u32 (of_nat (length ct)) @ ct \<rparr>)))"

section \<open>The frame limit\<close>

lemma ss_frame_max_body_bound: "unat (ss_frame_max_body ctx) \<le> SODCHAN_IN_BUF_SIZE - 4"
proof -
  have "n \<le> SODCHAN_IN_BUF_SIZE - 4 \<Longrightarrow> unat (of_nat n :: u32) \<le> SODCHAN_IN_BUF_SIZE - 4" for n
    by (simp add: unat_of_nat_u32 SODCHAN_IN_BUF_SIZE_def)
  then show ?thesis
    by (auto simp: ss_frame_max_body_def Let_def not_less)
qed

lemma ss_frame_max_body_eq:
  assumes "ctx_max_record_size ctx + SODCHAN_SS_ABYTES < 2 ^ 64"
  shows "unat (ss_frame_max_body ctx) =
           min (ctx_max_record_size ctx + SODCHAN_SS_ABYTES) (SODCHAN_IN_BUF_SIZE - 4)"
  using assms
  by (auto simp: ss_frame_max_body_def Let_def SODCHAN_IN_BUF_SIZE_def unat_of_nat_u32 min_def)

lemma ss_frame_max_body_cong:
  "ctx_max_record_size ctx = ctx_max_record_size ctx' \<Longrightarrow>
     ss_frame_max_body ctx = ss_frame_max_body ctx'"
  by (simp add: ss_frame_max_body_def)

section \<open>Sending\<close>

text \<open>Whether the code's size checks let a PDU through.\<close>

definition ss_fits :: "'ss sodchan_ctx \<Rightarrow> bytes \<Rightarrow> bool" where
  "ss_fits ctx p \<longleftrightarrow> ctx_ss_push_ready ctx \<and> length p \<noteq> 0
     \<and> length p \<le> ctx_max_record_size ctx
     \<and> 4 + (length p + SODCHAN_SS_ABYTES) \<le> SODCHAN_OUT_BUF_SIZE - length (out_pending ctx)
     \<and> length p + SODCHAN_SS_ABYTES \<le> unat (ss_frame_max_body ctx)"

lemma ss_frame_max_body_compact [simp]: "ss_frame_max_body (out_compact ctx) = ss_frame_max_body ctx"
  by (rule ss_frame_max_body_cong) simp

lemma out_compact_eq:
  "out_compact ctx = ctx\<lparr> ctx_out_buf := out_pending ctx, ctx_out_off := 0 \<rparr>"
  by (simp add: out_compact_def out_pending_def)

lemma out_pending_compact [simp]: "out_pending (out_compact ctx) = out_pending ctx"
  by (simp add: out_pending_def [of "out_compact ctx"])

lemma ss_send_pdu_fits:
  assumes "ss_fits ctx p"
    and "crypto_secretstream_push sod (ctx_ss_push ctx) p TAG_MESSAGE = Some (st, ct)"
  shows "ss_send_pdu sod (Some p) ctx =
     (SODCHAN_OK, ctx\<lparr> ctx_ss_push := st,
        ctx_out_buf := out_pending ctx @ sodchan_wire_put_u32 (of_nat (length ct)) @ ct,
        ctx_out_off := 0 \<rparr>)"
proof -
  have "ss_send_pdu sod (Some p) ctx =
     (SODCHAN_OK, (out_compact ctx)\<lparr> ctx_ss_push := st,
        ctx_out_buf := out_pending ctx @ sodchan_wire_put_u32 (of_nat (length ct)) @ ct \<rparr>)"
    using assms unfolding ss_fits_def
    by (simp add: ss_send_pdu_def Let_def not_less [symmetric])
  then show ?thesis by (simp add: out_compact_eq)
qed

lemma ss_send_pdu_refuses:
  assumes "\<And>p st ct. pl = Some p \<Longrightarrow> ss_fits ctx p \<Longrightarrow>
    crypto_secretstream_push sod (ctx_ss_push ctx) p TAG_MESSAGE \<noteq> Some (st, ct)"
  shows "fst (ss_send_pdu sod pl ctx) \<noteq> SODCHAN_OK
    \<and> (snd (ss_send_pdu sod pl ctx) = ctx \<or> snd (ss_send_pdu sod pl ctx) = out_compact ctx)"
proof (cases pl)
  case None
  then show ?thesis by (simp add: ss_send_pdu_def)
next
  case (Some p)
  show ?thesis
  proof (cases "ss_fits ctx p")
    case True
    then have "crypto_secretstream_push sod (ctx_ss_push ctx) p TAG_MESSAGE = None"
      using assms [OF Some True] by (cases "crypto_secretstream_push sod (ctx_ss_push ctx) p TAG_MESSAGE") auto
    with True show ?thesis
      unfolding ss_fits_def Some by (simp add: ss_send_pdu_def Let_def not_less [symmetric])
  next
    case False
    then consider "\<not> ctx_ss_push_ready ctx \<or> length p = 0"
      | "ctx_ss_push_ready ctx" "length p \<noteq> 0" "ctx_max_record_size ctx < length p"
      | "ctx_ss_push_ready ctx" "length p \<noteq> 0" "\<not> ctx_max_record_size ctx < length p"
        "SODCHAN_OUT_BUF_SIZE - length (out_pending ctx) < 4 + (length p + SODCHAN_SS_ABYTES)"
      | "ctx_ss_push_ready ctx" "length p \<noteq> 0" "\<not> ctx_max_record_size ctx < length p"
        "\<not> SODCHAN_OUT_BUF_SIZE - length (out_pending ctx) < 4 + (length p + SODCHAN_SS_ABYTES)"
        "unat (ss_frame_max_body ctx) < length p + SODCHAN_SS_ABYTES"
      unfolding ss_fits_def by linarith
    then show ?thesis
      unfolding Some by cases (simp_all add: ss_send_pdu_def Let_def)
  qed
qed

lemma ss_send_pdu_cases:
  obtains (sent) p st ct where "pl = Some p" "ss_fits ctx p"
      "crypto_secretstream_push sod (ctx_ss_push ctx) p TAG_MESSAGE = Some (st, ct)"
      "ss_send_pdu sod pl ctx =
         (SODCHAN_OK, ctx\<lparr> ctx_ss_push := st,
            ctx_out_buf := out_pending ctx @ sodchan_wire_put_u32 (of_nat (length ct)) @ ct,
            ctx_out_off := 0 \<rparr>)"
  | (same) r where "ss_send_pdu sod pl ctx = (r, ctx)" "r \<noteq> SODCHAN_OK"
  | (compacted) r where "ss_send_pdu sod pl ctx = (r, out_compact ctx)" "r \<noteq> SODCHAN_OK"
proof (cases "\<exists>p st ct. pl = Some p \<and> ss_fits ctx p
    \<and> crypto_secretstream_push sod (ctx_ss_push ctx) p TAG_MESSAGE = Some (st, ct)")
  case True
  then obtain p st ct where *: "pl = Some p" "ss_fits ctx p"
      "crypto_secretstream_push sod (ctx_ss_push ctx) p TAG_MESSAGE = Some (st, ct)"
    by blast
  show ?thesis
    by (rule sent [OF *]) (simp only: *(1) ss_send_pdu_fits [OF *(2,3)])
next
  case False
  then have *: "\<And>p st ct. pl = Some p \<Longrightarrow> ss_fits ctx p \<Longrightarrow>
      crypto_secretstream_push sod (ctx_ss_push ctx) p TAG_MESSAGE \<noteq> Some (st, ct)"
    by blast
  have "fst (ss_send_pdu sod pl ctx) \<noteq> SODCHAN_OK
    \<and> (snd (ss_send_pdu sod pl ctx) = ctx \<or> snd (ss_send_pdu sod pl ctx) = out_compact ctx)"
    by (rule ss_send_pdu_refuses) (rule *)
  then show ?thesis
    using same [of "fst (ss_send_pdu sod pl ctx)"] compacted [of "fst (ss_send_pdu sod pl ctx)"]
    by (metis prod.collapse)
qed

lemma ss_send_pdu_frame [simp]:
  "ctx_role (snd (ss_send_pdu sod pl ctx)) = ctx_role ctx"
  "ctx_state (snd (ss_send_pdu sod pl ctx)) = ctx_state ctx"
  "ctx_hs (snd (ss_send_pdu sod pl ctx)) = ctx_hs ctx"
  "ctx_error (snd (ss_send_pdu sod pl ctx)) = ctx_error ctx"
  "ctx_error_msg (snd (ss_send_pdu sod pl ctx)) = ctx_error_msg ctx"
  "ctx_event_queue_size (snd (ss_send_pdu sod pl ctx)) = ctx_event_queue_size ctx"
  "ctx_max_record_size (snd (ss_send_pdu sod pl ctx)) = ctx_max_record_size ctx"
  "ctx_max_channel_data (snd (ss_send_pdu sod pl ctx)) = ctx_max_channel_data ctx"
  "ctx_max_channels (snd (ss_send_pdu sod pl ctx)) = ctx_max_channels ctx"
  "ctx_initial_window (snd (ss_send_pdu sod pl ctx)) = ctx_initial_window ctx"
  "ctx_max_packet (snd (ss_send_pdu sod pl ctx)) = ctx_max_packet ctx"
  "ctx_accept_any_server_pk (snd (ss_send_pdu sod pl ctx)) = ctx_accept_any_server_pk ctx"
  "ctx_lab_mode (snd (ss_send_pdu sod pl ctx)) = ctx_lab_mode ctx"
  "ctx_client_id_pk (snd (ss_send_pdu sod pl ctx)) = ctx_client_id_pk ctx"
  "ctx_client_id_sk (snd (ss_send_pdu sod pl ctx)) = ctx_client_id_sk ctx"
  "ctx_server_id_pk (snd (ss_send_pdu sod pl ctx)) = ctx_server_id_pk ctx"
  "ctx_server_id_sk (snd (ss_send_pdu sod pl ctx)) = ctx_server_id_sk ctx"
  "ctx_have_client_id_pk (snd (ss_send_pdu sod pl ctx)) = ctx_have_client_id_pk ctx"
  "ctx_have_client_id_sk (snd (ss_send_pdu sod pl ctx)) = ctx_have_client_id_sk ctx"
  "ctx_have_server_id_pk (snd (ss_send_pdu sod pl ctx)) = ctx_have_server_id_pk ctx"
  "ctx_have_server_id_sk (snd (ss_send_pdu sod pl ctx)) = ctx_have_server_id_sk ctx"
  "ctx_eph_pk (snd (ss_send_pdu sod pl ctx)) = ctx_eph_pk ctx"
  "ctx_eph_sk (snd (ss_send_pdu sod pl ctx)) = ctx_eph_sk ctx"
  "ctx_peer_eph_pk (snd (ss_send_pdu sod pl ctx)) = ctx_peer_eph_pk ctx"
  "ctx_peer_id_pk (snd (ss_send_pdu sod pl ctx)) = ctx_peer_id_pk ctx"
  "ctx_have_peer_eph (snd (ss_send_pdu sod pl ctx)) = ctx_have_peer_eph ctx"
  "ctx_have_peer_id (snd (ss_send_pdu sod pl ctx)) = ctx_have_peer_id ctx"
  "ctx_ss_key_c2s (snd (ss_send_pdu sod pl ctx)) = ctx_ss_key_c2s ctx"
  "ctx_ss_key_s2c (snd (ss_send_pdu sod pl ctx)) = ctx_ss_key_s2c ctx"
  "ctx_ss_pull (snd (ss_send_pdu sod pl ctx)) = ctx_ss_pull ctx"
  "ctx_ss_push_ready (snd (ss_send_pdu sod pl ctx)) = ctx_ss_push_ready ctx"
  "ctx_ss_pull_ready (snd (ss_send_pdu sod pl ctx)) = ctx_ss_pull_ready ctx"
  "ctx_t_hello (snd (ss_send_pdu sod pl ctx)) = ctx_t_hello ctx"
  "ctx_have_t_hello (snd (ss_send_pdu sod pl ctx)) = ctx_have_t_hello ctx"
  "ctx_auth_sent (snd (ss_send_pdu sod pl ctx)) = ctx_auth_sent ctx"
  "ctx_auth_awaiting_decide (snd (ss_send_pdu sod pl ctx)) = ctx_auth_awaiting_decide ctx"
  "ctx_auth_decided (snd (ss_send_pdu sod pl ctx)) = ctx_auth_decided ctx"
  "ctx_auth_complete (snd (ss_send_pdu sod pl ctx)) = ctx_auth_complete ctx"
  "ctx_channels (snd (ss_send_pdu sod pl ctx)) = ctx_channels ctx"
  "ctx_next_local_channel_id (snd (ss_send_pdu sod pl ctx)) = ctx_next_local_channel_id ctx"
  "ctx_active_channels (snd (ss_send_pdu sod pl ctx)) = ctx_active_channels ctx"
  "ctx_cfg_store_used (snd (ss_send_pdu sod pl ctx)) = ctx_cfg_store_used ctx"
  "ctx_allowed_channels (snd (ss_send_pdu sod pl ctx)) = ctx_allowed_channels ctx"
  "ctx_client_username (snd (ss_send_pdu sod pl ctx)) = ctx_client_username ctx"
  "ctx_client_device_id (snd (ss_send_pdu sod pl ctx)) = ctx_client_device_id ctx"
  "ctx_in_buf (snd (ss_send_pdu sod pl ctx)) = ctx_in_buf ctx"
  "ctx_events (snd (ss_send_pdu sod pl ctx)) = ctx_events ctx"
  "ctx_event_cap (snd (ss_send_pdu sod pl ctx)) = ctx_event_cap ctx"
  "ctx_event_head (snd (ss_send_pdu sod pl ctx)) = ctx_event_head ctx"
  "ctx_event_count (snd (ss_send_pdu sod pl ctx)) = ctx_event_count ctx"
  "ctx_draws (snd (ss_send_pdu sod pl ctx)) = ctx_draws ctx"
  by (cases rule: ss_send_pdu_cases [of pl ctx sod]; simp)+

lemma ss_send_pdu_out_wf [simp]:
  assumes "out_wf ctx" and "push_len_law sod"
  shows "out_wf (snd (ss_send_pdu sod pl ctx))"
  using length_out_pending_le [OF assms(1)] assms
  by (cases rule: ss_send_pdu_cases [of pl ctx sod])
    (auto simp: out_wf_def ss_fits_def push_len_law_def)

lemma ss_send_pdu_rings [simp]:
  "ring_wf (snd (ss_send_pdu sod pl ctx)) = ring_wf ctx"
  "event_list (snd (ss_send_pdu sod pl ctx)) = event_list ctx"
  by (intro ring_wf_eq event_list_eq; simp)+

text \<open>What is sent depends on the push state, the limit and the pending output alone.\<close>

lemma ss_send_out_cong:
  assumes same: "ctx_ss_push_ready c = ctx_ss_push_ready ctx" "ctx_ss_push c = ctx_ss_push ctx"
    "ctx_max_record_size c = ctx_max_record_size ctx" "out_pending c = out_pending ctx"
  shows "out_pending (snd (ss_send_pdu sod pl c)) = out_pending (snd (ss_send_pdu sod pl ctx))
    \<and> ctx_ss_push (snd (ss_send_pdu sod pl c)) = ctx_ss_push (snd (ss_send_pdu sod pl ctx))"
proof -
  have fits: "ss_fits c p = ss_fits ctx p" for p
    by (simp add: ss_fits_def same ss_frame_max_body_cong [OF same(3)])
  show ?thesis
  proof (cases rule: ss_send_pdu_cases [of pl ctx sod])
    case (sent p st ct)
    with ss_send_pdu_fits [of c p sod st ct] show ?thesis
      by (simp add: fits same out_pending_def [of "ctx_out_off_update _ _"])
  next
    case (same r)
    with assms show ?thesis
      by (cases rule: ss_send_pdu_cases [of pl c sod])
        (auto simp: fits dest: ss_send_pdu_fits)
  next
    case (compacted r)
    with assms show ?thesis
      by (cases rule: ss_send_pdu_cases [of pl c sod])
        (auto simp: fits dest: ss_send_pdu_fits)
  qed
qed

section \<open>The session part of the context\<close>

text \<open>
  Sending, queueing events and the channel layer change only the buffers, the
  channel table, the push state and the error fields. The rest of the context
  is its session part, so one equation says that an operation leaves the
  handshake, the keys, the authentication flags, the configuration and the
  input buffer alone.
\<close>

definition session_part :: "'ss sodchan_ctx \<Rightarrow> 'ss sodchan_ctx" where
  "session_part ctx = ctx\<lparr> ctx_state := STATE_IDLE, ctx_error := 0, ctx_error_msg := [],
     ctx_ss_push := ctx_ss_pull ctx, ctx_out_buf := [], ctx_out_off := 0,
     ctx_channels := [], ctx_next_local_channel_id := 0, ctx_active_channels := 0,
     ctx_events := [], ctx_event_head := 0, ctx_event_count := 0 \<rparr>"

lemma session_part_upd [simp]:
  "session_part (ctx_state_update f_state ctx) = session_part ctx"
  "session_part (ctx_error_update f_error ctx) = session_part ctx"
  "session_part (ctx_error_msg_update f_error_msg ctx) = session_part ctx"
  "session_part (ctx_ss_push_update f_ss_push ctx) = session_part ctx"
  "session_part (ctx_out_buf_update f_out_buf ctx) = session_part ctx"
  "session_part (ctx_out_off_update f_out_off ctx) = session_part ctx"
  "session_part (ctx_channels_update f_channels ctx) = session_part ctx"
  "session_part (ctx_next_local_channel_id_update f_next_local_channel_id ctx) = session_part ctx"
  "session_part (ctx_active_channels_update f_active_channels ctx) = session_part ctx"
  "session_part (ctx_events_update f_events ctx) = session_part ctx"
  "session_part (ctx_event_head_update f_event_head ctx) = session_part ctx"
  "session_part (ctx_event_count_update f_event_count ctx) = session_part ctx"
  by (simp_all add: session_part_def)

lemma session_part_fields:
  assumes "session_part c = session_part ctx"
  shows
  "ctx_role c = ctx_role ctx" "ctx_hs c = ctx_hs ctx"
  "ctx_event_queue_size c = ctx_event_queue_size ctx"
  "ctx_max_record_size c = ctx_max_record_size ctx"
  "ctx_max_channel_data c = ctx_max_channel_data ctx" "ctx_max_channels c = ctx_max_channels ctx"
  "ctx_initial_window c = ctx_initial_window ctx" "ctx_max_packet c = ctx_max_packet ctx"
  "ctx_accept_any_server_pk c = ctx_accept_any_server_pk ctx" "ctx_lab_mode c = ctx_lab_mode ctx"
  "ctx_client_id_pk c = ctx_client_id_pk ctx" "ctx_client_id_sk c = ctx_client_id_sk ctx"
  "ctx_server_id_pk c = ctx_server_id_pk ctx" "ctx_server_id_sk c = ctx_server_id_sk ctx"
  "ctx_have_client_id_pk c = ctx_have_client_id_pk ctx"
  "ctx_have_client_id_sk c = ctx_have_client_id_sk ctx"
  "ctx_have_server_id_pk c = ctx_have_server_id_pk ctx"
  "ctx_have_server_id_sk c = ctx_have_server_id_sk ctx" "ctx_eph_pk c = ctx_eph_pk ctx"
  "ctx_eph_sk c = ctx_eph_sk ctx" "ctx_peer_eph_pk c = ctx_peer_eph_pk ctx"
  "ctx_peer_id_pk c = ctx_peer_id_pk ctx" "ctx_have_peer_eph c = ctx_have_peer_eph ctx"
  "ctx_have_peer_id c = ctx_have_peer_id ctx" "ctx_ss_key_c2s c = ctx_ss_key_c2s ctx"
  "ctx_ss_key_s2c c = ctx_ss_key_s2c ctx" "ctx_ss_pull c = ctx_ss_pull ctx"
  "ctx_ss_push_ready c = ctx_ss_push_ready ctx" "ctx_ss_pull_ready c = ctx_ss_pull_ready ctx"
  "ctx_t_hello c = ctx_t_hello ctx" "ctx_have_t_hello c = ctx_have_t_hello ctx"
  "ctx_auth_sent c = ctx_auth_sent ctx" "ctx_auth_awaiting_decide c = ctx_auth_awaiting_decide ctx"
  "ctx_auth_decided c = ctx_auth_decided ctx" "ctx_auth_complete c = ctx_auth_complete ctx"
  "ctx_cfg_store_used c = ctx_cfg_store_used ctx"
  "ctx_allowed_channels c = ctx_allowed_channels ctx"
  "ctx_client_username c = ctx_client_username ctx"
  "ctx_client_device_id c = ctx_client_device_id ctx" "ctx_in_buf c = ctx_in_buf ctx"
  "ctx_event_cap c = ctx_event_cap ctx" "ctx_draws c = ctx_draws ctx"
  using arg_cong [OF assms, of ctx_role]
  arg_cong [OF assms, of ctx_hs] arg_cong [OF assms, of ctx_event_queue_size]
  arg_cong [OF assms, of ctx_max_record_size] arg_cong [OF assms, of ctx_max_channel_data]
  arg_cong [OF assms, of ctx_max_channels] arg_cong [OF assms, of ctx_initial_window]
  arg_cong [OF assms, of ctx_max_packet] arg_cong [OF assms, of ctx_accept_any_server_pk]
  arg_cong [OF assms, of ctx_lab_mode] arg_cong [OF assms, of ctx_client_id_pk]
  arg_cong [OF assms, of ctx_client_id_sk] arg_cong [OF assms, of ctx_server_id_pk]
  arg_cong [OF assms, of ctx_server_id_sk] arg_cong [OF assms, of ctx_have_client_id_pk]
  arg_cong [OF assms, of ctx_have_client_id_sk] arg_cong [OF assms, of ctx_have_server_id_pk]
  arg_cong [OF assms, of ctx_have_server_id_sk] arg_cong [OF assms, of ctx_eph_pk]
  arg_cong [OF assms, of ctx_eph_sk] arg_cong [OF assms, of ctx_peer_eph_pk]
  arg_cong [OF assms, of ctx_peer_id_pk] arg_cong [OF assms, of ctx_have_peer_eph]
  arg_cong [OF assms, of ctx_have_peer_id] arg_cong [OF assms, of ctx_ss_key_c2s]
  arg_cong [OF assms, of ctx_ss_key_s2c] arg_cong [OF assms, of ctx_ss_pull]
  arg_cong [OF assms, of ctx_ss_push_ready] arg_cong [OF assms, of ctx_ss_pull_ready]
  arg_cong [OF assms, of ctx_t_hello] arg_cong [OF assms, of ctx_have_t_hello]
  arg_cong [OF assms, of ctx_auth_sent] arg_cong [OF assms, of ctx_auth_awaiting_decide]
  arg_cong [OF assms, of ctx_auth_decided] arg_cong [OF assms, of ctx_auth_complete]
  arg_cong [OF assms, of ctx_cfg_store_used] arg_cong [OF assms, of ctx_allowed_channels]
  arg_cong [OF assms, of ctx_client_username] arg_cong [OF assms, of ctx_client_device_id]
  arg_cong [OF assms, of ctx_in_buf] arg_cong [OF assms, of ctx_event_cap]
  arg_cong [OF assms, of ctx_draws]
  by (simp_all add: session_part_def)

lemma session_part_emit [simp]: "session_part (emit ev ctx) = session_part ctx"
  by (simp add: emit_def sodchan_i_queue_event_def Let_def)

lemma session_part_set_error [simp]:
  "session_part (sodchan_i_set_error code msg ctx) = session_part ctx"
  by (simp add: sodchan_i_set_error_def Let_def)

lemma session_part_compact [simp]: "session_part (out_compact ctx) = session_part ctx"
  by (simp add: out_compact_def)

lemma session_part_send [simp]: "session_part (snd (ss_send_pdu sod pl ctx)) = session_part ctx"
  by (cases rule: ss_send_pdu_cases [of pl ctx sod]; simp)

section \<open>The part no handler changes\<close>

text \<open>The configuration and the input buffer.\<close>

definition fixed_part where
  "fixed_part ctx =
    (ctx_role ctx, ctx_event_queue_size ctx, ctx_max_record_size ctx, ctx_max_channel_data ctx,
  ctx_max_channels ctx, ctx_initial_window ctx, ctx_max_packet ctx, ctx_accept_any_server_pk ctx,
  ctx_lab_mode ctx, ctx_client_id_pk ctx, ctx_client_id_sk ctx, ctx_server_id_sk ctx,
  ctx_have_client_id_pk ctx, ctx_have_client_id_sk ctx, ctx_have_server_id_sk ctx,
  ctx_cfg_store_used ctx, ctx_allowed_channels ctx, ctx_client_username ctx,
  ctx_client_device_id ctx, ctx_in_buf ctx, ctx_event_cap ctx)"

lemma fixed_part_upd [simp]:
  "fixed_part (ctx_state_update f_state ctx) = fixed_part ctx"
  "fixed_part (ctx_hs_update f_hs ctx) = fixed_part ctx"
  "fixed_part (ctx_error_update f_error ctx) = fixed_part ctx"
  "fixed_part (ctx_error_msg_update f_error_msg ctx) = fixed_part ctx"
  "fixed_part (ctx_server_id_pk_update f_server_id_pk ctx) = fixed_part ctx"
  "fixed_part (ctx_have_server_id_pk_update f_have_server_id_pk ctx) = fixed_part ctx"
  "fixed_part (ctx_eph_pk_update f_eph_pk ctx) = fixed_part ctx"
  "fixed_part (ctx_eph_sk_update f_eph_sk ctx) = fixed_part ctx"
  "fixed_part (ctx_peer_eph_pk_update f_peer_eph_pk ctx) = fixed_part ctx"
  "fixed_part (ctx_peer_id_pk_update f_peer_id_pk ctx) = fixed_part ctx"
  "fixed_part (ctx_have_peer_eph_update f_have_peer_eph ctx) = fixed_part ctx"
  "fixed_part (ctx_have_peer_id_update f_have_peer_id ctx) = fixed_part ctx"
  "fixed_part (ctx_ss_key_c2s_update f_ss_key_c2s ctx) = fixed_part ctx"
  "fixed_part (ctx_ss_key_s2c_update f_ss_key_s2c ctx) = fixed_part ctx"
  "fixed_part (ctx_ss_push_update f_ss_push ctx) = fixed_part ctx"
  "fixed_part (ctx_ss_pull_update f_ss_pull ctx) = fixed_part ctx"
  "fixed_part (ctx_ss_push_ready_update f_ss_push_ready ctx) = fixed_part ctx"
  "fixed_part (ctx_ss_pull_ready_update f_ss_pull_ready ctx) = fixed_part ctx"
  "fixed_part (ctx_t_hello_update f_t_hello ctx) = fixed_part ctx"
  "fixed_part (ctx_have_t_hello_update f_have_t_hello ctx) = fixed_part ctx"
  "fixed_part (ctx_auth_sent_update f_auth_sent ctx) = fixed_part ctx"
  "fixed_part (ctx_auth_awaiting_decide_update f_auth_awaiting_decide ctx) = fixed_part ctx"
  "fixed_part (ctx_auth_decided_update f_auth_decided ctx) = fixed_part ctx"
  "fixed_part (ctx_auth_complete_update f_auth_complete ctx) = fixed_part ctx"
  "fixed_part (ctx_channels_update f_channels ctx) = fixed_part ctx"
  "fixed_part (ctx_next_local_channel_id_update f_next_local_channel_id ctx) = fixed_part ctx"
  "fixed_part (ctx_active_channels_update f_active_channels ctx) = fixed_part ctx"
  "fixed_part (ctx_out_buf_update f_out_buf ctx) = fixed_part ctx"
  "fixed_part (ctx_out_off_update f_out_off ctx) = fixed_part ctx"
  "fixed_part (ctx_events_update f_events ctx) = fixed_part ctx"
  "fixed_part (ctx_event_head_update f_event_head ctx) = fixed_part ctx"
  "fixed_part (ctx_event_count_update f_event_count ctx) = fixed_part ctx"
  "fixed_part (ctx_draws_update f_draws ctx) = fixed_part ctx"
  by (simp_all add: fixed_part_def)

lemma fixed_part_fields:
  assumes "fixed_part c = fixed_part ctx"
  shows
  "ctx_role c = ctx_role ctx" "ctx_event_queue_size c = ctx_event_queue_size ctx"
  "ctx_max_record_size c = ctx_max_record_size ctx"
  "ctx_max_channel_data c = ctx_max_channel_data ctx" "ctx_max_channels c = ctx_max_channels ctx"
  "ctx_initial_window c = ctx_initial_window ctx" "ctx_max_packet c = ctx_max_packet ctx"
  "ctx_accept_any_server_pk c = ctx_accept_any_server_pk ctx" "ctx_lab_mode c = ctx_lab_mode ctx"
  "ctx_client_id_pk c = ctx_client_id_pk ctx" "ctx_client_id_sk c = ctx_client_id_sk ctx"
  "ctx_server_id_sk c = ctx_server_id_sk ctx" "ctx_have_client_id_pk c = ctx_have_client_id_pk ctx"
  "ctx_have_client_id_sk c = ctx_have_client_id_sk ctx"
  "ctx_have_server_id_sk c = ctx_have_server_id_sk ctx"
  "ctx_cfg_store_used c = ctx_cfg_store_used ctx"
  "ctx_allowed_channels c = ctx_allowed_channels ctx"
  "ctx_client_username c = ctx_client_username ctx"
  "ctx_client_device_id c = ctx_client_device_id ctx" "ctx_in_buf c = ctx_in_buf ctx"
  "ctx_event_cap c = ctx_event_cap ctx"
  using assms by (simp_all add: fixed_part_def)

lemma fixed_part_session:
  "session_part c = session_part ctx \<Longrightarrow> fixed_part c = fixed_part ctx"
  unfolding fixed_part_def by (simp add: session_part_fields [of c ctx])

lemma fixed_part_ops [simp]:
  "fixed_part (emit ev ctx) = fixed_part ctx"
  "fixed_part (sodchan_i_set_error code msg ctx) = fixed_part ctx"
  "fixed_part (snd (ss_send_pdu sod pl ctx)) = fixed_part ctx"
  "fixed_part (snd (out_append_frame b ctx)) = fixed_part ctx"
  by (simp_all add: fixed_part_session fixed_part_def)

section \<open>Keeping the shared invariants\<close>

text \<open>
  What every handler of the handshake and of the authentication phase does to
  the parts it is not about: configuration, input buffer and channel table stay,
  the ring and (given the length law) the output buffer stay well formed. A transitive relation, so a
  handler has it because each of its steps has.
\<close>

definition keeps :: "('ss, 'gh) sodium \<Rightarrow> 'ss sodchan_ctx \<Rightarrow> 'ss sodchan_ctx \<Rightarrow> bool" where
  "keeps sod ctx c \<longleftrightarrow> fixed_part c = fixed_part ctx
     \<and> (ring_wf ctx \<longrightarrow> ring_wf c) \<and> (push_len_law sod \<longrightarrow> out_wf ctx \<longrightarrow> out_wf c)
     \<and> ctx_channels c = ctx_channels ctx \<and> ctx_active_channels c = ctx_active_channels ctx
     \<and> ctx_next_local_channel_id c = ctx_next_local_channel_id ctx"

lemma keeps_refl [simp]: "keeps sod ctx ctx"
  by (simp add: keeps_def)

lemma keeps_trans: "keeps sod ctx c \<Longrightarrow> keeps sod c d \<Longrightarrow> keeps sod ctx d"
  by (simp add: keeps_def)

lemma keeps_upd [simp]:
  "keeps sod ctx (ctx_state_update f_state c) = keeps sod ctx c"
  "keeps sod ctx (ctx_hs_update f_hs c) = keeps sod ctx c"
  "keeps sod ctx (ctx_error_update f_error c) = keeps sod ctx c"
  "keeps sod ctx (ctx_error_msg_update f_error_msg c) = keeps sod ctx c"
  "keeps sod ctx (ctx_server_id_pk_update f_server_id_pk c) = keeps sod ctx c"
  "keeps sod ctx (ctx_have_server_id_pk_update f_have_server_id_pk c) = keeps sod ctx c"
  "keeps sod ctx (ctx_eph_pk_update f_eph_pk c) = keeps sod ctx c"
  "keeps sod ctx (ctx_eph_sk_update f_eph_sk c) = keeps sod ctx c"
  "keeps sod ctx (ctx_peer_eph_pk_update f_peer_eph_pk c) = keeps sod ctx c"
  "keeps sod ctx (ctx_peer_id_pk_update f_peer_id_pk c) = keeps sod ctx c"
  "keeps sod ctx (ctx_have_peer_eph_update f_have_peer_eph c) = keeps sod ctx c"
  "keeps sod ctx (ctx_have_peer_id_update f_have_peer_id c) = keeps sod ctx c"
  "keeps sod ctx (ctx_ss_key_c2s_update f_ss_key_c2s c) = keeps sod ctx c"
  "keeps sod ctx (ctx_ss_key_s2c_update f_ss_key_s2c c) = keeps sod ctx c"
  "keeps sod ctx (ctx_ss_push_update f_ss_push c) = keeps sod ctx c"
  "keeps sod ctx (ctx_ss_pull_update f_ss_pull c) = keeps sod ctx c"
  "keeps sod ctx (ctx_ss_push_ready_update f_ss_push_ready c) = keeps sod ctx c"
  "keeps sod ctx (ctx_ss_pull_ready_update f_ss_pull_ready c) = keeps sod ctx c"
  "keeps sod ctx (ctx_t_hello_update f_t_hello c) = keeps sod ctx c"
  "keeps sod ctx (ctx_have_t_hello_update f_have_t_hello c) = keeps sod ctx c"
  "keeps sod ctx (ctx_auth_sent_update f_auth_sent c) = keeps sod ctx c"
  "keeps sod ctx (ctx_auth_awaiting_decide_update f_auth_awaiting_decide c) = keeps sod ctx c"
  "keeps sod ctx (ctx_auth_decided_update f_auth_decided c) = keeps sod ctx c"
  "keeps sod ctx (ctx_auth_complete_update f_auth_complete c) = keeps sod ctx c"
  "keeps sod ctx (ctx_draws_update f_draws c) = keeps sod ctx c"
  by (simp_all add: keeps_def)

lemma keeps_emit [simp]: "keeps sod ctx c \<Longrightarrow> keeps sod ctx (emit ev c)"
  by (simp add: keeps_def)

lemma keeps_set_error [simp]: "keeps sod ctx c \<Longrightarrow> keeps sod ctx (sodchan_i_set_error e m c)"
  by (simp add: keeps_def)

lemma keeps_send:
  "ss_send_pdu sod pl c = (r, d) \<Longrightarrow> keeps sod ctx c \<Longrightarrow> keeps sod ctx d"
  using ss_send_pdu_out_wf [of c sod pl] fixed_part_ops(3) [of sod pl c] ss_send_pdu_rings(1) [of sod pl c]
    ss_send_pdu_frame [of sod pl c]
  by (auto simp: keeps_def)

lemma keeps_append:
  "out_append_frame b c = (r, d) \<Longrightarrow> keeps sod ctx c \<Longrightarrow> keeps sod ctx d"
  using out_wf_append_frame [of c b] fixed_part_ops(4) [of b c] out_append_rings(3) [of b c]
    out_append_frame_frame [of b c]
  by (auto simp: keeps_def)

section \<open>Properties\<close>

text \<open>
  C10. Sending a PDU is all or nothing. When \<^verbatim>\<open>ss_send_pdu\<close> answers OK, one frame
  was appended to the pending output, a peer with the same record limit cuts
  exactly that frame off its input, and decrypting it yields the plaintext with
  both secretstream states in step again. Otherwise the pending output and the
  push state are as before. The output bound holds either way.
\<close>

theorem ss_send_pdu_delivers:
  assumes "stream_law sod paired" and "paired (ctx_ss_push ctx) r" and "out_wf ctx"
    and "ctx_max_record_size peer = ctx_max_record_size ctx"
    and "ss_send_pdu sod pl ctx = (rc, ctx')"
  shows "out_wf ctx' \<and>
    (if rc = SODCHAN_OK
     then \<exists>p ct r'. pl = Some p \<and>
       out_pending ctx' = out_pending ctx @ wire_frame (ss_frame_max_body peer) ct \<and>
       sodchan_wire_frame_parse_max (Some (wire_frame (ss_frame_max_body peer) ct @ rest))
         (ss_frame_max_body peer) = Inr (ct, 4 + length ct) \<and>
       crypto_secretstream_pull sod r ct = Some (r', p, TAG_MESSAGE) \<and>
       paired (ctx_ss_push ctx') r'
     else out_pending ctx' = out_pending ctx \<and> ctx_ss_push ctx' = ctx_ss_push ctx)"
proof (cases rule: ss_send_pdu_cases [of pl ctx sod])
  case (sent p st ct)
  have short: "length p < 2 ^ 32"
    using sent(2) ss_frame_max_body_bound [of ctx] by (simp add: ss_fits_def SODCHAN_IN_BUF_SIZE_def)
  obtain r' where len: "length ct = length p + SODCHAN_SS_ABYTES"
    and pull: "crypto_secretstream_pull sod r ct = Some (r', p, TAG_MESSAGE)" and pair: "paired st r'"
    by (rule stream_law_push [OF assms(1,2) short sent(3)])
  have lim: "ss_frame_max_body peer = ss_frame_max_body ctx"
    by (rule ss_frame_max_body_cong) (rule assms(4))
  have ok: "frame_ok (ss_frame_max_body peer) ct"
    using sent(2) len by (auto simp: frame_ok_def ss_fits_def lim)
  have len': "length (wire_frame (ss_frame_max_body peer) ct) = 4 + length ct"
    by (simp add: wire_frame_eq [OF ok])
  have parse: "sodchan_wire_frame_parse_max (Some (wire_frame (ss_frame_max_body peer) ct @ rest))
      (ss_frame_max_body peer) = Inr (ct, 4 + length ct)"
    using wf.parse_frame_append [OF ok] unfolding len' .
  have out: "out_pending ctx' = out_pending ctx @ wire_frame (ss_frame_max_body peer) ct"
    using sent(4) assms(5) by (auto simp: wire_frame_eq [OF ok] out_pending_def)
  have "out_wf ctx'"
    using sent(2,4) len assms(5) length_out_pending_le [OF assms(3)]
    by (auto simp: out_wf_def ss_fits_def)
  with sent assms(5) out parse pull pair show ?thesis by auto
next
  case (same r0)
  with assms(3,5) show ?thesis by auto
next
  case (compacted r0)
  with assms(3,5) show ?thesis by auto
qed

theorem ss_send_pdu_delivers_witness:
  "\<exists>ct. out_pending (snd (ss_send_pdu sample_sodium (Some [8, 7])
        (zero_ctx (replicate 32 5) ROLE_CLIENT\<lparr> ctx_ss_push_ready := True, ctx_max_record_size := 100 \<rparr>)))
      = wire_frame 117 ct
    \<and> crypto_secretstream_pull sample_sodium (replicate 32 5) ct = Some (replicate 32 5, [8, 7], 0)"
proof -
  let ?ctx = "zero_ctx (replicate 32 5) ROLE_CLIENT\<lparr> ctx_ss_push_ready := True, ctx_max_record_size := 100 \<rparr>"
  have lim: "ss_frame_max_body ?ctx = 117"
    by (simp add: ss_frame_max_body_def SODCHAN_SS_ABYTES_def SODCHAN_IN_BUF_SIZE_def)
  have wf: "out_wf ?ctx" by (simp add: out_wf_def)
  have fits: "ss_fits ?ctx [8, 7]"
    by (simp add: ss_fits_def lim out_pending_def SODCHAN_SS_ABYTES_def SODCHAN_OUT_BUF_SIZE_def)
  have push: "crypto_secretstream_push sample_sodium (ctx_ss_push ?ctx) [8, 7] TAG_MESSAGE
      = Some (ctx_ss_push ?ctx, 0 # [8, 7] @ replicate 16 0)"
    by (simp add: sample_sodium_def TAG_MESSAGE_def)
  obtain rc c where rc: "ss_send_pdu sample_sodium (Some [8, 7]) ?ctx = (rc, c)"
    by (cases "ss_send_pdu sample_sodium (Some [8, 7]) ?ctx")
  with ss_send_pdu_fits [OF fits push] have "rc = SODCHAN_OK" by simp
  with ss_send_pdu_delivers [OF sample_stream_law refl wf refl rc, of "[]"] rc push
  show ?thesis
    using ss_send_pdu_fits [OF fits push]
    by (auto simp: lim out_pending_def TAG_MESSAGE_def)
qed

end
