(* ===== verification/Auth.thy ===== *)
theory Auth
  imports Record_Layer
begin

text \<open>
  The authentication phase of \<^verbatim>\<open>src/sodchan.c\<close>: the client's AUTH_DEVICE
  (\<^verbatim>\<open>client_send_auth_device\<close>), the server's check of it
  (\<^verbatim>\<open>handle_auth_device_pdu\<close>), the host's decision
  (\<^verbatim>\<open>sodchan_auth_decide_ex\<close>) and the client's handling of the answer.
\<close>

section \<open>Definitions\<close>

definition SODCHAN_AUTH_REASON_UNSPEC :: int where "SODCHAN_AUTH_REASON_UNSPEC = 0"
definition SODCHAN_AUTH_REASON_BAD_SIG :: int where "SODCHAN_AUTH_REASON_BAD_SIG = 1"
definition SODCHAN_AUTH_REASON_POLICY :: int where "SODCHAN_AUTH_REASON_POLICY = 4"

definition emit_authenticated :: "'ss sodchan_ctx \<Rightarrow> 'ss sodchan_ctx" where
  "emit_authenticated ctx = emit EVENT_AUTHENTICATED ctx"

definition emit_auth_failed :: "int \<Rightarrow> string \<Rightarrow> 'ss sodchan_ctx \<Rightarrow> 'ss sodchan_ctx" where
  "emit_auth_failed reason msg ctx =
     emit (EVENT_AUTH_FAILED reason (take (SODCHAN_ERROR_MAX - 1) msg)) ctx"

text \<open>
  The username and the device id of AUTH_DEVICE: the configured C string (the
  empty one for NULL), with its length cut to the limit.
\<close>

definition advisory_text :: "span \<Rightarrow> nat \<Rightarrow> bytes" where
  "advisory_text text limit =
     (let s = cstr (case text of Some s \<Rightarrow> s | None \<Rightarrow> []);
          len = (if length s > limit then limit else length s) in
      take len s)"

definition client_send_auth_device ::
    "('ss, 'gh) sodium \<Rightarrow> 'ss sodchan_ctx \<Rightarrow> rc \<times> 'ss sodchan_ctx" where
  "client_send_auth_device sod ctx =
     (if ctx_role ctx \<noteq> ROLE_CLIENT \<or> ctx_auth_sent ctx then (SODCHAN_OK, ctx)
      else if \<not> ctx_have_client_id_sk ctx \<or> \<not> ctx_have_client_id_pk ctx \<or> \<not> ctx_have_t_hello ctx
      then (SODCHAN_OK, ctx)
      else
        let user = advisory_text (ctx_client_username ctx) SODCHAN_USER_MAX;
            dev = advisory_text (ctx_client_device_id ctx) SODCHAN_DEVICE_ID_MAX in
        (case sodchan_wire_build_t_auth (ctx_t_hello ctx) (ctx_client_id_pk ctx)
                (Some user) (Some dev) (Some 512) of
           Inl _ \<Rightarrow> (SODCHAN_ERR_PROTOCOL, ctx)
         | Inr t_auth \<Rightarrow>
             (case crypto_sign_detached sod t_auth (ctx_client_id_sk ctx) of
                None \<Rightarrow> (SODCHAN_ERR_CRYPTO, ctx)
              | Some sig \<Rightarrow>
                  (case sodchan_wire_auth_device_encode (ctx_client_id_pk ctx) sig
                          (Some user) (Some dev) (Some 512) of
                     Inl _ \<Rightarrow> (SODCHAN_ERR_PROTOCOL, ctx)
                   | Inr pdu \<Rightarrow>
                       (case ss_send_pdu sod (Some pdu) ctx of
                          (rc, ctx) \<Rightarrow>
                            if rc \<noteq> SODCHAN_OK then (SODCHAN_ERR_FULL, ctx)
                            else (SODCHAN_OK, ctx\<lparr> ctx_auth_sent := True \<rparr>))))))"

definition server_send_auth_fail ::
    "('ss, 'gh) sodium \<Rightarrow> 'ss sodchan_ctx \<Rightarrow> rc \<times> 'ss sodchan_ctx" where
  "server_send_auth_fail sod ctx =
     (case sodchan_wire_auth_fail_encode (Some 8) of
        Inl _ \<Rightarrow> (SODCHAN_ERR_PROTOCOL, ctx)
      | Inr pdu \<Rightarrow> ss_send_pdu sod (Some pdu) ctx)"

definition server_send_auth_ok ::
    "('ss, 'gh) sodium \<Rightarrow> span \<Rightarrow> 'ss sodchan_ctx \<Rightarrow> rc \<times> 'ss sodchan_ctx" where
  "server_send_auth_ok sod claims ctx =
     (case sodchan_wire_auth_ok_encode claims (Some (3 + SODCHAN_CLAIMS_MAX)) of
        Inl _ \<Rightarrow> (SODCHAN_ERR_PARAM, ctx)
      | Inr pdu \<Rightarrow> ss_send_pdu sod (Some pdu) ctx)"

definition handle_auth_device_pdu ::
    "('ss, 'gh) sodium \<Rightarrow> bytes \<Rightarrow> 'ss sodchan_ctx \<Rightarrow> int \<times> 'ss sodchan_ctx" where
  "handle_auth_device_pdu sod plain ctx =
     (if ctx_role ctx \<noteq> ROLE_SERVER
      then err_ret SODCHAN_ERR_PROTOCOL ''AUTH_DEVICE to client'' ctx
      else if ctx_auth_awaiting_decide ctx \<or> ctx_auth_complete ctx \<or> ctx_auth_decided ctx
      then err_ret SODCHAN_ERR_PROTOCOL ''duplicate AUTH_DEVICE'' ctx
      else if \<not> ctx_have_t_hello ctx
      then err_ret SODCHAN_ERR_STATE ''missing t_hello'' ctx
      else
        (case sodchan_wire_auth_device_decode (Some plain) (SODCHAN_USER_MAX + 1)
                (SODCHAN_DEVICE_ID_MAX + 1) of
           Inl _ \<Rightarrow> err_ret SODCHAN_ERR_PROTOCOL ''AUTH_DEVICE decode'' ctx
         | Inr (client_pk, sig, user, ulen, device, dlen) \<Rightarrow>
             (case sodchan_wire_build_t_auth (ctx_t_hello ctx) client_pk
                     (Some (take ulen user)) (Some (take dlen device)) (Some 512) of
                Inl _ \<Rightarrow> err_ret SODCHAN_ERR_PROTOCOL ''t_auth build'' ctx
              | Inr t_auth \<Rightarrow>
                  if \<not> crypto_sign_verify_detached sod sig t_auth client_pk then
                    (let ctx = snd (server_send_auth_fail sod ctx);
                         ctx = emit_auth_failed SODCHAN_AUTH_REASON_BAD_SIG ''bad device sig'' ctx in
                     err_ret SODCHAN_ERR_CRYPTO ''AUTH_DEVICE bad signature'' ctx)
                  else
                    (let ctx = ctx\<lparr> ctx_peer_id_pk := client_pk, ctx_have_peer_id := True \<rparr>;
                         fp = cstr (encoded (sodchan_pubkey_fingerprint_sha256 sod client_pk
                                (Some SODCHAN_FP_SHA256_MAX)));
                         ev = EVENT_AUTH_DEVICE client_pk
                                (snprintf_s (SODCHAN_USER_MAX + 1) user)
                                (snprintf_s (SODCHAN_DEVICE_ID_MAX + 1) device) fp True in
                     (0, (emit ev ctx)\<lparr> ctx_auth_awaiting_decide := True \<rparr>)))))"

definition handle_auth_ok_pdu :: "bytes \<Rightarrow> 'ss sodchan_ctx \<Rightarrow> int \<times> 'ss sodchan_ctx" where
  "handle_auth_ok_pdu plain ctx =
     (if ctx_role ctx \<noteq> ROLE_CLIENT
      then err_ret SODCHAN_ERR_PROTOCOL ''AUTH_OK to server'' ctx
      else
        (case sodchan_wire_auth_ok_decode (Some plain) of
           Inl _ \<Rightarrow> err_ret SODCHAN_ERR_PROTOCOL ''AUTH_OK decode'' ctx
         | Inr claims \<Rightarrow>
             (0, emit_authenticated (ctx\<lparr> ctx_auth_complete := True, ctx_state := STATE_READY \<rparr>))))"

definition handle_auth_fail_pdu :: "bytes \<Rightarrow> 'ss sodchan_ctx \<Rightarrow> int \<times> 'ss sodchan_ctx" where
  "handle_auth_fail_pdu plain ctx =
     (case sodchan_wire_auth_fail_decode (Some plain) of
        Inl _ \<Rightarrow> err_ret SODCHAN_ERR_PROTOCOL ''AUTH_FAIL decode'' ctx
      | Inr (reason, msg_len) \<Rightarrow>
          err_ret SODCHAN_ERR_REJECTED ''authentication failed''
            (emit_auth_failed SODCHAN_AUTH_REASON_UNSPEC ''AUTH_FAIL received'' ctx))"

definition sodchan_auth_decide_ex ::
    "('ss, 'gh) sodium \<Rightarrow> bool \<Rightarrow> span \<Rightarrow> 'ss sodchan_ctx \<Rightarrow> rc \<times> 'ss sodchan_ctx" where
  "sodchan_auth_decide_ex sod accept claims ctx =
     (if ctx_role ctx \<noteq> ROLE_SERVER then (SODCHAN_ERR_STATE, ctx)
      else if \<not> ctx_auth_awaiting_decide ctx \<or> ctx_auth_decided ctx then (SODCHAN_ERR_STATE, ctx)
      else if ctx_state ctx \<noteq> STATE_AUTH then (SODCHAN_ERR_STATE, ctx)
      else
        (case claims of
           None \<Rightarrow> (SODCHAN_ERR_PARAM, ctx)
         | Some c \<Rightarrow>
             if length c > SODCHAN_CLAIMS_MAX then (SODCHAN_ERR_PARAM, ctx)
             else
               let ctx = ctx\<lparr> ctx_auth_awaiting_decide := False, ctx_auth_decided := True \<rparr> in
               if accept then
                 (case server_send_auth_ok sod claims ctx of
                    (rc, ctx) \<Rightarrow>
                      if rc \<noteq> SODCHAN_OK
                      then (SODCHAN_ERR_FULL, sodchan_i_set_error SODCHAN_ERR_FULL ''AUTH_OK send'' ctx)
                      else (SODCHAN_OK, emit_authenticated
                              (ctx\<lparr> ctx_auth_complete := True, ctx_state := STATE_READY \<rparr>)))
               else
                 (case server_send_auth_fail sod ctx of
                    (rc, ctx) \<Rightarrow>
                      if rc \<noteq> SODCHAN_OK
                      then (SODCHAN_ERR_FULL, sodchan_i_set_error SODCHAN_ERR_FULL ''AUTH_FAIL send'' ctx)
                      else (SODCHAN_OK, sodchan_i_set_error SODCHAN_ERR_REJECTED ''authentication rejected''
                              (emit_auth_failed SODCHAN_AUTH_REASON_POLICY ''auth_decide reject'' ctx)))))"

definition sodchan_auth_decide ::
    "('ss, 'gh) sodium \<Rightarrow> bool \<Rightarrow> 'ss sodchan_ctx \<Rightarrow> rc \<times> 'ss sodchan_ctx" where
  "sodchan_auth_decide sod accept ctx = sodchan_auth_decide_ex sod accept (Some []) ctx"

section \<open>What the authentication phase leaves alone\<close>

lemma auth_sends_session_part [simp]:
  "session_part (snd (server_send_auth_fail sod ctx)) = session_part ctx"
  "session_part (snd (server_send_auth_ok sod cl ctx)) = session_part ctx"
  by (simp_all add: server_send_auth_fail_def server_send_auth_ok_def split: sum.split)

lemma auth_sends_frame [simp]:
  "ctx_state (snd (server_send_auth_fail sod ctx)) = ctx_state ctx"
  "ctx_state (snd (server_send_auth_ok sod cl ctx)) = ctx_state ctx"
  "ring_wf (snd (server_send_auth_fail sod ctx)) = ring_wf ctx"
  "ring_wf (snd (server_send_auth_ok sod cl ctx)) = ring_wf ctx"
  by (simp_all add: server_send_auth_fail_def server_send_auth_ok_def split: sum.split)

lemma auth_sends_keep:
  "server_send_auth_fail sod c = (r, d) \<Longrightarrow> keeps sod ctx c \<Longrightarrow> keeps sod ctx d"
  "server_send_auth_ok sod cl c = (r, d) \<Longrightarrow> keeps sod ctx c \<Longrightarrow> keeps sod ctx d"
  by (auto simp: server_send_auth_fail_def server_send_auth_ok_def split: sum.splits intro: keeps_send)

lemma client_send_auth_device_keeps:
  assumes "client_send_auth_device sod c = (r, d)" and "keeps sod ctx c"
  shows "keeps sod ctx d"
  using assms unfolding client_send_auth_device_def Let_def
  by (auto split: sum.splits option.splits prod.splits if_splits intro: keeps_send)

lemma handle_auth_device_pdu_keeps:
  assumes "handle_auth_device_pdu sod p c = (r, d)" and "keeps sod ctx c"
  shows "keeps sod ctx d"
proof -
  have fail: "keeps sod ctx (snd (server_send_auth_fail sod c))"
    using auth_sends_keep(1) [OF _ assms(2)] by (metis prod.collapse)
  with assms show ?thesis
    unfolding handle_auth_device_pdu_def Let_def emit_auth_failed_def
    by (auto split: sum.splits prod.splits if_splits)
qed

lemma handle_auth_ok_pdu_keeps: "handle_auth_ok_pdu p c = (r, d) \<Longrightarrow> keeps sod ctx c \<Longrightarrow> keeps sod ctx d"
  by (auto simp: handle_auth_ok_pdu_def emit_authenticated_def split: sum.splits if_splits)

lemma handle_auth_fail_pdu_keeps: "handle_auth_fail_pdu p c = (r, d) \<Longrightarrow> keeps sod ctx c \<Longrightarrow> keeps sod ctx d"
  by (auto simp: handle_auth_fail_pdu_def emit_auth_failed_def split: sum.splits)

lemma auth_decide_ex_keeps:
  assumes "sodchan_auth_decide_ex sod acc cl c = (r, d)" and "keeps sod ctx c"
  shows "keeps sod ctx d"
  using assms unfolding sodchan_auth_decide_ex_def Let_def emit_authenticated_def emit_auth_failed_def
  by (auto split: option.splits prod.splits if_splits dest!: auth_sends_keep [where ctx = ctx])

section \<open>The part the authentication rests on\<close>

text \<open>Keys, peer identity, transcript and the decision flags.\<close>

definition auth_part where
  "auth_part ctx =
    (ctx_role ctx, ctx_accept_any_server_pk ctx, ctx_eph_pk ctx, ctx_eph_sk ctx, ctx_peer_eph_pk ctx,
  ctx_peer_id_pk ctx, ctx_have_peer_eph ctx, ctx_have_peer_id ctx, ctx_server_id_pk ctx,
  ctx_have_server_id_pk ctx, ctx_t_hello ctx, ctx_have_t_hello ctx, ctx_auth_awaiting_decide ctx,
  ctx_auth_decided ctx, ctx_auth_complete ctx)"

lemma auth_part_upd [simp]:
  "auth_part (ctx_state_update f_state ctx) = auth_part ctx"
  "auth_part (ctx_hs_update f_hs ctx) = auth_part ctx"
  "auth_part (ctx_error_update f_error ctx) = auth_part ctx"
  "auth_part (ctx_error_msg_update f_error_msg ctx) = auth_part ctx"
  "auth_part (ctx_ss_key_c2s_update f_ss_key_c2s ctx) = auth_part ctx"
  "auth_part (ctx_ss_key_s2c_update f_ss_key_s2c ctx) = auth_part ctx"
  "auth_part (ctx_ss_push_update f_ss_push ctx) = auth_part ctx"
  "auth_part (ctx_ss_pull_update f_ss_pull ctx) = auth_part ctx"
  "auth_part (ctx_ss_push_ready_update f_ss_push_ready ctx) = auth_part ctx"
  "auth_part (ctx_ss_pull_ready_update f_ss_pull_ready ctx) = auth_part ctx"
  "auth_part (ctx_auth_sent_update f_auth_sent ctx) = auth_part ctx"
  "auth_part (ctx_channels_update f_channels ctx) = auth_part ctx"
  "auth_part (ctx_next_local_channel_id_update f_next_local_channel_id ctx) = auth_part ctx"
  "auth_part (ctx_active_channels_update f_active_channels ctx) = auth_part ctx"
  "auth_part (ctx_out_buf_update f_out_buf ctx) = auth_part ctx"
  "auth_part (ctx_out_off_update f_out_off ctx) = auth_part ctx"
  "auth_part (ctx_in_buf_update f_in_buf ctx) = auth_part ctx"
  "auth_part (ctx_events_update f_events ctx) = auth_part ctx"
  "auth_part (ctx_event_cap_update f_event_cap ctx) = auth_part ctx"
  "auth_part (ctx_event_head_update f_event_head ctx) = auth_part ctx"
  "auth_part (ctx_event_count_update f_event_count ctx) = auth_part ctx"
  "auth_part (ctx_draws_update f_draws ctx) = auth_part ctx"
  by (simp_all add: auth_part_def)

lemma auth_part_fields:
  assumes "auth_part c = auth_part ctx"
  shows
  "ctx_role c = ctx_role ctx" "ctx_accept_any_server_pk c = ctx_accept_any_server_pk ctx"
  "ctx_eph_pk c = ctx_eph_pk ctx" "ctx_eph_sk c = ctx_eph_sk ctx"
  "ctx_peer_eph_pk c = ctx_peer_eph_pk ctx" "ctx_peer_id_pk c = ctx_peer_id_pk ctx"
  "ctx_have_peer_eph c = ctx_have_peer_eph ctx" "ctx_have_peer_id c = ctx_have_peer_id ctx"
  "ctx_server_id_pk c = ctx_server_id_pk ctx" "ctx_have_server_id_pk c = ctx_have_server_id_pk ctx"
  "ctx_t_hello c = ctx_t_hello ctx" "ctx_have_t_hello c = ctx_have_t_hello ctx"
  "ctx_auth_awaiting_decide c = ctx_auth_awaiting_decide ctx"
  "ctx_auth_decided c = ctx_auth_decided ctx" "ctx_auth_complete c = ctx_auth_complete ctx"
  using assms by (simp_all add: auth_part_def)

lemma auth_part_session:
  "session_part c = session_part ctx \<Longrightarrow> auth_part c = auth_part ctx"
  unfolding auth_part_def by (simp add: session_part_fields [of c ctx])

lemma auth_part_ops [simp]:
  "auth_part (emit ev ctx) = auth_part ctx"
  "auth_part (sodchan_i_set_error code msg ctx) = auth_part ctx"
  "auth_part (snd (ss_send_pdu sod pl ctx)) = auth_part ctx"
  "auth_part (snd (out_append_frame b ctx)) = auth_part ctx"
  "auth_part (snd (server_send_auth_fail sod ctx)) = auth_part ctx"
  "auth_part (snd (server_send_auth_ok sod cl ctx)) = auth_part ctx"
proof -
  show "auth_part (snd (out_append_frame b ctx)) = auth_part ctx" by (simp add: auth_part_def)
qed (rule auth_part_session; simp)+

text \<open>The same as rules for a pair that an operation returned.\<close>

lemma auth_part_pairs:
  "ss_send_pdu sod pl ctx = (r, c) \<Longrightarrow> auth_part c = auth_part ctx"
  "out_append_frame b ctx = (r, c) \<Longrightarrow> auth_part c = auth_part ctx"
  "server_send_auth_fail sod ctx = (r, c) \<Longrightarrow> auth_part c = auth_part ctx"
  "server_send_auth_ok sod cl ctx = (r, c) \<Longrightarrow> auth_part c = auth_part ctx"
  using auth_part_ops(3) [of sod pl ctx] auth_part_ops(4) [of b ctx] auth_part_ops(5) [of sod ctx]
    auth_part_ops(6) [of sod cl ctx] by simp_all

lemma client_send_auth_device_auth:
  assumes "client_send_auth_device sod ctx = (r, c)"
  shows "auth_part c = auth_part ctx"
  using assms unfolding client_send_auth_device_def Let_def
  by (auto split: sum.splits option.splits prod.splits if_splits dest: auth_part_pairs(1))

text \<open>An answer other than 0 means the session is in the error state.\<close>

lemma handle_auth_error:
  "handle_auth_device_pdu sod p ctx = (r, c) \<Longrightarrow> r \<noteq> 0 \<Longrightarrow> ctx_state c = STATE_ERROR"
  "handle_auth_ok_pdu p ctx = (r, c) \<Longrightarrow> r \<noteq> 0 \<Longrightarrow> ctx_state c = STATE_ERROR"
  "handle_auth_fail_pdu p ctx = (r, c) \<Longrightarrow> ctx_state c = STATE_ERROR"
  by (auto simp: handle_auth_device_pdu_def handle_auth_ok_pdu_def handle_auth_fail_pdu_def Let_def
      split: if_splits sum.splits prod.splits)

text \<open>What a signature check that passed leaves behind.\<close>

definition device_verified :: "('ss, 'gh) sodium \<Rightarrow> 'ss sodchan_ctx \<Rightarrow> bool" where
  "device_verified sod ctx \<longleftrightarrow> ctx_have_t_hello ctx \<and> ctx_have_peer_id ctx \<and>
     (\<exists>user dev t_auth sig.
        sodchan_wire_build_t_auth (ctx_t_hello ctx) (ctx_peer_id_pk ctx) (Some user) (Some dev) (Some 512)
          = Inr t_auth
        \<and> crypto_sign_verify_detached sod sig t_auth (ctx_peer_id_pk ctx))"

lemma device_verified_cong:
  "auth_part c = auth_part ctx \<Longrightarrow> device_verified sod c = device_verified sod ctx"
  by (simp add: device_verified_def auth_part_fields [of c ctx])

lemma handle_auth_device_pdu_ok:
  assumes "handle_auth_device_pdu sod p ctx = (0, c)"
  shows "ctx_role ctx = ROLE_SERVER" "\<not> ctx_auth_awaiting_decide ctx" "\<not> ctx_auth_complete ctx"
    "\<not> ctx_auth_decided ctx" "device_verified sod c" "ctx_auth_awaiting_decide c"
    "\<not> ctx_auth_complete c" "\<not> ctx_auth_decided c" "ctx_state c = ctx_state ctx" "ctx_hs c = ctx_hs ctx"
    "ctx_ss_push_ready c = ctx_ss_push_ready ctx" "ctx_ss_pull_ready c = ctx_ss_pull_ready ctx"
    "ctx_t_hello c = ctx_t_hello ctx" "ctx_have_peer_eph c = ctx_have_peer_eph ctx"
  using assms unfolding handle_auth_device_pdu_def Let_def device_verified_def
  by (auto split: if_splits sum.splits prod.splits) blast

lemma handle_auth_ok_pdu_ok:
  assumes "handle_auth_ok_pdu p ctx = (0, c)"
  shows "ctx_role ctx = ROLE_CLIENT \<and> c = emit EVENT_AUTHENTICATED
           (ctx\<lparr> ctx_auth_complete := True, ctx_state := STATE_READY \<rparr>)"
  using assms by (auto simp: handle_auth_ok_pdu_def emit_authenticated_def split: if_splits sum.splits)

end
