(* ===== verification/Handshake.thy ===== *)
theory Handshake
  imports Auth
begin

text \<open>
  The handshake of \<^verbatim>\<open>src/sodchan.c\<close>: key exchange and key derivation, the
  two HELLOs (\<^verbatim>\<open>queue_local_hello\<close>, \<^verbatim>\<open>handle_peer_hello\<close>), the secretstream
  headers (\<^verbatim>\<open>handle_peer_ss_header\<close>) and \<^verbatim>\<open>handshake_start\<close>.
\<close>

section \<open>Definitions\<close>

definition derive_ss_keys_client ::
    "('ss, 'gh) sodium \<Rightarrow> 'ss sodchan_ctx \<Rightarrow> rc \<times> 'ss sodchan_ctx" where
  "derive_ss_keys_client sod ctx =
     (case crypto_kx_client_session_keys sod (ctx_eph_pk ctx) (ctx_eph_sk ctx) (ctx_peer_eph_pk ctx) of
        None \<Rightarrow> (SODCHAN_ERR_CRYPTO, ctx)
      | Some (rx, tx) \<Rightarrow>
          (case sodchan_crypto_ss_key_derive sod tx SODCHAN_DOM_SS_C2S of
             Inl _ \<Rightarrow> (SODCHAN_ERR_CRYPTO, ctx)
           | Inr k \<Rightarrow>
               let ctx = ctx\<lparr> ctx_ss_key_c2s := k \<rparr> in
               (case sodchan_crypto_ss_key_derive sod rx SODCHAN_DOM_SS_S2C of
                  Inl _ \<Rightarrow> (SODCHAN_ERR_CRYPTO, ctx)
                | Inr k \<Rightarrow> (SODCHAN_OK, ctx\<lparr> ctx_ss_key_s2c := k \<rparr>))))"

definition derive_ss_keys_server ::
    "('ss, 'gh) sodium \<Rightarrow> 'ss sodchan_ctx \<Rightarrow> rc \<times> 'ss sodchan_ctx" where
  "derive_ss_keys_server sod ctx =
     (case crypto_kx_server_session_keys sod (ctx_eph_pk ctx) (ctx_eph_sk ctx) (ctx_peer_eph_pk ctx) of
        None \<Rightarrow> (SODCHAN_ERR_CRYPTO, ctx)
      | Some (rx, tx) \<Rightarrow>
          (case sodchan_crypto_ss_key_derive sod rx SODCHAN_DOM_SS_C2S of
             Inl _ \<Rightarrow> (SODCHAN_ERR_CRYPTO, ctx)
           | Inr k \<Rightarrow>
               let ctx = ctx\<lparr> ctx_ss_key_c2s := k \<rparr> in
               (case sodchan_crypto_ss_key_derive sod tx SODCHAN_DOM_SS_S2C of
                  Inl _ \<Rightarrow> (SODCHAN_ERR_CRYPTO, ctx)
                | Inr k \<Rightarrow> (SODCHAN_OK, ctx\<lparr> ctx_ss_key_s2c := k \<rparr>))))"

text \<open>The encoding of the role in a HELLO.\<close>

primrec role_code :: "sodchan_role \<Rightarrow> u16" where
  "role_code ROLE_SERVER = SODCHAN_ROLE_SERVER"
| "role_code ROLE_CLIENT = SODCHAN_ROLE_CLIENT"

definition queue_local_hello ::
    "('ss, 'gh) sodium \<Rightarrow> 'ss sodchan_ctx \<Rightarrow> rc \<times> 'ss sodchan_ctx" where
  "queue_local_hello sod ctx =
     (let h = \<lparr> h_proto_version = SODCHAN_PROTO_VERSION, h_suite_id = SODCHAN_SUITE_V1,
                h_role = role_code (ctx_role ctx), h_flags = 0, h_eph_pk = ctx_eph_pk ctx,
                h_id_pk = replicate 32 0, h_id_sig = replicate 64 0 \<rparr>;
          send = (\<lambda>h ctx.
            (case sodchan_wire_hello_encode h (Some SODCHAN_HELLO_BODY_LEN) of
               Inl e \<Rightarrow> (e, ctx)
             | Inr body \<Rightarrow> out_append_frame body ctx)) in
      if ctx_role ctx = ROLE_SERVER then
        if \<not> ctx_have_peer_eph ctx then (SODCHAN_ERR_STATE, ctx)
        else
          (case sodchan_wire_build_t_hello SODCHAN_PROTO_VERSION SODCHAN_SUITE_V1
                  (ctx_peer_eph_pk ctx) (ctx_eph_pk ctx) (ctx_server_id_pk ctx)
                  (Some SODCHAN_T_HELLO_LEN) of
             Inl _ \<Rightarrow> (SODCHAN_ERR_PROTOCOL, ctx)
           | Inr t \<Rightarrow>
               let ctx = ctx\<lparr> ctx_t_hello := t, ctx_have_t_hello := True \<rparr> in
               (case crypto_sign_detached sod (ctx_t_hello ctx) (ctx_server_id_sk ctx) of
                  None \<Rightarrow> (SODCHAN_ERR_CRYPTO, ctx)
                | Some sig \<Rightarrow>
                    send (h\<lparr> h_id_pk := ctx_server_id_pk ctx, h_id_sig := sig \<rparr>) ctx))
      else
        send (if ctx_have_client_id_pk ctx then h\<lparr> h_id_pk := ctx_client_id_pk ctx \<rparr> else h) ctx)"

definition client_send_ss_header_c2s ::
    "('ss, 'gh) sodium \<Rightarrow> 'ss sodchan_ctx \<Rightarrow> rc \<times> 'ss sodchan_ctx" where
  "client_send_ss_header_c2s sod ctx =
     (case crypto_secretstream_init_push sod (ctx_draws ctx) (ctx_ss_key_c2s ctx) of
        None \<Rightarrow> (SODCHAN_ERR_CRYPTO, ctx)
      | Some (st, header) \<Rightarrow>
          out_append_frame header
            (ctx\<lparr> ctx_ss_push := st, ctx_ss_push_ready := True, ctx_draws := ctx_draws ctx + 1 \<rparr>))"

definition server_send_ss_header_s2c ::
    "('ss, 'gh) sodium \<Rightarrow> 'ss sodchan_ctx \<Rightarrow> rc \<times> 'ss sodchan_ctx" where
  "server_send_ss_header_s2c sod ctx =
     (case crypto_secretstream_init_push sod (ctx_draws ctx) (ctx_ss_key_s2c ctx) of
        None \<Rightarrow> (SODCHAN_ERR_CRYPTO, ctx)
      | Some (st, header) \<Rightarrow>
          out_append_frame header
            (ctx\<lparr> ctx_ss_push := st, ctx_ss_push_ready := True, ctx_draws := ctx_draws ctx + 1 \<rparr>))"

definition emit_hello_received :: "'ss sodchan_ctx \<Rightarrow> 'ss sodchan_ctx" where
  "emit_hello_received ctx =
     emit (EVENT_HELLO_RECEIVED
       (if ctx_have_peer_id ctx then ctx_peer_id_pk ctx else replicate 32 0)) ctx"

definition emit_kx_complete :: "'ss sodchan_ctx \<Rightarrow> 'ss sodchan_ctx" where
  "emit_kx_complete ctx = emit EVENT_KX_COMPLETE ctx"

text \<open>The client's half of \<^verbatim>\<open>handle_peer_hello\<close>, after decoding.\<close>

definition handle_server_hello ::
    "('ss, 'gh) sodium \<Rightarrow> sodchan_hello \<Rightarrow> 'ss sodchan_ctx \<Rightarrow> int \<times> 'ss sodchan_ctx" where
  "handle_server_hello sod h ctx =
     (if h_role h \<noteq> SODCHAN_ROLE_SERVER
      then err_ret SODCHAN_ERR_PROTOCOL ''expected server HELLO'' ctx
      else if \<not> ctx_accept_any_server_pk ctx \<and>
              (\<not> ctx_have_server_id_pk ctx \<or>
               \<not> sodium_memcmp_eq sod (h_id_pk h) (ctx_server_id_pk ctx))
      then err_ret SODCHAN_ERR_PROTOCOL ''server pin mismatch'' ctx
      else
        let ctx = (if \<not> ctx_accept_any_server_pk ctx then ctx
                   else ctx\<lparr> ctx_server_id_pk := h_id_pk h, ctx_have_server_id_pk := True \<rparr>);
            ctx = ctx\<lparr> ctx_peer_eph_pk := h_eph_pk h, ctx_peer_id_pk := h_id_pk h,
                       ctx_have_peer_eph := True, ctx_have_peer_id := True \<rparr> in
        (case sodchan_wire_build_t_hello SODCHAN_PROTO_VERSION SODCHAN_SUITE_V1
                (ctx_eph_pk ctx) (ctx_peer_eph_pk ctx) (ctx_peer_id_pk ctx)
                (Some SODCHAN_T_HELLO_LEN) of
           Inl _ \<Rightarrow> err_ret SODCHAN_ERR_PROTOCOL ''t_hello build'' ctx
         | Inr t_hello \<Rightarrow>
             let ctx = ctx\<lparr> ctx_t_hello := t_hello, ctx_have_t_hello := True \<rparr> in
             if \<not> crypto_sign_verify_detached sod (h_id_sig h) t_hello (ctx_peer_id_pk ctx)
             then err_ret SODCHAN_ERR_CRYPTO ''server HELLO signature invalid'' ctx
             else
               (case derive_ss_keys_client sod (emit_hello_received ctx) of
                  (rc, ctx) \<Rightarrow>
                    if rc \<noteq> SODCHAN_OK then err_ret SODCHAN_ERR_CRYPTO ''kx client failed'' ctx
                    else
                      (case client_send_ss_header_c2s sod ctx of
                         (rc, ctx) \<Rightarrow>
                           if rc \<noteq> SODCHAN_OK
                           then err_ret SODCHAN_ERR_FULL ''ss header c2s enqueue'' ctx
                           else (0, ctx\<lparr> ctx_state := STATE_SS_HEADER,
                                         ctx_hs := HS_WAIT_PEER_SS \<rparr>)))))"

text \<open>The server's half.\<close>

definition handle_client_hello ::
    "('ss, 'gh) sodium \<Rightarrow> sodchan_hello \<Rightarrow> 'ss sodchan_ctx \<Rightarrow> int \<times> 'ss sodchan_ctx" where
  "handle_client_hello sod h ctx =
     (if h_role h \<noteq> SODCHAN_ROLE_CLIENT
      then err_ret SODCHAN_ERR_PROTOCOL ''expected client HELLO'' ctx
      else
        let ctx = ctx\<lparr> ctx_peer_eph_pk := h_eph_pk h, ctx_have_peer_eph := True \<rparr>;
            ctx = (if \<not> sodium_is_zero sod (h_id_pk h)
                   then ctx\<lparr> ctx_peer_id_pk := h_id_pk h, ctx_have_peer_id := True \<rparr> else ctx) in
        (case queue_local_hello sod (emit_hello_received ctx) of
           (rc, ctx) \<Rightarrow>
             if rc \<noteq> SODCHAN_OK then err_ret SODCHAN_ERR_CRYPTO ''server HELLO send'' ctx
             else
               (case derive_ss_keys_server sod ctx of
                  (rc, ctx) \<Rightarrow>
                    if rc \<noteq> SODCHAN_OK then err_ret SODCHAN_ERR_CRYPTO ''kx server failed'' ctx
                    else (0, ctx\<lparr> ctx_state := STATE_SS_HEADER, ctx_hs := HS_WAIT_PEER_SS \<rparr>))))"

definition handle_peer_hello ::
    "('ss, 'gh) sodium \<Rightarrow> bytes \<Rightarrow> 'ss sodchan_ctx \<Rightarrow> int \<times> 'ss sodchan_ctx" where
  "handle_peer_hello sod body ctx =
     (case sodchan_wire_hello_decode (Some body) of
        Inl _ \<Rightarrow> err_ret SODCHAN_ERR_PROTOCOL ''hello decode failed'' ctx
      | Inr h \<Rightarrow>
          if ctx_role ctx = ROLE_CLIENT then handle_server_hello sod h ctx
          else handle_client_hello sod h ctx)"

definition handle_peer_ss_header ::
    "('ss, 'gh) sodium \<Rightarrow> bytes \<Rightarrow> 'ss sodchan_ctx \<Rightarrow> int \<times> 'ss sodchan_ctx" where
  "handle_peer_ss_header sod body ctx =
     (if length body \<noteq> SODCHAN_SS_HEADER_BYTES
      then err_ret SODCHAN_ERR_PROTOCOL ''bad ss header length'' ctx
      else if ctx_role ctx = ROLE_CLIENT then
        (case crypto_secretstream_init_pull sod body (ctx_ss_key_s2c ctx) of
           None \<Rightarrow> err_ret SODCHAN_ERR_CRYPTO ''ss pull s2c failed'' ctx
         | Some st \<Rightarrow>
             (case client_send_auth_device sod (emit_kx_complete
                     (ctx\<lparr> ctx_ss_pull := st, ctx_ss_pull_ready := True, ctx_hs := HS_DONE,
                           ctx_state := STATE_AUTH \<rparr>)) of
                (rc, ctx) \<Rightarrow>
                  if rc \<noteq> SODCHAN_OK then err_ret SODCHAN_ERR_CRYPTO ''AUTH_DEVICE send'' ctx
                  else (0, ctx)))
      else
        (case crypto_secretstream_init_pull sod body (ctx_ss_key_c2s ctx) of
           None \<Rightarrow> err_ret SODCHAN_ERR_CRYPTO ''ss pull c2s failed'' ctx
         | Some st \<Rightarrow>
             (case server_send_ss_header_s2c sod
                     (ctx\<lparr> ctx_ss_pull := st, ctx_ss_pull_ready := True \<rparr>) of
                (rc, ctx) \<Rightarrow>
                  if rc \<noteq> SODCHAN_OK then err_ret SODCHAN_ERR_FULL ''ss header s2c enqueue'' ctx
                  else (0, emit_kx_complete
                          (ctx\<lparr> ctx_hs := HS_DONE, ctx_state := STATE_AUTH \<rparr>)))))"

definition handshake_start ::
    "('ss, 'gh) sodium \<Rightarrow> 'ss sodchan_ctx \<Rightarrow> rc \<times> 'ss sodchan_ctx" where
  "handshake_start sod ctx =
     (case crypto_kx_keypair sod (ctx_draws ctx) of
        None \<Rightarrow> (SODCHAN_ERR_CRYPTO, ctx)
      | Some (pk, sk) \<Rightarrow>
          let ctx = ctx\<lparr> ctx_eph_pk := pk, ctx_eph_sk := sk, ctx_draws := ctx_draws ctx + 1 \<rparr> in
          if ctx_role ctx = ROLE_CLIENT then
            (case queue_local_hello sod ctx of
               (rc, ctx) \<Rightarrow>
                 if rc \<noteq> SODCHAN_OK then (SODCHAN_ERR_FULL, ctx)
                 else (SODCHAN_OK, ctx\<lparr> ctx_state := STATE_HELLO, ctx_hs := HS_WAIT_PEER_HELLO \<rparr>))
          else (SODCHAN_OK, ctx\<lparr> ctx_state := STATE_HELLO, ctx_hs := HS_WAIT_PEER_HELLO \<rparr>))"

section \<open>What the handshake leaves alone\<close>

lemma derive_ss_keys_keep:
  "derive_ss_keys_client sod c = (r, d) \<Longrightarrow> keeps sod ctx c \<Longrightarrow> keeps sod ctx d"
  "derive_ss_keys_server sod c = (r, d) \<Longrightarrow> keeps sod ctx c \<Longrightarrow> keeps sod ctx d"
  by (auto simp: derive_ss_keys_client_def derive_ss_keys_server_def Let_def
      split: option.splits sum.splits)

lemma send_ss_header_keep:
  "client_send_ss_header_c2s sod c = (r, d) \<Longrightarrow> keeps sod ctx c \<Longrightarrow> keeps sod ctx d"
  "server_send_ss_header_s2c sod c = (r, d) \<Longrightarrow> keeps sod ctx c \<Longrightarrow> keeps sod ctx d"
  by (auto simp: client_send_ss_header_c2s_def server_send_ss_header_s2c_def
      split: option.splits intro: keeps_append)

lemma queue_local_hello_keeps:
  "queue_local_hello sod c = (r, d) \<Longrightarrow> keeps sod ctx c \<Longrightarrow> keeps sod ctx d"
  unfolding queue_local_hello_def Let_def
  by (auto split: option.splits sum.splits if_splits intro: keeps_append)

lemma handle_server_hello_keeps:
  "handle_server_hello sod h c = (r, d) \<Longrightarrow> keeps sod ctx c \<Longrightarrow> keeps sod ctx d"
  unfolding handle_server_hello_def Let_def emit_hello_received_def
  by (auto split: sum.splits prod.splits if_splits
      dest!: derive_ss_keys_keep [where ctx = ctx] send_ss_header_keep [where ctx = ctx])

lemma handle_client_hello_keeps:
  "handle_client_hello sod h c = (r, d) \<Longrightarrow> keeps sod ctx c \<Longrightarrow> keeps sod ctx d"
  unfolding handle_client_hello_def Let_def emit_hello_received_def
  by (auto split: prod.splits if_splits
      dest!: derive_ss_keys_keep [where ctx = ctx] queue_local_hello_keeps [where ctx = ctx])

lemma handle_peer_hello_keeps:
  "handle_peer_hello sod b c = (r, d) \<Longrightarrow> keeps sod ctx c \<Longrightarrow> keeps sod ctx d"
  by (auto simp: handle_peer_hello_def split: sum.splits if_splits
      dest: handle_server_hello_keeps handle_client_hello_keeps)

lemma handle_peer_ss_header_keeps:
  assumes "handle_peer_ss_header sod b c = (r, d)" and "keeps sod ctx c"
  shows "keeps sod ctx d"
  using assms unfolding handle_peer_ss_header_def emit_kx_complete_def
  by (auto split: option.splits prod.splits if_splits
      dest!: client_send_auth_device_keeps [where ctx = ctx] send_ss_header_keep [where ctx = ctx])

lemma handshake_start_keeps:
  "handshake_start sod c = (r, d) \<Longrightarrow> keeps sod ctx c \<Longrightarrow> keeps sod ctx d"
  unfolding handshake_start_def Let_def
  by (auto split: option.splits prod.splits if_splits dest!: queue_local_hello_keeps [where ctx = ctx])

section \<open>Key agreement\<close>

lemma derive_ss_keys_auth:
  "derive_ss_keys_client sod ctx = (r, c) \<Longrightarrow> auth_part c = auth_part ctx"
  "derive_ss_keys_server sod ctx = (r, c) \<Longrightarrow> auth_part c = auth_part ctx"
  by (auto simp: derive_ss_keys_client_def derive_ss_keys_server_def Let_def
      split: option.splits sum.splits)

lemma derive_client_ok:
  "derive_ss_keys_client sod ctx = (SODCHAN_OK, c) \<longleftrightarrow>
     (\<exists>rx tx a b. crypto_kx_client_session_keys sod (ctx_eph_pk ctx) (ctx_eph_sk ctx) (ctx_peer_eph_pk ctx)
          = Some (rx, tx)
        \<and> sodchan_crypto_ss_key_derive sod tx SODCHAN_DOM_SS_C2S = Inr a
        \<and> sodchan_crypto_ss_key_derive sod rx SODCHAN_DOM_SS_S2C = Inr b
        \<and> c = ctx\<lparr> ctx_ss_key_c2s := a, ctx_ss_key_s2c := b \<rparr>)"
  by (auto simp: derive_ss_keys_client_def Let_def split: option.splits sum.splits)

lemma derive_server_ok:
  "derive_ss_keys_server sod ctx = (SODCHAN_OK, c) \<longleftrightarrow>
     (\<exists>rx tx a b. crypto_kx_server_session_keys sod (ctx_eph_pk ctx) (ctx_eph_sk ctx) (ctx_peer_eph_pk ctx)
          = Some (rx, tx)
        \<and> sodchan_crypto_ss_key_derive sod rx SODCHAN_DOM_SS_C2S = Inr a
        \<and> sodchan_crypto_ss_key_derive sod tx SODCHAN_DOM_SS_S2C = Inr b
        \<and> c = ctx\<lparr> ctx_ss_key_c2s := a, ctx_ss_key_s2c := b \<rparr>)"
  by (auto simp: derive_ss_keys_server_def Let_def split: option.splits sum.splits)

lemma derive_ss_keys_frame:
  assumes "derive_ss_keys_client sod ctx = (r, c) \<or> derive_ss_keys_server sod ctx = (r, c)"
  shows "ctx_state c = ctx_state ctx" "ctx_hs c = ctx_hs ctx"
    "ctx_ss_push_ready c = ctx_ss_push_ready ctx" "ctx_ss_pull_ready c = ctx_ss_pull_ready ctx"
  using assms
  by (auto simp: derive_ss_keys_client_def derive_ss_keys_server_def Let_def
      split: option.splits sum.splits)

section \<open>What a handshake step that succeeds leaves behind\<close>

lemma send_ss_header_auth:
  "client_send_ss_header_c2s sod ctx = (r, c) \<Longrightarrow> auth_part c = auth_part ctx"
  "server_send_ss_header_s2c sod ctx = (r, c) \<Longrightarrow> auth_part c = auth_part ctx"
  by (auto simp: client_send_ss_header_c2s_def server_send_ss_header_s2c_def
      split: option.splits dest: auth_part_pairs(2))

lemma out_append_frame_pair:
  "out_append_frame b ctx = (r, c) \<Longrightarrow> c = snd (out_append_frame b ctx)"
  by simp

lemma send_ss_header_ready:
  assumes "client_send_ss_header_c2s sod ctx = (SODCHAN_OK, c)
      \<or> server_send_ss_header_s2c sod ctx = (SODCHAN_OK, c)"
  shows "ctx_ss_push_ready c" "ctx_ss_pull_ready c = ctx_ss_pull_ready ctx"
    "ctx_state c = ctx_state ctx" "ctx_hs c = ctx_hs ctx"
  using assms
  by (auto simp: client_send_ss_header_c2s_def server_send_ss_header_s2c_def
      split: option.splits dest!: out_append_frame_pair)

text \<open>
  What the client knows once it accepted a server HELLO: the transcript is built
  from its own ephemeral key and the peer's keys, the peer's identity key signed
  it, and that key is the pinned one unless pinning is switched off.
\<close>

definition server_verified :: "('ss, 'gh) sodium \<Rightarrow> 'ss sodchan_ctx \<Rightarrow> bool" where
  "server_verified sod ctx \<longleftrightarrow>
     ctx_have_t_hello ctx \<and> ctx_have_peer_eph ctx \<and> ctx_have_peer_id ctx
     \<and> sodchan_wire_build_t_hello SODCHAN_PROTO_VERSION SODCHAN_SUITE_V1 (ctx_eph_pk ctx)
         (ctx_peer_eph_pk ctx) (ctx_peer_id_pk ctx) (Some SODCHAN_T_HELLO_LEN) = Inr (ctx_t_hello ctx)
     \<and> (\<exists>sig. crypto_sign_verify_detached sod sig (ctx_t_hello ctx) (ctx_peer_id_pk ctx))
     \<and> (ctx_accept_any_server_pk ctx
        \<or> ctx_have_server_id_pk ctx \<and> sodium_memcmp_eq sod (ctx_peer_id_pk ctx) (ctx_server_id_pk ctx))"

lemma server_verified_cong:
  "auth_part c = auth_part ctx \<Longrightarrow> server_verified sod c = server_verified sod ctx"
  by (simp add: server_verified_def auth_part_fields [of c ctx])

lemma handle_server_hello_ok:
  assumes "handle_server_hello sod h ctx = (0, c)"
  shows "server_verified sod c" "ctx_state c = STATE_SS_HEADER" "ctx_hs c = HS_WAIT_PEER_SS"
    "ctx_auth_awaiting_decide c = ctx_auth_awaiting_decide ctx"
    "ctx_auth_decided c = ctx_auth_decided ctx" "ctx_auth_complete c = ctx_auth_complete ctx"
    "ctx_ss_push_ready c"
proof -
  define c0 where "c0 = (if \<not> ctx_accept_any_server_pk ctx then ctx
      else ctx\<lparr> ctx_server_id_pk := h_id_pk h, ctx_have_server_id_pk := True \<rparr>)"
  define c1 where "c1 = c0\<lparr> ctx_peer_eph_pk := h_eph_pk h, ctx_peer_id_pk := h_id_pk h,
      ctx_have_peer_eph := True, ctx_have_peer_id := True \<rparr>"
  obtain t where t: "sodchan_wire_build_t_hello SODCHAN_PROTO_VERSION SODCHAN_SUITE_V1
      (ctx_eph_pk c1) (ctx_peer_eph_pk c1) (ctx_peer_id_pk c1) (Some SODCHAN_T_HELLO_LEN) = Inr t"
    by (simp add: t_hello_Inr)
  define c2 where "c2 = c1\<lparr> ctx_t_hello := t, ctx_have_t_hello := True \<rparr>"
  from assms obtain d e where
    pin: "ctx_accept_any_server_pk ctx \<or> ctx_have_server_id_pk ctx
        \<and> sodium_memcmp_eq sod (h_id_pk h) (ctx_server_id_pk ctx)"
    and sig: "crypto_sign_verify_detached sod (h_id_sig h) t (ctx_peer_id_pk c2)"
    and d: "derive_ss_keys_client sod (emit_hello_received c2) = (SODCHAN_OK, d)"
    and e: "client_send_ss_header_c2s sod d = (SODCHAN_OK, e)"
    and c: "c = e\<lparr> ctx_state := STATE_SS_HEADER, ctx_hs := HS_WAIT_PEER_SS \<rparr>"
    unfolding handle_server_hello_def Let_def c0_def [symmetric] c1_def [symmetric] t sum.case
      c2_def [symmetric]
    by (auto split: if_splits prod.splits)
  have c2: "auth_part c = auth_part c2"
    using derive_ss_keys_auth(1) [OF d] send_ss_header_auth(1) [OF e]
    by (simp add: c emit_hello_received_def)
  have "server_verified sod c2"
    using pin sig t by (auto simp: server_verified_def c2_def c1_def c0_def)
  then show "server_verified sod c" using server_verified_cong [OF c2, of sod] by simp
  show "ctx_state c = STATE_SS_HEADER" "ctx_hs c = HS_WAIT_PEER_SS" by (simp_all add: c)
  show "ctx_auth_awaiting_decide c = ctx_auth_awaiting_decide ctx"
    "ctx_auth_decided c = ctx_auth_decided ctx" "ctx_auth_complete c = ctx_auth_complete ctx"
    using auth_part_fields [OF c2] by (simp_all add: c2_def c1_def c0_def)
  show "ctx_ss_push_ready c" using send_ss_header_ready(1) [OF disjI1, OF e] by (simp add: c)
qed

text \<open>The server's transcript, from its own ephemeral and identity keys.\<close>

definition transcript_built :: "'ss sodchan_ctx \<Rightarrow> bool" where
  "transcript_built ctx \<longleftrightarrow> ctx_have_t_hello ctx \<and> ctx_have_peer_eph ctx
     \<and> sodchan_wire_build_t_hello SODCHAN_PROTO_VERSION SODCHAN_SUITE_V1 (ctx_peer_eph_pk ctx)
         (ctx_eph_pk ctx) (ctx_server_id_pk ctx) (Some SODCHAN_T_HELLO_LEN) = Inr (ctx_t_hello ctx)"

lemma transcript_built_cong:
  "auth_part c = auth_part ctx \<Longrightarrow> transcript_built c = transcript_built ctx"
  by (simp add: transcript_built_def auth_part_fields [of c ctx])

lemma queue_local_hello_server:
  assumes "queue_local_hello sod ctx = (SODCHAN_OK, c)" and "ctx_role ctx = ROLE_SERVER"
  obtains t where "auth_part c = auth_part (ctx\<lparr> ctx_t_hello := t, ctx_have_t_hello := True \<rparr>)"
    and "ctx_have_peer_eph ctx"
    and "sodchan_wire_build_t_hello SODCHAN_PROTO_VERSION SODCHAN_SUITE_V1 (ctx_peer_eph_pk ctx)
         (ctx_eph_pk ctx) (ctx_server_id_pk ctx) (Some SODCHAN_T_HELLO_LEN) = Inr t"
  using assms unfolding queue_local_hello_def Let_def
  by (auto split: if_splits sum.splits option.splits dest!: auth_part_pairs(2))

lemma queue_local_hello_client:
  assumes "queue_local_hello sod ctx = (r, c)" and "ctx_role ctx = ROLE_CLIENT"
  shows "auth_part c = auth_part ctx"
  using assms unfolding queue_local_hello_def Let_def
  by (auto split: if_splits sum.splits dest!: auth_part_pairs(2))

lemma queue_local_hello_frame:
  assumes "queue_local_hello sod ctx = (r, c)"
  shows "ctx_state c = ctx_state ctx" "ctx_hs c = ctx_hs ctx"
    "ctx_ss_push_ready c = ctx_ss_push_ready ctx" "ctx_ss_pull_ready c = ctx_ss_pull_ready ctx"
  using assms unfolding queue_local_hello_def Let_def
  by (auto split: if_splits sum.splits option.splits dest!: out_append_frame_pair)

lemma handle_client_hello_ok:
  assumes "handle_client_hello sod h ctx = (0, c)" and "ctx_role ctx = ROLE_SERVER"
  shows "transcript_built c" "ctx_state c = STATE_SS_HEADER" "ctx_hs c = HS_WAIT_PEER_SS"
    "ctx_auth_awaiting_decide c = ctx_auth_awaiting_decide ctx"
    "ctx_auth_decided c = ctx_auth_decided ctx" "ctx_auth_complete c = ctx_auth_complete ctx"
proof -
  define c1 where "c1 = (if \<not> sodium_is_zero sod (h_id_pk h)
      then ctx\<lparr> ctx_peer_eph_pk := h_eph_pk h, ctx_have_peer_eph := True, ctx_peer_id_pk := h_id_pk h,
                ctx_have_peer_id := True \<rparr>
      else ctx\<lparr> ctx_peer_eph_pk := h_eph_pk h, ctx_have_peer_eph := True \<rparr>)"
  from assms(1) obtain d e where q: "queue_local_hello sod (emit_hello_received c1) = (SODCHAN_OK, d)"
    and k: "derive_ss_keys_server sod d = (SODCHAN_OK, e)"
    and c: "c = e\<lparr> ctx_state := STATE_SS_HEADER, ctx_hs := HS_WAIT_PEER_SS \<rparr>"
    unfolding handle_client_hello_def Let_def c1_def by (auto split: if_splits prod.splits)
  let ?c1 = "emit_hello_received c1"
  have role: "ctx_role ?c1 = ROLE_SERVER"
    using assms(2) by (simp add: c1_def emit_hello_received_def)
  obtain t where d: "auth_part d = auth_part (?c1\<lparr> ctx_t_hello := t, ctx_have_t_hello := True \<rparr>)"
    and t: "ctx_have_peer_eph ?c1"
      "sodchan_wire_build_t_hello SODCHAN_PROTO_VERSION SODCHAN_SUITE_V1 (ctx_peer_eph_pk ?c1)
         (ctx_eph_pk ?c1) (ctx_server_id_pk ?c1) (Some SODCHAN_T_HELLO_LEN) = Inr t"
    by (rule queue_local_hello_server [OF q role])
  then have ac: "auth_part c = auth_part (?c1\<lparr> ctx_t_hello := t, ctx_have_t_hello := True \<rparr>)"
    using derive_ss_keys_auth(2) [OF k] by (simp add: c)
  show "transcript_built c"
    unfolding transcript_built_cong [OF ac] using t by (simp add: transcript_built_def)
  show "ctx_state c = STATE_SS_HEADER" "ctx_hs c = HS_WAIT_PEER_SS" by (simp_all add: c)
  show "ctx_auth_awaiting_decide c = ctx_auth_awaiting_decide ctx"
    "ctx_auth_decided c = ctx_auth_decided ctx" "ctx_auth_complete c = ctx_auth_complete ctx"
    using auth_part_fields [OF ac] by (simp_all add: c1_def emit_hello_received_def)
qed

lemma client_send_auth_device_frame:
  assumes "client_send_auth_device sod ctx = (r, c)"
  shows "ctx_state c = ctx_state ctx" "ctx_hs c = ctx_hs ctx"
    "ctx_ss_push_ready c = ctx_ss_push_ready ctx" "ctx_ss_pull_ready c = ctx_ss_pull_ready ctx"
proof -
  have s: "ctx_state d = ctx_state ctx \<and> ctx_hs d = ctx_hs ctx \<and> ctx_ss_push_ready d = ctx_ss_push_ready ctx
      \<and> ctx_ss_pull_ready d = ctx_ss_pull_ready ctx" if "ss_send_pdu sod pl ctx = (x, d)" for pl x d
    using ss_send_pdu_frame [of sod pl ctx] that by simp
  show "ctx_state c = ctx_state ctx" "ctx_hs c = ctx_hs ctx"
    "ctx_ss_push_ready c = ctx_ss_push_ready ctx" "ctx_ss_pull_ready c = ctx_ss_pull_ready ctx"
    using assms unfolding client_send_auth_device_def Let_def
    by (auto split: sum.splits option.splits prod.splits if_splits dest!: s)
qed

lemma handle_peer_ss_header_ok:
  assumes "handle_peer_ss_header sod b ctx = (0, c)"
  shows "auth_part c = auth_part ctx" "ctx_state c = STATE_AUTH" "ctx_hs c = HS_DONE"
    "ctx_ss_pull_ready c" "ctx_role ctx = ROLE_CLIENT \<Longrightarrow> ctx_ss_push_ready c = ctx_ss_push_ready ctx"
    "ctx_role ctx \<noteq> ROLE_CLIENT \<Longrightarrow> ctx_ss_push_ready c"
  using assms unfolding handle_peer_ss_header_def emit_kx_complete_def
  by (auto split: if_splits option.splits prod.splits
      dest: client_send_auth_device_frame client_send_auth_device_auth send_ss_header_auth(2)
        send_ss_header_ready [OF disjI2])

lemma handle_server_hello_error:
  "handle_server_hello sod h ctx = (r, c) \<Longrightarrow> r \<noteq> 0 \<Longrightarrow> ctx_state c = STATE_ERROR"
  unfolding handle_server_hello_def Let_def by (simp split: if_splits sum.splits prod.splits) auto

lemma handle_client_hello_error:
  "handle_client_hello sod h ctx = (r, c) \<Longrightarrow> r \<noteq> 0 \<Longrightarrow> ctx_state c = STATE_ERROR"
  unfolding handle_client_hello_def Let_def by (simp split: if_splits prod.splits) auto

lemma handle_peer_hello_error:
  "handle_peer_hello sod b ctx = (r, c) \<Longrightarrow> r \<noteq> 0 \<Longrightarrow> ctx_state c = STATE_ERROR"
  by (auto simp: handle_peer_hello_def split: sum.splits if_splits
      intro: handle_server_hello_error handle_client_hello_error)

lemma handle_peer_ss_header_error:
  "handle_peer_ss_header sod b ctx = (r, c) \<Longrightarrow> r \<noteq> 0 \<Longrightarrow> ctx_state c = STATE_ERROR"
  unfolding handle_peer_ss_header_def by (auto split: if_splits option.splits prod.splits)

lemma handshake_start_ok:
  assumes "handshake_start sod ctx = (SODCHAN_OK, c)"
  shows "ctx_state c = STATE_HELLO" "ctx_hs c = HS_WAIT_PEER_HELLO"
    "ctx_auth_awaiting_decide c = ctx_auth_awaiting_decide ctx"
    "ctx_auth_decided c = ctx_auth_decided ctx" "ctx_auth_complete c = ctx_auth_complete ctx"
    "ctx_ss_push_ready c = ctx_ss_push_ready ctx" "ctx_ss_pull_ready c = ctx_ss_pull_ready ctx"
proof -
  have q: "ctx_auth_awaiting_decide c0 = ctx_auth_awaiting_decide ctx0
      \<and> ctx_auth_decided c0 = ctx_auth_decided ctx0 \<and> ctx_auth_complete c0 = ctx_auth_complete ctx0
      \<and> ctx_ss_push_ready c0 = ctx_ss_push_ready ctx0 \<and> ctx_ss_pull_ready c0 = ctx_ss_pull_ready ctx0"
    if "queue_local_hello sod ctx0 = (x, c0)" "ctx_role ctx0 = ROLE_CLIENT" for ctx0 c0 x
    using auth_part_fields [OF queue_local_hello_client [OF that]] queue_local_hello_frame [OF that(1)]
    by simp
  obtain pk sk where kp: "crypto_kx_keypair sod (ctx_draws ctx) = Some (pk, sk)"
    using assms by (auto simp: handshake_start_def split: option.splits)
  define c0 where "c0 = ctx\<lparr> ctx_eph_pk := pk, ctx_eph_sk := sk, ctx_draws := ctx_draws ctx + 1 \<rparr>"
  have "\<exists>c1. c = c1\<lparr> ctx_state := STATE_HELLO, ctx_hs := HS_WAIT_PEER_HELLO \<rparr>
      \<and> (c1 = c0 \<or> ctx_role c0 = ROLE_CLIENT \<and> queue_local_hello sod c0 = (SODCHAN_OK, c1))"
    using assms unfolding handshake_start_def kp option.case prod.case Let_def c0_def [symmetric]
    by (auto split: if_splits prod.splits)
  then obtain c1 where c: "c = c1\<lparr> ctx_state := STATE_HELLO, ctx_hs := HS_WAIT_PEER_HELLO \<rparr>"
    and c1: "ctx_auth_awaiting_decide c1 = ctx_auth_awaiting_decide c0
      \<and> ctx_auth_decided c1 = ctx_auth_decided c0 \<and> ctx_auth_complete c1 = ctx_auth_complete c0
      \<and> ctx_ss_push_ready c1 = ctx_ss_push_ready c0 \<and> ctx_ss_pull_ready c1 = ctx_ss_pull_ready c0"
    using q by blast
  then show "ctx_state c = STATE_HELLO" "ctx_hs c = HS_WAIT_PEER_HELLO"
    "ctx_auth_awaiting_decide c = ctx_auth_awaiting_decide ctx"
    "ctx_auth_decided c = ctx_auth_decided ctx" "ctx_auth_complete c = ctx_auth_complete ctx"
    "ctx_ss_push_ready c = ctx_ss_push_ready ctx" "ctx_ss_pull_ready c = ctx_ss_pull_ready ctx"
    by (simp_all add: c0_def)
qed

end
