(* ===== verification/Channels.thy ===== *)
theory Channels
  imports Record_Layer
begin

text \<open>
  The channel table of \<^verbatim>\<open>src/sodchan.c\<close>: \<^verbatim>\<open>ch_by_local\<close>, \<^verbatim>\<open>ch_alloc\<close>,
  \<^verbatim>\<open>ch_free\<close> and the allowlist test \<^verbatim>\<open>channel_name_allowed\<close>. A channel pointer
  is the index of its slot. The table of 16 slots implements a bounded map from
  local ids to channels (locale \<open>id_table\<close>), and the allowlist scan decides
  membership in the comma-separated list.
\<close>

section \<open>Definitions\<close>

text \<open>The first slot with a property, as the C loops over the table find it.\<close>

primrec slot_index :: "('c \<Rightarrow> bool) \<Rightarrow> 'c list \<Rightarrow> nat option" where
  "slot_index P [] = None"
| "slot_index P (c # cs) = (if P c then Some 0 else map_option Suc (slot_index P cs))"

definition ch_used :: "sodchan_channel \<Rightarrow> bool" where
  "ch_used c \<longleftrightarrow> ch_state c \<noteq> CH_UNUSED"

definition ch_by_local :: "u32 \<Rightarrow> 'ss sodchan_ctx \<Rightarrow> nat option" where
  "ch_by_local local_id ctx =
     slot_index (\<lambda>c. ch_state c \<noteq> CH_UNUSED \<and> ch_local_id c = local_id) (ctx_channels ctx)"

abbreviation ch_at :: "nat \<Rightarrow> 'ss sodchan_ctx \<Rightarrow> sodchan_channel" where
  "ch_at i ctx \<equiv> ctx_channels ctx ! i"

text \<open>A write through a channel pointer.\<close>

definition ch_set :: "nat \<Rightarrow> sodchan_channel \<Rightarrow> 'ss sodchan_ctx \<Rightarrow> 'ss sodchan_ctx" where
  "ch_set i c ctx = ctx\<lparr> ctx_channels := (ctx_channels ctx)[i := c] \<rparr>"

definition ch_alloc :: "'ss sodchan_ctx \<Rightarrow> nat option \<times> 'ss sodchan_ctx" where
  "ch_alloc ctx =
     (if unat (ctx_active_channels ctx) \<ge> ctx_max_channels ctx then (None, ctx)
      else (case slot_index (\<lambda>c. ch_state c = CH_UNUSED) (ctx_channels ctx) of
              None \<Rightarrow> (None, ctx)
            | Some i \<Rightarrow>
                (Some i,
                 (ch_set i (zero_channel\<lparr> ch_local_id := ctx_next_local_channel_id ctx \<rparr>) ctx)
                   \<lparr> ctx_next_local_channel_id := ctx_next_local_channel_id ctx + 1,
                     ctx_active_channels := ctx_active_channels ctx + 1 \<rparr>)))"

definition ch_free :: "nat \<Rightarrow> 'ss sodchan_ctx \<Rightarrow> 'ss sodchan_ctx" where
  "ch_free i ctx =
     (if ch_state (ch_at i ctx) = CH_UNUSED then ctx
      else let ctx = ch_set i zero_channel ctx in
        if ctx_active_channels ctx > 0
        then ctx\<lparr> ctx_active_channels := ctx_active_channels ctx - 1 \<rparr> else ctx)"

text \<open>
  The loop of \<^verbatim>\<open>channel_name_allowed\<close>: \<open>p\<close> is the rest of the list string, 44 is
  the comma.
\<close>

function name_scan :: "bytes \<Rightarrow> bytes \<Rightarrow> bool" where
  "name_scan p name =
     (if p = [] then False
      else let seg = takeWhile (\<lambda>b. b \<noteq> 44) p; comma = dropWhile (\<lambda>b. b \<noteq> 44) p in
        if length seg = length name \<and> take (length name) p = name then True
        else if comma = [] then False
        else name_scan (tl comma) name)"
  by pat_completeness auto
termination
proof (relation "measure (\<lambda>(p, name). length p)", simp)
  fix p :: bytes and name x xa
  assume "p \<noteq> []" and xa: "xa = dropWhile (\<lambda>b. b \<noteq> 44) p"
  then have "0 < length p" and "length xa \<le> length p"
    by (simp_all add: length_dropWhile_le)
  then have "length xa - 1 < length p" by linarith
  then show "((tl xa, name), (p, name)) \<in> measure (\<lambda>(p, name). length p)"
    by simp
qed

declare name_scan.simps [simp del]

definition SODCHAN_DEFAULT_ALLOWED_CHANNELS :: bytes where
  "SODCHAN_DEFAULT_ALLOWED_CHANNELS = ascii
     (''edge-telemetry,edge-pg,edge-ai,edge-control,edge-usp,shell,sftp,exec,'' @
      ''tun,tap,mobile-control,mobile-sync,mobile-audit,mobile-notify'')"

text \<open>\<open>name\<close> is a C string or the NULL pointer.\<close>

definition channel_name_allowed :: "span \<Rightarrow> 'ss sodchan_ctx \<Rightarrow> bool" where
  "channel_name_allowed name ctx =
     (case name of
        None \<Rightarrow> False
      | Some s \<Rightarrow>
          if cstr s = [] then False
          else name_scan
            (cstr (case ctx_allowed_channels ctx of
                     Some l \<Rightarrow> l | None \<Rightarrow> SODCHAN_DEFAULT_ALLOWED_CHANNELS))
            (cstr s))"

section \<open>Slots\<close>

lemma slot_index_Some:
  "slot_index P cs = Some i \<longleftrightarrow> i < length cs \<and> P (cs ! i) \<and> (\<forall>j < i. \<not> P (cs ! j))"
proof (induction cs arbitrary: i)
  case Nil
  then show ?case by simp
next
  case (Cons c cs)
  then show ?case
    by (cases i) (auto simp: less_Suc_eq_0_disj)
qed

lemma slot_index_None: "slot_index P cs = None \<longleftrightarrow> (\<forall>c \<in> set cs. \<not> P c)"
  by (induction cs) auto

lemma slot_index_unique:
  assumes "i < length cs" and "P (cs ! i)" and "\<And>j. j < length cs \<Longrightarrow> P (cs ! j) \<Longrightarrow> j = i"
  shows "slot_index P cs = Some i"
proof (cases "slot_index P cs")
  case None
  with assms(1,2) show ?thesis by (auto simp: slot_index_None)
next
  case (Some j)
  then have "j < length cs" and "P (cs ! j)" by (simp_all add: slot_index_Some)
  with assms(3) Some show ?thesis by blast
qed

definition used_count :: "sodchan_channel list \<Rightarrow> nat" where
  "used_count cs = length (filter ch_used cs)"

lemma length_filter_update:
  "i < length xs \<Longrightarrow> length (filter P (xs[i := y])) + (if P (xs ! i) then 1 else 0)
     = length (filter P xs) + (if P y then 1 else 0)"
proof (induction xs arbitrary: i)
  case Nil
  then show ?case by simp
next
  case (Cons x xs)
  then show ?case by (cases i) (auto split: if_splits)
qed

lemma used_count_update:
  "i < length cs \<Longrightarrow> used_count (cs[i := c]) + (if ch_used (cs ! i) then 1 else 0)
     = used_count cs + (if ch_used c then 1 else 0)"
  by (simp add: used_count_def length_filter_update)

lemma used_count_le: "used_count cs \<le> length cs"
  by (simp add: used_count_def)

lemma used_count_pos: "i < length cs \<Longrightarrow> ch_used (cs ! i) \<Longrightarrow> 0 < used_count cs"
  by (auto simp: used_count_def filter_empty_conv)

lemma used_count_full: "used_count cs = length cs \<longleftrightarrow> (\<forall>c \<in> set cs. ch_used c)"
  unfolding used_count_def by (metis filter_id_conv length_filter_less less_irrefl)

lemma used_count_replicate: "\<not> ch_used c \<Longrightarrow> used_count (replicate n c) = 0"
  by (simp add: used_count_def)

section \<open>The invariant of the table\<close>

text \<open>
  \<open>slot_ok\<close>: a slot in use is never \<^verbatim>\<open>CH_CLOSED\<close>, knows its peer id exactly from
  \<^verbatim>\<open>CH_PENDING\<close> on, and holds a name that fits its buffer. \<open>table_wf\<close>: the
  counter counts the slots in use and respects the limit. \<open>ids_wf\<close>: local ids
  are distinct and below the next one; allocation keeps that until the 32-bit
  counter wraps.
\<close>

definition slot_ok :: "sodchan_channel \<Rightarrow> bool" where
  "slot_ok c \<longleftrightarrow> ch_state c \<noteq> CH_CLOSED
     \<and> (ch_used c \<longrightarrow> ch_have_peer_id c = (ch_state c \<noteq> CH_OPENING))
     \<and> length (ch_name c) \<le> SODCHAN_CHANNEL_NAME_MAX \<and> 0 \<notin> set (ch_name c)"

definition table_wf :: "'ss sodchan_ctx \<Rightarrow> bool" where
  "table_wf ctx \<longleftrightarrow> length (ctx_channels ctx) = SODCHAN_MAX_CHANNELS
     \<and> unat (ctx_active_channels ctx) = used_count (ctx_channels ctx)
     \<and> used_count (ctx_channels ctx) \<le> ctx_max_channels ctx
     \<and> ctx_max_channels ctx \<le> SODCHAN_MAX_CHANNELS
     \<and> (\<forall>c \<in> set (ctx_channels ctx). slot_ok c)"

definition ids_wf :: "'ss sodchan_ctx \<Rightarrow> bool" where
  "ids_wf ctx \<longleftrightarrow>
     (\<forall>c \<in> set (ctx_channels ctx). ch_used c \<longrightarrow> ch_local_id c < ctx_next_local_channel_id ctx)
     \<and> (\<forall>i < length (ctx_channels ctx). \<forall>j < length (ctx_channels ctx).
          ch_used (ch_at i ctx) \<longrightarrow> ch_used (ch_at j ctx) \<longrightarrow>
          ch_local_id (ch_at i ctx) = ch_local_id (ch_at j ctx) \<longrightarrow> i = j)"

text \<open>The table as a map from local ids to channels.\<close>

definition chan_map :: "'ss sodchan_ctx \<Rightarrow> u32 \<Rightarrow> sodchan_channel option" where
  "chan_map ctx k = map_option (\<lambda>i. ch_at i ctx) (ch_by_local k ctx)"

text \<open>Handing out a slot as one step: allocate, then fill in the fields.\<close>

definition ch_insert ::
    "(u32 \<Rightarrow> sodchan_channel) \<Rightarrow> 'ss sodchan_ctx \<Rightarrow> (u32 \<times> 'ss sodchan_ctx) option" where
  "ch_insert f ctx =
     (case ch_alloc ctx of
        (None, ctx') \<Rightarrow> None
      | (Some i, ctx') \<Rightarrow>
          let k = ch_local_id (ch_at i ctx') in Some (k, ch_set i (f k) ctx'))"

definition ch_put :: "u32 \<Rightarrow> sodchan_channel \<Rightarrow> 'ss sodchan_ctx \<Rightarrow> 'ss sodchan_ctx" where
  "ch_put k c ctx = (case ch_by_local k ctx of None \<Rightarrow> ctx | Some i \<Rightarrow> ch_set i c ctx)"

definition ch_remove :: "u32 \<Rightarrow> 'ss sodchan_ctx \<Rightarrow> 'ss sodchan_ctx" where
  "ch_remove k ctx = (case ch_by_local k ctx of None \<Rightarrow> ctx | Some i \<Rightarrow> ch_free i ctx)"

definition chan_ok :: "u32 \<Rightarrow> sodchan_channel \<Rightarrow> bool" where
  "chan_ok k c \<longleftrightarrow> ch_used c \<and> ch_local_id c = k \<and> slot_ok c"

lemma zero_channel_simps [simp]:
  "\<not> ch_used zero_channel" "slot_ok zero_channel"
  by (simp_all add: zero_channel_def ch_used_def slot_ok_def)

lemma ch_by_local_Some:
  "ch_by_local k ctx = Some i \<Longrightarrow>
     i < length (ctx_channels ctx) \<and> ch_used (ch_at i ctx) \<and> ch_local_id (ch_at i ctx) = k"
  by (simp add: ch_by_local_def slot_index_Some ch_used_def)

lemma ch_by_local_None:
  "ch_by_local k ctx = None \<longleftrightarrow>
     (\<forall>i < length (ctx_channels ctx). ch_used (ch_at i ctx) \<longrightarrow> ch_local_id (ch_at i ctx) \<noteq> k)"
  by (auto simp: ch_by_local_def slot_index_None ch_used_def all_set_conv_all_nth)

lemma ch_by_local_iff:
  assumes "ids_wf ctx"
  shows "ch_by_local k ctx = Some i \<longleftrightarrow>
     i < length (ctx_channels ctx) \<and> ch_used (ch_at i ctx) \<and> ch_local_id (ch_at i ctx) = k"
proof
  assume "i < length (ctx_channels ctx) \<and> ch_used (ch_at i ctx) \<and> ch_local_id (ch_at i ctx) = k"
  with assms show "ch_by_local k ctx = Some i"
    unfolding ch_by_local_def ids_wf_def
    by (intro slot_index_unique) (auto simp: ch_used_def)
qed (rule ch_by_local_Some)

lemma chan_map_Some:
  assumes "ids_wf ctx"
  shows "chan_map ctx k = Some c \<longleftrightarrow>
     (\<exists>i < length (ctx_channels ctx). ch_at i ctx = c \<and> ch_used c \<and> ch_local_id c = k)"
  unfolding chan_map_def using ch_by_local_iff [OF assms, of k] by (auto simp: map_option_eq_Some)

lemma dom_chan_map:
  assumes "ids_wf ctx"
  shows "dom (chan_map ctx) =
     (\<lambda>i. ch_local_id (ch_at i ctx)) ` {i. i < length (ctx_channels ctx) \<and> ch_used (ch_at i ctx)}"
  using chan_map_Some [OF assms] by (force simp: dom_def)

lemma card_chan_map:
  assumes "ids_wf ctx"
  shows "card (dom (chan_map ctx)) = used_count (ctx_channels ctx)" and "finite (dom (chan_map ctx))"
proof -
  have "inj_on (\<lambda>i. ch_local_id (ch_at i ctx))
      {i. i < length (ctx_channels ctx) \<and> ch_used (ch_at i ctx)}"
    using assms by (auto simp: inj_on_def ids_wf_def)
  then show "card (dom (chan_map ctx)) = used_count (ctx_channels ctx)"
    by (simp add: dom_chan_map [OF assms] card_image used_count_def length_filter_conv_card)
  show "finite (dom (chan_map ctx))"
    by (simp add: dom_chan_map [OF assms])
qed

section \<open>The operations and the invariant\<close>

lemma ch_set_frame [simp]:
  "ctx_channels (ch_set i c ctx) = (ctx_channels ctx)[i := c]"
  "ctx_active_channels (ch_set i c ctx) = ctx_active_channels ctx"
  "ctx_max_channels (ch_set i c ctx) = ctx_max_channels ctx"
  "ctx_next_local_channel_id (ch_set i c ctx) = ctx_next_local_channel_id ctx"
  "ctx_state (ch_set i c ctx) = ctx_state ctx"
  "session_part (ch_set i c ctx) = session_part ctx"
  "ring_wf (ch_set i c ctx) = ring_wf ctx" "out_wf (ch_set i c ctx) = out_wf ctx"
  "ctx_event_count (ch_set i c ctx) = ctx_event_count ctx"
  "ctx_event_cap (ch_set i c ctx) = ctx_event_cap ctx" "ctx_ss_push (ch_set i c ctx) = ctx_ss_push ctx"
  "event_list (ch_set i c ctx) = event_list ctx" "out_pending (ch_set i c ctx) = out_pending ctx"
  by (simp_all add: ch_set_def)

lemma ch_set_table_wf:
  assumes "table_wf ctx" and "i < length (ctx_channels ctx)"
    and "ch_used c = ch_used (ch_at i ctx)" and "slot_ok c"
  shows "table_wf (ch_set i c ctx)"
proof -
  have "used_count ((ctx_channels ctx)[i := c]) = used_count (ctx_channels ctx)"
    using used_count_update [OF assms(2), of c] assms(3) by simp
  with assms(1,4) show ?thesis
    by (auto simp: table_wf_def dest!: set_update_subset_insert [THEN subsetD])
qed

lemma ch_set_ids_wf:
  assumes "ids_wf ctx" and "i < length (ctx_channels ctx)"
    and "ch_used (ch_at i ctx)" and "ch_local_id c = ch_local_id (ch_at i ctx)"
  shows "ids_wf (ch_set i c ctx)"
proof -
  have *: "ch_used (((ctx_channels ctx)[i := c]) ! j) \<longrightarrow> ch_used (ch_at j ctx)"
    "ch_local_id (((ctx_channels ctx)[i := c]) ! j) = ch_local_id (ch_at j ctx)"
    if "j < length (ctx_channels ctx)" for j
    using that assms(2-4) by (cases "j = i"; simp)+
  show ?thesis
    using assms(1) * unfolding ids_wf_def by (simp add: all_set_conv_all_nth)
qed

text \<open>A write to one slot as an update of the map.\<close>

lemma chan_map_update:
  assumes wf: "ids_wf ctx" "ids_wf ctx'" and upd: "ctx_channels ctx' = (ctx_channels ctx)[i := c]"
    and i: "i < length (ctx_channels ctx)" "ch_used (ch_at i ctx) \<longrightarrow> ch_local_id (ch_at i ctx) = k"
    and c: "ch_used c \<longrightarrow> ch_local_id c = k"
    and others: "\<And>j. j < length (ctx_channels ctx) \<Longrightarrow> j \<noteq> i \<Longrightarrow> ch_used (ch_at j ctx) \<Longrightarrow>
      ch_local_id (ch_at j ctx) \<noteq> k"
  shows "chan_map ctx' = (chan_map ctx)(k := if ch_used c then Some c else None)"
proof
  fix x
  have new: "chan_map ctx' x = Some y \<longleftrightarrow>
      (\<exists>j < length (ctx_channels ctx). (if j = i then c else ch_at j ctx) = y \<and> ch_used y \<and> ch_local_id y = x)"
    for y
    unfolding chan_map_Some [OF wf(2)] upd by (auto simp: nth_list_update)
  have "chan_map ctx' x = Some y \<longleftrightarrow> ((chan_map ctx)(k := if ch_used c then Some c else None)) x = Some y"
    for y
  proof (cases "x = k")
    case True
    then show ?thesis unfolding new using i(1) c others by (auto split: if_splits)
  next
    case False
    have "(\<exists>j < length (ctx_channels ctx). (if j = i then c else ch_at j ctx) = y \<and> ch_used y \<and> ch_local_id y = x)
        \<longleftrightarrow> (\<exists>j < length (ctx_channels ctx). ch_at j ctx = y \<and> ch_used y \<and> ch_local_id y = x)"
      using i(2) c False by metis
    with False show ?thesis by (simp add: new chan_map_Some [OF wf(1)])
  qed
  then show "chan_map ctx' x = ((chan_map ctx)(k := if ch_used c then Some c else None)) x"
    by (metis option.exhaust)
qed

lemma ids_wf_unique:
  "ids_wf ctx \<Longrightarrow> i < length (ctx_channels ctx) \<Longrightarrow> j < length (ctx_channels ctx) \<Longrightarrow>
   ch_used (ch_at i ctx) \<Longrightarrow> ch_used (ch_at j ctx) \<Longrightarrow>
   ch_local_id (ch_at i ctx) = ch_local_id (ch_at j ctx) \<Longrightarrow> i = j"
  unfolding ids_wf_def by blast

lemma chan_map_ch_set:
  assumes "ids_wf ctx" and "ch_by_local k ctx = Some i" and "ch_used c" and "ch_local_id c = k"
  shows "chan_map (ch_set i c ctx) = (chan_map ctx)(k \<mapsto> c)"
proof -
  note i = ch_by_local_Some [OF assms(2)]
  have "chan_map (ch_set i c ctx) = (chan_map ctx)(k := if ch_used c then Some c else None)"
    using i assms by (intro chan_map_update ch_set_ids_wf) (auto dest: ids_wf_unique)
  with assms(3) show ?thesis by simp
qed

lemma ch_alloc_cases:
  assumes "table_wf ctx"
  obtains (full) "ch_alloc ctx = (None, ctx)"
      "used_count (ctx_channels ctx) = ctx_max_channels ctx"
  | (slot) i where "i < length (ctx_channels ctx)" "\<not> ch_used (ch_at i ctx)"
      "used_count (ctx_channels ctx) < ctx_max_channels ctx"
      "ch_alloc ctx = (Some i,
         (ch_set i (zero_channel\<lparr> ch_local_id := ctx_next_local_channel_id ctx \<rparr>) ctx)
           \<lparr> ctx_next_local_channel_id := ctx_next_local_channel_id ctx + 1,
             ctx_active_channels := ctx_active_channels ctx + 1 \<rparr>)"
proof (cases "unat (ctx_active_channels ctx) \<ge> ctx_max_channels ctx")
  case True
  with assms show ?thesis by (intro full) (auto simp: ch_alloc_def table_wf_def)
next
  case False
  with assms have less: "used_count (ctx_channels ctx) < ctx_max_channels ctx"
    by (simp add: table_wf_def)
  with assms have "used_count (ctx_channels ctx) \<noteq> length (ctx_channels ctx)"
    by (auto simp: table_wf_def)
  then have "slot_index (\<lambda>c. ch_state c = CH_UNUSED) (ctx_channels ctx) \<noteq> None"
    by (auto simp: used_count_full slot_index_None ch_used_def)
  then obtain i where i: "slot_index (\<lambda>c. ch_state c = CH_UNUSED) (ctx_channels ctx) = Some i"
    by blast
  then have "i < length (ctx_channels ctx)" and "ch_state (ch_at i ctx) = CH_UNUSED"
    by (simp_all add: slot_index_Some)
  with False less i show ?thesis
    by (intro slot [of i]) (simp_all add: ch_alloc_def ch_used_def)
qed

lemma unat_u32_inc: "unat (w :: u32) < n \<Longrightarrow> n \<le> 16 \<Longrightarrow> unat (w + 1) = unat w + 1"
  by (subst unat_plus_simple [THEN iffD1]) (auto simp: word_le_nat_alt unat_word_ariths)

text \<open>A slot handed out and filled in with a channel in use.\<close>

lemma ch_alloc_set:
  assumes "table_wf ctx" and "ch_alloc ctx = (Some i, ctx')" and "ch_used c" and "slot_ok c"
  shows "table_wf (ch_set i c ctx')"
    and "ch_local_id (ch_at i ctx') = ctx_next_local_channel_id ctx"
    and "i < length (ctx_channels ctx)"
proof -
  have i: "i < length (ctx_channels ctx)" "\<not> ch_used (ch_at i ctx)"
      "used_count (ctx_channels ctx) < ctx_max_channels ctx"
    and ctx': "ctx' = (ch_set i (zero_channel\<lparr> ch_local_id := ctx_next_local_channel_id ctx \<rparr>) ctx)
           \<lparr> ctx_next_local_channel_id := ctx_next_local_channel_id ctx + 1,
             ctx_active_channels := ctx_active_channels ctx + 1 \<rparr>"
    using assms(2) by (cases rule: ch_alloc_cases [OF assms(1)]; simp)+
  have "used_count ((ctx_channels ctx)[i := c]) = used_count (ctx_channels ctx) + 1"
    using used_count_update [OF i(1), of c] i(2) assms(3) by simp
  moreover have "unat (ctx_active_channels ctx + 1) = unat (ctx_active_channels ctx) + 1"
    using assms(1) i(3)
    by (intro unat_u32_inc [of _ "ctx_max_channels ctx"])
      (auto simp: table_wf_def SODCHAN_MAX_CHANNELS_def)
  ultimately show "table_wf (ch_set i c ctx')"
    using assms(1,4) i(3) ctx'
    by (auto simp: table_wf_def dest!: set_update_subset_insert [THEN subsetD])
  show "ch_local_id (ch_at i ctx') = ctx_next_local_channel_id ctx"
    using i(1) ctx' by simp
  show "i < length (ctx_channels ctx)" by (rule i(1))
qed

lemma ch_alloc_set_ids:
  assumes "table_wf ctx" and "ids_wf ctx" and "ch_alloc ctx = (Some i, ctx')"
    and "ctx_next_local_channel_id ctx + 1 \<noteq> 0"
    and "ch_used c" and "ch_local_id c = ctx_next_local_channel_id ctx"
  shows "ids_wf (ch_set i c ctx')"
    and "chan_map (ch_set i c ctx') = (chan_map ctx)(ctx_next_local_channel_id ctx \<mapsto> c)"
    and "chan_map ctx (ctx_next_local_channel_id ctx) = None"
proof -
  let ?n = "ctx_next_local_channel_id ctx"
  have i: "i < length (ctx_channels ctx)" "\<not> ch_used (ch_at i ctx)"
    and ctx': "ctx' = (ch_set i (zero_channel\<lparr> ch_local_id := ?n \<rparr>) ctx)
           \<lparr> ctx_next_local_channel_id := ?n + 1, ctx_active_channels := ctx_active_channels ctx + 1 \<rparr>"
    using assms(3) by (cases rule: ch_alloc_cases [OF assms(1)]; simp)+
  have chans: "ctx_channels (ch_set i c ctx') = (ctx_channels ctx)[i := c]"
    by (simp add: ctx')
  have lt: "?n < ?n + 1"
    using unatSuc [of ?n] assms(4) by (simp add: word_less_nat_alt add.commute)
  have below: "ch_local_id (ch_at j ctx) < ?n" if "j < length (ctx_channels ctx)" "ch_used (ch_at j ctx)" for j
    using assms(2) that by (auto simp: ids_wf_def)
  then have below': "ch_local_id (ch_at j ctx) \<noteq> ?n"
    if "j < length (ctx_channels ctx)" "ch_used (ch_at j ctx)" for j
    using that by fastforce
  show wf: "ids_wf (ch_set i c ctx')"
    unfolding ids_wf_def chans
  proof (intro conjI ballI allI impI)
    fix d assume "d \<in> set ((ctx_channels ctx)[i := c])" and "ch_used d"
    then obtain j where "j < length (ctx_channels ctx)" and "d = (ctx_channels ctx)[i := c] ! j"
      by (auto simp: in_set_conv_nth)
    with \<open>ch_used d\<close> have "d = c \<or> ch_local_id d < ?n"
      using below [of j] by (cases "j = i") (auto simp: i(1))
    moreover have "ctx_next_local_channel_id (ch_set i c ctx') = ?n + 1"
      by (simp add: ctx')
    ultimately show "ch_local_id d < ctx_next_local_channel_id (ch_set i c ctx')"
      using lt assms(6) by auto
  next
    fix j k
    assume "j < length ((ctx_channels ctx)[i := c])" "k < length ((ctx_channels ctx)[i := c])"
      "ch_used ((ctx_channels ctx)[i := c] ! j)" "ch_used ((ctx_channels ctx)[i := c] ! k)"
      "ch_local_id ((ctx_channels ctx)[i := c] ! j) = ch_local_id ((ctx_channels ctx)[i := c] ! k)"
    then show "j = k"
      using assms(2,6) below [of j] below [of k] i(1) unfolding ids_wf_def
      by (cases "j = i"; cases "k = i") auto
  qed
  show none: "chan_map ctx ?n = None"
    using below' by (auto simp: chan_map_def ch_by_local_None)
  have "chan_map (ch_set i c ctx') = (chan_map ctx)(?n := if ch_used c then Some c else None)"
    using i assms(5,6) below' by (intro chan_map_update [OF assms(2) wf chans]) auto
  with assms(5) show "chan_map (ch_set i c ctx') = (chan_map ctx)(?n \<mapsto> c)" by simp
qed

lemma ch_free_table_wf:
  assumes "table_wf ctx" and "i < length (ctx_channels ctx)"
  shows "table_wf (ch_free i ctx)"
proof (cases "ch_used (ch_at i ctx)")
  case True
  have "used_count ((ctx_channels ctx)[i := zero_channel]) + 1 = used_count (ctx_channels ctx)"
    using used_count_update [OF assms(2), of zero_channel] True by simp
  moreover have "0 < used_count (ctx_channels ctx)"
    by (rule used_count_pos [OF assms(2) True])
  moreover from this assms(1) have "ctx_active_channels ctx \<noteq> 0"
    by (auto simp: table_wf_def)
  ultimately show ?thesis
    using assms(1) True
    by (auto simp: table_wf_def ch_free_def ch_used_def word_less_nat_alt unat_minus_one
        dest!: set_update_subset_insert [THEN subsetD])
next
  case False
  with assms(1) show ?thesis by (simp add: ch_free_def ch_used_def)
qed

lemma ch_alloc_None: "ch_alloc ctx = (None, ctx') \<Longrightarrow> ctx' = ctx"
  by (auto simp: ch_alloc_def split: if_splits option.splits)

lemma ch_alloc_Some:
  "ch_alloc ctx = (Some i, ctx') \<Longrightarrow>
     ctx' = (ch_set i (zero_channel\<lparr> ch_local_id := ctx_next_local_channel_id ctx \<rparr>) ctx)
           \<lparr> ctx_next_local_channel_id := ctx_next_local_channel_id ctx + 1,
             ctx_active_channels := ctx_active_channels ctx + 1 \<rparr>"
  by (auto simp: ch_alloc_def split: if_splits option.splits)

lemma ch_free_frame [simp]:
  "session_part (ch_free i ctx) = session_part ctx" "ctx_state (ch_free i ctx) = ctx_state ctx"
  "ring_wf (ch_free i ctx) = ring_wf ctx" "out_wf (ch_free i ctx) = out_wf ctx"
  "ctx_event_count (ch_free i ctx) = ctx_event_count ctx"
  "ctx_event_cap (ch_free i ctx) = ctx_event_cap ctx" "ctx_ss_push (ch_free i ctx) = ctx_ss_push ctx"
  "event_list (ch_free i ctx) = event_list ctx" "out_pending (ch_free i ctx) = out_pending ctx"
  by (simp_all add: ch_free_def Let_def)

lemma ch_free_channels:
  "ctx_channels (ch_free i ctx) =
     (if ch_used (ch_at i ctx) then (ctx_channels ctx)[i := zero_channel] else ctx_channels ctx)"
  "ctx_next_local_channel_id (ch_free i ctx) = ctx_next_local_channel_id ctx"
  "ctx_max_channels (ch_free i ctx) = ctx_max_channels ctx"
  by (simp_all add: ch_free_def ch_used_def Let_def)

lemma ch_free_ids_wf:
  assumes "ids_wf ctx"
  shows "ids_wf (ch_free i ctx)"
proof (cases "i < length (ctx_channels ctx)")
  case True
  have *: "ch_used (((ctx_channels ctx)[i := zero_channel]) ! j) \<longrightarrow>
      ch_used (ch_at j ctx) \<and> ((ctx_channels ctx)[i := zero_channel]) ! j = ch_at j ctx"
    if "j < length (ctx_channels ctx)" for j
    using that by (cases "j = i") auto
  with assms show ?thesis
    unfolding ids_wf_def ch_free_channels by (auto simp: all_set_conv_all_nth)
next
  case False
  then have "(ctx_channels ctx)[i := zero_channel] = ctx_channels ctx"
    by (intro list_update_beyond) simp
  with assms show ?thesis
    unfolding ids_wf_def ch_free_channels by simp
qed

lemma chan_map_ch_free:
  assumes "ids_wf ctx" and "ch_by_local k ctx = Some i"
  shows "chan_map (ch_free i ctx) = (chan_map ctx)(k := None)"
proof -
  note i = ch_by_local_Some [OF assms(2)]
  have "chan_map (ch_free i ctx) =
      (chan_map ctx)(k := if ch_used zero_channel then Some zero_channel else None)"
    using i assms
    by (intro chan_map_update ch_free_ids_wf) (auto simp: ch_free_channels dest: ids_wf_unique)
  then show ?thesis by simp
qed

text \<open>Both parts of the invariant look at the table alone.\<close>

lemma table_wf_cong:
  "ctx_channels c = ctx_channels ctx \<Longrightarrow> ctx_active_channels c = ctx_active_channels ctx \<Longrightarrow>
   ctx_max_channels c = ctx_max_channels ctx \<Longrightarrow> table_wf c = table_wf ctx"
  by (simp add: table_wf_def)

lemma ids_wf_cong:
  "ctx_channels c = ctx_channels ctx \<Longrightarrow>
   ctx_next_local_channel_id c = ctx_next_local_channel_id ctx \<Longrightarrow> ids_wf c = ids_wf ctx"
  by (simp add: ids_wf_def)

lemma chan_map_cong: "ctx_channels c = ctx_channels ctx \<Longrightarrow> chan_map c = chan_map ctx"
  by (rule ext) (simp add: chan_map_def ch_by_local_def)

lemma table_emit [simp]:
  "table_wf (emit ev ctx) = table_wf ctx" "ids_wf (emit ev ctx) = ids_wf ctx"
  "chan_map (emit ev ctx) = chan_map ctx" "ch_by_local k (emit ev ctx) = ch_by_local k ctx"
  by ((rule table_wf_cong ids_wf_cong chan_map_cong; simp) | simp add: ch_by_local_def)+

lemma table_set_error [simp]:
  "table_wf (sodchan_i_set_error e m ctx) = table_wf ctx"
  "ids_wf (sodchan_i_set_error e m ctx) = ids_wf ctx"
  "chan_map (sodchan_i_set_error e m ctx) = chan_map ctx"
  by (rule table_wf_cong ids_wf_cong chan_map_cong; simp)+

lemma table_send [simp]:
  "table_wf (snd (ss_send_pdu sod pl ctx)) = table_wf ctx"
  "ids_wf (snd (ss_send_pdu sod pl ctx)) = ids_wf ctx"
  "chan_map (snd (ss_send_pdu sod pl ctx)) = chan_map ctx"
  "ch_by_local k (snd (ss_send_pdu sod pl ctx)) = ch_by_local k ctx"
  by ((rule table_wf_cong ids_wf_cong chan_map_cong; simp) | simp add: ch_by_local_def)+

lemma table_state [simp]:
  "table_wf (ctx_state_update f ctx) = table_wf ctx" "ids_wf (ctx_state_update f ctx) = ids_wf ctx"
  "chan_map (ctx_state_update f ctx) = chan_map ctx"
  by (rule table_wf_cong ids_wf_cong chan_map_cong; simp)+

section \<open>The table is a bounded map\<close>

text \<open>
  What the channel operations rely on. \<open>ins\<close> chooses the key and may refuse;
  \<open>fresh\<close> says that the key counter does not wrap at the next insertion.
\<close>

locale id_table =
  fixes look :: "'s \<Rightarrow> 'k \<Rightarrow> 'v option"
    and ins :: "('k \<Rightarrow> 'v) \<Rightarrow> 's \<Rightarrow> ('k \<times> 's) option"
    and put :: "'k \<Rightarrow> 'v \<Rightarrow> 's \<Rightarrow> 's"
    and del :: "'k \<Rightarrow> 's \<Rightarrow> 's"
    and cap :: "'s \<Rightarrow> nat"
    and inv :: "'s \<Rightarrow> bool"
    and fresh :: "'s \<Rightarrow> bool"
    and ok :: "'k \<Rightarrow> 'v \<Rightarrow> bool"
  assumes look_ok: "inv s \<Longrightarrow> look s k = Some v \<Longrightarrow> ok k v"
    and bounded: "inv s \<Longrightarrow> finite (dom (look s)) \<and> card (dom (look s)) \<le> cap s"
    and ins_full: "inv s \<Longrightarrow> ins f s = None \<longleftrightarrow> card (dom (look s)) = cap s"
    and ins_some: "inv s \<Longrightarrow> fresh s \<Longrightarrow> (\<And>k. ok k (f k)) \<Longrightarrow> ins f s = Some (k, s') \<Longrightarrow>
        look s k = None \<and> look s' = (look s)(k \<mapsto> f k) \<and> cap s' = cap s \<and> inv s'"
    and put_some: "inv s \<Longrightarrow> look s k = Some w \<Longrightarrow> ok k v \<Longrightarrow>
        look (put k v s) = (look s)(k \<mapsto> v) \<and> cap (put k v s) = cap s \<and> inv (put k v s)"
    and del_some: "inv s \<Longrightarrow> look (del k s) = (look s)(k := None) \<and> cap (del k s) = cap s
        \<and> inv (del k s)"
begin

lemma ins_other:
  "inv s \<Longrightarrow> fresh s \<Longrightarrow> (\<And>k. ok k (f k)) \<Longrightarrow> ins f s = Some (k, s') \<Longrightarrow> look s j = Some v \<Longrightarrow>
     look s' j = Some v"
  using ins_some by (metis fun_upd_other option.distinct(1))

lemma ins_size:
  assumes "inv s" "fresh s" "\<And>k. ok k (f k)" "ins f s = Some (k, s')"
  shows "card (dom (look s')) = Suc (card (dom (look s)))"
  using ins_some [OF assms] bounded [OF assms(1)] by (simp add: domIff)

lemma put_other: "inv s \<Longrightarrow> look s k = Some w \<Longrightarrow> ok k v \<Longrightarrow> j \<noteq> k \<Longrightarrow> look (put k v s) j = look s j"
  using put_some by simp

lemma del_makes_room:
  assumes "inv s" and "look s k = Some v"
  shows "ins f (del k s) \<noteq> None"
proof -
  have "card (dom ((look s)(k := None))) < card (dom (look s))"
    using bounded [OF assms(1)] assms(2) card_Diff1_less [of "dom (look s)" k] by (simp add: domI)
  also have "\<dots> \<le> cap s" using bounded [OF assms(1)] by blast
  finally have "card (dom (look (del k s))) \<noteq> cap (del k s)"
    using del_some [OF assms(1), of k] by auto
  then show ?thesis
    using ins_full [of "del k s" f] del_some [OF assms(1), of k] by simp
qed

end

definition chan_table_inv :: "'ss sodchan_ctx \<Rightarrow> bool" where
  "chan_table_inv ctx \<longleftrightarrow> table_wf ctx \<and> ids_wf ctx"

lemma chan_map_ok:
  assumes "chan_table_inv ctx" and "chan_map ctx k = Some c"
  shows "chan_ok k c"
  using assms chan_map_Some [of ctx k c]
  by (auto simp: chan_table_inv_def table_wf_def chan_ok_def)

lemma ch_insert_None:
  assumes "chan_table_inv ctx"
  shows "ch_insert f ctx = None \<longleftrightarrow> card (dom (chan_map ctx)) = ctx_max_channels ctx"
proof -
  from assms have "table_wf ctx" and "ids_wf ctx" by (simp_all add: chan_table_inv_def)
  then show ?thesis
    by (cases rule: ch_alloc_cases) (simp_all add: ch_insert_def Let_def card_chan_map)
qed

lemma ch_insert_Some:
  assumes "chan_table_inv ctx" and "ctx_next_local_channel_id ctx + 1 \<noteq> 0"
    and "\<And>k. chan_ok k (f k)" and "ch_insert f ctx = Some (k, ctx')"
  shows "chan_map ctx k = None \<and> chan_map ctx' = (chan_map ctx)(k \<mapsto> f k)
    \<and> ctx_max_channels ctx' = ctx_max_channels ctx \<and> chan_table_inv ctx'"
proof -
  let ?n = "ctx_next_local_channel_id ctx"
  from assms have wf: "table_wf ctx" "ids_wf ctx" by (simp_all add: chan_table_inv_def)
  from assms(4) obtain i c where al: "ch_alloc ctx = (Some i, c)"
    and k: "k = ch_local_id (ch_at i c)" and ctx': "ctx' = ch_set i (f k) c"
    by (auto simp: ch_insert_def Let_def split: prod.splits option.splits)
  have f: "ch_used (f ?n)" "ch_local_id (f ?n) = ?n" "slot_ok (f ?n)"
    using assms(3) [of ?n] by (simp_all add: chan_ok_def)
  have "k = ?n" using ch_alloc_set(2) [OF wf(1) al f(1,3)] k by simp
  moreover have "ctx_max_channels c = ctx_max_channels ctx"
    using al by (cases rule: ch_alloc_cases [OF wf(1)]) auto
  ultimately show ?thesis
    using ch_alloc_set [OF wf(1) al f(1,3)] ch_alloc_set_ids [OF wf al assms(2) f(1,2)] ctx'
    by (simp add: chan_table_inv_def)
qed

lemma ch_put_law:
  assumes "chan_table_inv ctx" and "chan_map ctx k = Some w" and "chan_ok k c"
  shows "chan_map (ch_put k c ctx) = (chan_map ctx)(k \<mapsto> c)
    \<and> ctx_max_channels (ch_put k c ctx) = ctx_max_channels ctx \<and> chan_table_inv (ch_put k c ctx)"
proof -
  from assms(2) obtain i where i: "ch_by_local k ctx = Some i"
    by (auto simp: chan_map_def)
  note at = ch_by_local_Some [OF i]
  from assms(1,3) have wf: "table_wf ctx" "ids_wf ctx" and c: "ch_used c" "ch_local_id c = k" "slot_ok c"
    by (simp_all add: chan_table_inv_def chan_ok_def)
  have "table_wf (ch_set i c ctx)" and "ids_wf (ch_set i c ctx)"
    using at c wf by (simp_all add: ch_set_table_wf ch_set_ids_wf)
  then show ?thesis
    using chan_map_ch_set [OF wf(2) i c(1,2)] by (simp add: ch_put_def i chan_table_inv_def)
qed

lemma ch_remove_law:
  assumes "chan_table_inv ctx"
  shows "chan_map (ch_remove k ctx) = (chan_map ctx)(k := None)
    \<and> ctx_max_channels (ch_remove k ctx) = ctx_max_channels ctx \<and> chan_table_inv (ch_remove k ctx)"
proof (cases "ch_by_local k ctx")
  case None
  with assms show ?thesis by (auto simp: ch_remove_def chan_map_def)
next
  case (Some i)
  with assms show ?thesis
    using chan_map_ch_free [OF _ Some] ch_by_local_Some [OF Some]
    by (simp add: ch_remove_def chan_table_inv_def ch_free_table_wf ch_free_ids_wf ch_free_channels)
qed

interpretation chans: id_table
  chan_map ch_insert ch_put ch_remove ctx_max_channels chan_table_inv
  "\<lambda>ctx. ctx_next_local_channel_id ctx + 1 \<noteq> 0" chan_ok
proof unfold_locales
  fix s :: "'a sodchan_ctx"
  assume inv: "chan_table_inv s"
  then show "finite (dom (chan_map s)) \<and> card (dom (chan_map s)) \<le> ctx_max_channels s"
    by (simp add: card_chan_map chan_table_inv_def table_wf_def)
  show "ch_insert f s = None \<longleftrightarrow> card (dom (chan_map s)) = ctx_max_channels s" for f
    by (rule ch_insert_None [OF inv])
  show "chan_map (ch_remove k s) = (chan_map s)(k := None)
      \<and> ctx_max_channels (ch_remove k s) = ctx_max_channels s \<and> chan_table_inv (ch_remove k s)" for k
    by (rule ch_remove_law [OF inv])
next
  fix s s' :: "'a sodchan_ctx" and f k
  assume "chan_table_inv s" "ctx_next_local_channel_id s + 1 \<noteq> 0" "\<And>k. chan_ok k (f k)"
    "ch_insert f s = Some (k, s')"
  then show "chan_map s k = None \<and> chan_map s' = (chan_map s)(k \<mapsto> f k)
      \<and> ctx_max_channels s' = ctx_max_channels s \<and> chan_table_inv s'"
    by (rule ch_insert_Some)
qed (rule chan_map_ok ch_put_law; assumption)+

section \<open>The allowlist\<close>

text \<open>The entries of a comma-separated list.\<close>

primrec split_on :: "'a \<Rightarrow> 'a list \<Rightarrow> 'a list list" where
  "split_on c [] = [[]]"
| "split_on c (x # xs) =
     (if x = c then [] # split_on c xs
      else (x # hd (split_on c xs)) # tl (split_on c xs))"

lemma split_on_rec:
  "split_on c xs = takeWhile (\<lambda>x. x \<noteq> c) xs #
     (case dropWhile (\<lambda>x. x \<noteq> c) xs of [] \<Rightarrow> [] | y # ys \<Rightarrow> split_on c ys)"
  by (induction xs) auto

lemma name_scan_split:
  "name \<noteq> [] \<Longrightarrow> name_scan p name \<longleftrightarrow> name \<in> set (split_on 44 p)"
proof (induction p name rule: name_scan.induct)
  case (1 p name)
  let ?seg = "takeWhile (\<lambda>b. b \<noteq> 44) p" and ?comma = "dropWhile (\<lambda>b. b \<noteq> 44) p"
  have eq: "length ?seg = length name \<and> take (length name) p = name \<longleftrightarrow> name = ?seg"
    by (metis takeWhile_eq_take)
  show ?case
  proof (cases "p = [] \<or> name = ?seg \<or> ?comma = []")
    case True
    with 1(2) show ?thesis
      by (subst name_scan.simps, subst split_on_rec)
        (auto simp: eq Let_def simp del: dropWhile_eq_Nil_conv)
  next
    case False
    then have "name_scan (tl ?comma) name \<longleftrightarrow> name \<in> set (split_on 44 (tl ?comma))"
      using eq by (intro 1(1) [OF _ refl refl _ _ 1(2)]) auto
    moreover from False obtain y ys where comma: "?comma = y # ys" by (cases ?comma) auto
    ultimately show ?thesis
      using False
      by (subst name_scan.simps, subst split_on_rec)
        (auto simp: eq Let_def comma simp del: dropWhile_eq_Nil_conv)
  qed
qed

section \<open>Properties\<close>

text \<open>
  C28. The allowlist: a channel name is allowed exactly when it is a nonempty C
  string that equals one entry of the comma-separated list (the configured one,
  or the default list when none is configured); a name with a comma or a
  prefix of an entry is not.
\<close>

theorem channel_name_allowed_iff:
  "channel_name_allowed name ctx \<longleftrightarrow>
     (\<exists>s. name = Some s \<and> cstr s \<noteq> [] \<and>
        cstr s \<in> set (split_on 44 (cstr (case ctx_allowed_channels ctx of
          None \<Rightarrow> SODCHAN_DEFAULT_ALLOWED_CHANNELS | Some l \<Rightarrow> l))))"
  by (auto simp: channel_name_allowed_def name_scan_split split: option.splits)

text \<open>
  C17. The channel table is a bounded map from local ids to channels. While the
  id counter has not wrapped: allocation fails exactly when the table holds
  \<^verbatim>\<open>max_channels\<close> channels and then changes nothing; otherwise it gives an id no
  channel has, and adds only that channel; \<^verbatim>\<open>ch_by_local\<close> finds a channel exactly
  when the map has it; \<^verbatim>\<open>ch_free\<close> removes only that channel and makes room.
\<close>

theorem channel_table_map:
  assumes "chan_table_inv ctx" and "ctx_next_local_channel_id ctx + 1 \<noteq> 0"
  shows "(fst (ch_alloc ctx) = None \<longleftrightarrow> card (dom (chan_map ctx)) = ctx_max_channels ctx)
    \<and> (ch_alloc ctx = (None, ctx') \<longrightarrow> ctx' = ctx)
    \<and> (ch_alloc ctx = (Some i, ctx') \<longrightarrow> chan_ok (ctx_next_local_channel_id ctx) c \<longrightarrow>
         chan_map ctx (ctx_next_local_channel_id ctx) = None
         \<and> chan_map (ch_set i c ctx') = (chan_map ctx)(ctx_next_local_channel_id ctx \<mapsto> c)
         \<and> chan_table_inv (ch_set i c ctx'))
    \<and> (ch_by_local k ctx = Some j \<longrightarrow>
         chan_map ctx k = Some (ch_at j ctx) \<and> chan_map (ch_free j ctx) = (chan_map ctx)(k := None)
         \<and> chan_table_inv (ch_free j ctx) \<and> fst (ch_alloc (ch_free j ctx)) \<noteq> None)
    \<and> (ch_by_local k ctx = None \<longleftrightarrow> chan_map ctx k = None)"
proof (intro conjI impI)
  from assms(1) have wf: "table_wf ctx" "ids_wf ctx" by (simp_all add: chan_table_inv_def)
  have none: "fst (ch_alloc c) = None \<longleftrightarrow> ch_insert g c = None" for c :: "'a sodchan_ctx" and g
    by (auto simp: ch_insert_def Let_def split: prod.splits option.splits)
  show "fst (ch_alloc ctx) = None \<longleftrightarrow> card (dom (chan_map ctx)) = ctx_max_channels ctx"
    using chans.ins_full [OF assms(1)] none by blast
  show "ctx' = ctx" if "ch_alloc ctx = (None, ctx')"
    using that by (cases rule: ch_alloc_cases [OF wf(1)]) auto
  show "chan_map ctx (ctx_next_local_channel_id ctx) = None"
    and "chan_map (ch_set i c ctx') = (chan_map ctx)(ctx_next_local_channel_id ctx \<mapsto> c)"
    and "chan_table_inv (ch_set i c ctx')"
    if "ch_alloc ctx = (Some i, ctx')" and "chan_ok (ctx_next_local_channel_id ctx) c"
    using that ch_alloc_set [OF wf(1) that(1), of c] ch_alloc_set_ids [OF wf that(1) assms(2), of c]
    by (simp_all add: chan_ok_def chan_table_inv_def)
  assume j: "ch_by_local k ctx = Some j"
  then show look: "chan_map ctx k = Some (ch_at j ctx)" by (simp add: chan_map_def)
  have rem: "ch_free j ctx = ch_remove k ctx" by (simp add: ch_remove_def j)
  show "chan_map (ch_free j ctx) = (chan_map ctx)(k := None)" and "chan_table_inv (ch_free j ctx)"
    using chans.del_some [OF assms(1), of k] by (simp_all add: rem)
  show "fst (ch_alloc (ch_free j ctx)) \<noteq> None"
    using chans.del_makes_room [OF assms(1) look] none unfolding rem by blast
next
  show "ch_by_local k ctx = None \<longleftrightarrow> chan_map ctx k = None" by (simp add: chan_map_def)
qed

theorem channel_table_map_witness:
  "ch_by_local 7 (zero_ctx (0 :: nat) ROLE_CLIENT\<lparr> ctx_max_channels := 1 \<rparr>) = None
   \<and> fst (ch_alloc (zero_ctx (0 :: nat) ROLE_CLIENT\<lparr> ctx_max_channels := 1 \<rparr>)) \<noteq> None"
proof -
  let ?ctx = "zero_ctx (0 :: nat) ROLE_CLIENT\<lparr> ctx_max_channels := 1 \<rparr>"
  have inv: "chan_table_inv ?ctx"
    by (simp add: chan_table_inv_def table_wf_def ids_wf_def used_count_replicate
        SODCHAN_MAX_CHANNELS_def)
  have "chan_map ?ctx = (\<lambda>k. None)"
    by (rule ext) (simp add: chan_map_def ch_by_local_None)
  then show ?thesis
    using channel_table_map [OF inv, of "?ctx" 0 zero_channel 7 0] by simp
qed

end
