(* ===== verification/Wire_Mux.thy ===== *)
theory Wire_Mux
  imports Wire_Base
begin

text \<open>
  The multiplexer PDUs of \<^verbatim>\<open>src/sodchan_wire.c\<close>: channel open, confirm, fail,
  window, data, EOF and close, ping, pong and disconnect. Every encoder and
  decoder is a definition; for each format the pair is an interpretation of
  \<open>codec\<close>, so decoding inverts encoding and no two values share an encoding.
\<close>

section \<open>PDU type codes and reasons\<close>

definition SODCHAN_PDU_CHANNEL_OPEN :: byte where "SODCHAN_PDU_CHANNEL_OPEN = 1"
definition SODCHAN_PDU_CHANNEL_OPEN_CONFIRM :: byte where "SODCHAN_PDU_CHANNEL_OPEN_CONFIRM = 2"
definition SODCHAN_PDU_CHANNEL_OPEN_FAIL :: byte where "SODCHAN_PDU_CHANNEL_OPEN_FAIL = 3"
definition SODCHAN_PDU_CHANNEL_WINDOW :: byte where "SODCHAN_PDU_CHANNEL_WINDOW = 4"
definition SODCHAN_PDU_CHANNEL_DATA :: byte where "SODCHAN_PDU_CHANNEL_DATA = 5"
definition SODCHAN_PDU_CHANNEL_EOF :: byte where "SODCHAN_PDU_CHANNEL_EOF = 6"
definition SODCHAN_PDU_CHANNEL_CLOSE :: byte where "SODCHAN_PDU_CHANNEL_CLOSE = 7"
definition SODCHAN_PDU_PING :: byte where "SODCHAN_PDU_PING = 8"
definition SODCHAN_PDU_PONG :: byte where "SODCHAN_PDU_PONG = 9"
definition SODCHAN_PDU_DISCONNECT :: byte where "SODCHAN_PDU_DISCONNECT = 10"

lemmas mux_type_defs =
  SODCHAN_PDU_CHANNEL_OPEN_def SODCHAN_PDU_CHANNEL_OPEN_CONFIRM_def
  SODCHAN_PDU_CHANNEL_OPEN_FAIL_def SODCHAN_PDU_CHANNEL_WINDOW_def
  SODCHAN_PDU_CHANNEL_DATA_def SODCHAN_PDU_CHANNEL_EOF_def
  SODCHAN_PDU_CHANNEL_CLOSE_def SODCHAN_PDU_PING_def SODCHAN_PDU_PONG_def
  SODCHAN_PDU_DISCONNECT_def

definition SODCHAN_REASON_ADMIN_PROHIBITED :: u32 where "SODCHAN_REASON_ADMIN_PROHIBITED = 1"
definition SODCHAN_REASON_RESOURCE_SHORTAGE :: u32 where "SODCHAN_REASON_RESOURCE_SHORTAGE = 4"

section \<open>Encoders and decoders\<close>

definition sodchan_wire_pdu_type :: "span \<Rightarrow> rc + byte" where
  "sodchan_wire_pdu_type pdu =
     (case pdu of
        None \<Rightarrow> Inl SODCHAN_ERR_PARAM
      | Some p \<Rightarrow> if length p = 0 then Inl SODCHAN_ERR_PARAM else Inr (p ! 0))"

subsection \<open>Channel open\<close>

definition sodchan_wire_channel_open_encode ::
    "u32 \<Rightarrow> u32 \<Rightarrow> u32 \<Rightarrow> span \<Rightarrow> dest \<Rightarrow> rc + bytes" where
  "sodchan_wire_channel_open_encode sender_channel init_window max_packet name out =
     (case out of
        None \<Rightarrow> Inl SODCHAN_ERR_PARAM
      | Some out_cap \<Rightarrow>
          (case name of
             None \<Rightarrow> Inl SODCHAN_ERR_PARAM
           | Some nm \<Rightarrow>
               if length nm > SODCHAN_CHANNEL_NAME_MAX then Inl SODCHAN_ERR_PARAM
               else if out_cap < 1 + 4 + 4 + 4 + 1 + length nm then Inl SODCHAN_ERR_FULL
               else Inr ([SODCHAN_PDU_CHANNEL_OPEN]
                         @ sodchan_wire_put_u32 sender_channel
                         @ sodchan_wire_put_u32 init_window
                         @ sodchan_wire_put_u32 max_packet
                         @ [of_nat (length nm)] @ nm)))"

text \<open>
  The results are sender, initial window, maximal packet, the contents of the
  name buffer (of capacity \<open>name_cap\<close>, 0 also for a NULL buffer) and the name's
  length on the wire.
\<close>

definition sodchan_wire_channel_open_decode ::
    "span \<Rightarrow> nat \<Rightarrow> rc + u32 \<times> u32 \<times> u32 \<times> bytes \<times> nat" where
  "sodchan_wire_channel_open_decode pdu name_cap =
     (case pdu of
        None \<Rightarrow> Inl SODCHAN_ERR_PARAM
      | Some p \<Rightarrow>
          if length p < 14 \<or> p ! 0 \<noteq> SODCHAN_PDU_CHANNEL_OPEN then Inl SODCHAN_ERR_PROTOCOL
          else let nlen = unat (p ! 13) in
            if nlen > SODCHAN_CHANNEL_NAME_MAX \<or> length p \<noteq> 14 + nlen
            then Inl SODCHAN_ERR_PROTOCOL
            else Inr (sodchan_wire_get_u32 (drop 1 p), sodchan_wire_get_u32 (drop 5 p),
                      sodchan_wire_get_u32 (drop 9 p),
                      copy_cstr (drop 14 p) nlen name_cap, nlen))"

subsection \<open>Open confirm\<close>

definition sodchan_wire_channel_open_confirm_encode ::
    "u32 \<Rightarrow> u32 \<Rightarrow> u32 \<Rightarrow> u32 \<Rightarrow> dest \<Rightarrow> rc + bytes" where
  "sodchan_wire_channel_open_confirm_encode sender_channel recipient_channel init_window max_packet out =
     (case out of
        None \<Rightarrow> Inl SODCHAN_ERR_PARAM
      | Some out_cap \<Rightarrow>
          if out_cap < 17 then Inl SODCHAN_ERR_FULL
          else Inr ([SODCHAN_PDU_CHANNEL_OPEN_CONFIRM]
                    @ sodchan_wire_put_u32 sender_channel
                    @ sodchan_wire_put_u32 recipient_channel
                    @ sodchan_wire_put_u32 init_window
                    @ sodchan_wire_put_u32 max_packet))"

definition sodchan_wire_channel_open_confirm_decode ::
    "span \<Rightarrow> rc + u32 \<times> u32 \<times> u32 \<times> u32" where
  "sodchan_wire_channel_open_confirm_decode pdu =
     (case pdu of
        None \<Rightarrow> Inl SODCHAN_ERR_PARAM
      | Some p \<Rightarrow>
          if length p \<noteq> 17 \<or> p ! 0 \<noteq> SODCHAN_PDU_CHANNEL_OPEN_CONFIRM
          then Inl SODCHAN_ERR_PROTOCOL
          else Inr (sodchan_wire_get_u32 (drop 1 p), sodchan_wire_get_u32 (drop 5 p),
                    sodchan_wire_get_u32 (drop 9 p), sodchan_wire_get_u32 (drop 13 p)))"

subsection \<open>Open fail\<close>

definition sodchan_wire_channel_open_fail_encode ::
    "u32 \<Rightarrow> u32 \<Rightarrow> span \<Rightarrow> dest \<Rightarrow> rc + bytes" where
  "sodchan_wire_channel_open_fail_encode recipient_channel reason msg out =
     (case out of
        None \<Rightarrow> Inl SODCHAN_ERR_PARAM
      | Some out_cap \<Rightarrow>
          (case msg of
             None \<Rightarrow> Inl SODCHAN_ERR_PARAM
           | Some m \<Rightarrow>
               if length m > 255 then Inl SODCHAN_ERR_PARAM
               else if out_cap < 1 + 4 + 4 + 1 + length m then Inl SODCHAN_ERR_FULL
               else Inr ([SODCHAN_PDU_CHANNEL_OPEN_FAIL]
                         @ sodchan_wire_put_u32 recipient_channel
                         @ sodchan_wire_put_u32 reason
                         @ [of_nat (length m)] @ m)))"

definition sodchan_wire_channel_open_fail_decode ::
    "span \<Rightarrow> nat \<Rightarrow> rc + u32 \<times> u32 \<times> bytes \<times> nat" where
  "sodchan_wire_channel_open_fail_decode pdu msg_cap =
     (case pdu of
        None \<Rightarrow> Inl SODCHAN_ERR_PARAM
      | Some p \<Rightarrow>
          if length p < 10 \<or> p ! 0 \<noteq> SODCHAN_PDU_CHANNEL_OPEN_FAIL
          then Inl SODCHAN_ERR_PROTOCOL
          else let mlen = unat (p ! 9) in
            if length p \<noteq> 10 + mlen then Inl SODCHAN_ERR_PROTOCOL
            else Inr (sodchan_wire_get_u32 (drop 1 p), sodchan_wire_get_u32 (drop 5 p),
                      copy_cstr (drop 10 p) mlen msg_cap, mlen))"

subsection \<open>Data\<close>

definition sodchan_wire_channel_data_encode :: "u32 \<Rightarrow> span \<Rightarrow> dest \<Rightarrow> rc + bytes" where
  "sodchan_wire_channel_data_encode recipient_channel data out =
     (case out of
        None \<Rightarrow> Inl SODCHAN_ERR_PARAM
      | Some out_cap \<Rightarrow>
          (case data of
             None \<Rightarrow> Inl SODCHAN_ERR_PARAM
           | Some d \<Rightarrow>
               if length d > 0xFFFFFFFF - 9 then Inl SODCHAN_ERR_PARAM
               else if out_cap < 1 + 4 + 4 + length d then Inl SODCHAN_ERR_FULL
               else Inr ([SODCHAN_PDU_CHANNEL_DATA]
                         @ sodchan_wire_put_u32 recipient_channel
                         @ sodchan_wire_put_u32 (of_nat (length d)) @ d)))"

definition sodchan_wire_channel_data_decode :: "span \<Rightarrow> rc + u32 \<times> bytes" where
  "sodchan_wire_channel_data_decode pdu =
     (case pdu of
        None \<Rightarrow> Inl SODCHAN_ERR_PARAM
      | Some p \<Rightarrow>
          if length p < 9 \<or> p ! 0 \<noteq> SODCHAN_PDU_CHANNEL_DATA then Inl SODCHAN_ERR_PROTOCOL
          else let dlen = unat (sodchan_wire_get_u32 (drop 5 p)) in
            if length p \<noteq> 9 + dlen then Inl SODCHAN_ERR_PROTOCOL
            else Inr (sodchan_wire_get_u32 (drop 1 p), take dlen (drop 9 p)))"

subsection \<open>Window\<close>

definition sodchan_wire_channel_window_encode :: "u32 \<Rightarrow> u32 \<Rightarrow> dest \<Rightarrow> rc + bytes" where
  "sodchan_wire_channel_window_encode recipient_channel bytes_to_add out =
     (case out of
        None \<Rightarrow> Inl SODCHAN_ERR_PARAM
      | Some out_cap \<Rightarrow>
          if out_cap < 9 then Inl SODCHAN_ERR_FULL
          else Inr ([SODCHAN_PDU_CHANNEL_WINDOW]
                    @ sodchan_wire_put_u32 recipient_channel
                    @ sodchan_wire_put_u32 bytes_to_add))"

definition sodchan_wire_channel_window_decode :: "span \<Rightarrow> rc + u32 \<times> u32" where
  "sodchan_wire_channel_window_decode pdu =
     (case pdu of
        None \<Rightarrow> Inl SODCHAN_ERR_PARAM
      | Some p \<Rightarrow>
          if length p \<noteq> 9 \<or> p ! 0 \<noteq> SODCHAN_PDU_CHANNEL_WINDOW then Inl SODCHAN_ERR_PROTOCOL
          else Inr (sodchan_wire_get_u32 (drop 1 p), sodchan_wire_get_u32 (drop 5 p)))"

subsection \<open>EOF and close\<close>

definition sodchan_wire_channel_eof_encode :: "u32 \<Rightarrow> dest \<Rightarrow> rc + bytes" where
  "sodchan_wire_channel_eof_encode recipient_channel out =
     (case out of
        None \<Rightarrow> Inl SODCHAN_ERR_PARAM
      | Some out_cap \<Rightarrow>
          if out_cap < 5 then Inl SODCHAN_ERR_FULL
          else Inr ([SODCHAN_PDU_CHANNEL_EOF] @ sodchan_wire_put_u32 recipient_channel))"

definition sodchan_wire_channel_eof_decode :: "span \<Rightarrow> rc + u32" where
  "sodchan_wire_channel_eof_decode pdu =
     (case pdu of
        None \<Rightarrow> Inl SODCHAN_ERR_PARAM
      | Some p \<Rightarrow>
          if length p \<noteq> 5 \<or> p ! 0 \<noteq> SODCHAN_PDU_CHANNEL_EOF then Inl SODCHAN_ERR_PROTOCOL
          else Inr (sodchan_wire_get_u32 (drop 1 p)))"

definition sodchan_wire_channel_close_encode :: "u32 \<Rightarrow> dest \<Rightarrow> rc + bytes" where
  "sodchan_wire_channel_close_encode recipient_channel out =
     (case out of
        None \<Rightarrow> Inl SODCHAN_ERR_PARAM
      | Some out_cap \<Rightarrow>
          if out_cap < 5 then Inl SODCHAN_ERR_FULL
          else Inr ([SODCHAN_PDU_CHANNEL_CLOSE] @ sodchan_wire_put_u32 recipient_channel))"

definition sodchan_wire_channel_close_decode :: "span \<Rightarrow> rc + u32" where
  "sodchan_wire_channel_close_decode pdu =
     (case pdu of
        None \<Rightarrow> Inl SODCHAN_ERR_PARAM
      | Some p \<Rightarrow>
          if length p \<noteq> 5 \<or> p ! 0 \<noteq> SODCHAN_PDU_CHANNEL_CLOSE then Inl SODCHAN_ERR_PROTOCOL
          else Inr (sodchan_wire_get_u32 (drop 1 p)))"

subsection \<open>Ping and pong\<close>

definition sodchan_wire_ping_encode :: "u32 \<Rightarrow> dest \<Rightarrow> rc + bytes" where
  "sodchan_wire_ping_encode opaque out =
     (case out of
        None \<Rightarrow> Inl SODCHAN_ERR_PARAM
      | Some out_cap \<Rightarrow>
          if out_cap < 5 then Inl SODCHAN_ERR_FULL
          else Inr ([SODCHAN_PDU_PING] @ sodchan_wire_put_u32 opaque))"

definition sodchan_wire_ping_decode :: "span \<Rightarrow> rc + u32" where
  "sodchan_wire_ping_decode pdu =
     (case pdu of
        None \<Rightarrow> Inl SODCHAN_ERR_PARAM
      | Some p \<Rightarrow>
          if length p \<noteq> 5 \<or> p ! 0 \<noteq> SODCHAN_PDU_PING then Inl SODCHAN_ERR_PROTOCOL
          else Inr (sodchan_wire_get_u32 (drop 1 p)))"

definition sodchan_wire_pong_encode :: "u32 \<Rightarrow> dest \<Rightarrow> rc + bytes" where
  "sodchan_wire_pong_encode opaque out =
     (case out of
        None \<Rightarrow> Inl SODCHAN_ERR_PARAM
      | Some out_cap \<Rightarrow>
          if out_cap < 5 then Inl SODCHAN_ERR_FULL
          else Inr ([SODCHAN_PDU_PONG] @ sodchan_wire_put_u32 opaque))"

definition sodchan_wire_pong_decode :: "span \<Rightarrow> rc + u32" where
  "sodchan_wire_pong_decode pdu =
     (case pdu of
        None \<Rightarrow> Inl SODCHAN_ERR_PARAM
      | Some p \<Rightarrow>
          if length p \<noteq> 5 \<or> p ! 0 \<noteq> SODCHAN_PDU_PONG then Inl SODCHAN_ERR_PROTOCOL
          else Inr (sodchan_wire_get_u32 (drop 1 p)))"

subsection \<open>Disconnect\<close>

definition sodchan_wire_disconnect_decode :: "span \<Rightarrow> nat \<Rightarrow> rc + u32 \<times> bytes \<times> nat" where
  "sodchan_wire_disconnect_decode pdu msg_cap =
     (case pdu of
        None \<Rightarrow> Inl SODCHAN_ERR_PARAM
      | Some p \<Rightarrow>
          if length p < 6 \<or> p ! 0 \<noteq> SODCHAN_PDU_DISCONNECT then Inl SODCHAN_ERR_PROTOCOL
          else let mlen = unat (p ! 5) in
            if length p \<noteq> 6 + mlen then Inl SODCHAN_ERR_PROTOCOL
            else Inr (sodchan_wire_get_u32 (drop 1 p),
                      copy_cstr (drop 6 p) mlen msg_cap, mlen))"

definition sodchan_wire_disconnect_encode :: "u32 \<Rightarrow> span \<Rightarrow> dest \<Rightarrow> rc + bytes" where
  "sodchan_wire_disconnect_encode reason msg out =
     (case out of
        None \<Rightarrow> Inl SODCHAN_ERR_PARAM
      | Some out_cap \<Rightarrow>
          (case msg of
             None \<Rightarrow> Inl SODCHAN_ERR_PARAM
           | Some m \<Rightarrow>
               if length m > 255 then Inl SODCHAN_ERR_PARAM
               else if out_cap < 1 + 4 + 1 + length m then Inl SODCHAN_ERR_FULL
               else Inr ([SODCHAN_PDU_DISCONNECT] @ sodchan_wire_put_u32 reason
                         @ [of_nat (length m)] @ m)))"

lemmas mux_codec_defs =
  sodchan_wire_channel_open_encode_def sodchan_wire_channel_open_decode_def
  sodchan_wire_channel_open_confirm_encode_def sodchan_wire_channel_open_confirm_decode_def
  sodchan_wire_channel_open_fail_encode_def sodchan_wire_channel_open_fail_decode_def
  sodchan_wire_channel_data_encode_def sodchan_wire_channel_data_decode_def
  sodchan_wire_channel_window_encode_def sodchan_wire_channel_window_decode_def
  sodchan_wire_channel_eof_encode_def sodchan_wire_channel_eof_decode_def
  sodchan_wire_channel_close_encode_def sodchan_wire_channel_close_decode_def
  sodchan_wire_ping_encode_def sodchan_wire_ping_decode_def
  sodchan_wire_pong_encode_def sodchan_wire_pong_decode_def
  sodchan_wire_disconnect_decode_def sodchan_wire_disconnect_encode_def

section \<open>The formats as codecs\<close>

text \<open>
  The value-level view of each format. A decoder with a character buffer is
  given one that holds the longest legal text, as the callers do, and the
  text is read back out of that buffer.
\<close>

definition open_enc :: "u32 \<times> u32 \<times> u32 \<times> bytes \<Rightarrow> bytes" where
  "open_enc = (\<lambda>(s, w, m, nm). encoded (sodchan_wire_channel_open_encode s w m (Some nm) (Some 128)))"

definition open_dec :: "bytes \<Rightarrow> rc + u32 \<times> u32 \<times> u32 \<times> bytes" where
  "open_dec p = map_sum id (\<lambda>(s, w, m, buf, n). (s, w, m, take n buf))
                  (sodchan_wire_channel_open_decode (Some p) (SODCHAN_CHANNEL_NAME_MAX + 1))"

definition open_ok :: "u32 \<times> u32 \<times> u32 \<times> bytes \<Rightarrow> bool" where
  "open_ok = (\<lambda>(s, w, m, nm). length nm \<le> SODCHAN_CHANNEL_NAME_MAX)"

definition confirm_enc :: "u32 \<times> u32 \<times> u32 \<times> u32 \<Rightarrow> bytes" where
  "confirm_enc = (\<lambda>(s, r, w, m). encoded (sodchan_wire_channel_open_confirm_encode s r w m (Some 64)))"

definition open_fail_enc :: "u32 \<times> u32 \<times> bytes \<Rightarrow> bytes" where
  "open_fail_enc = (\<lambda>(r, e, m). encoded (sodchan_wire_channel_open_fail_encode r e (Some m) (Some 512)))"

definition open_fail_dec :: "bytes \<Rightarrow> rc + u32 \<times> u32 \<times> bytes" where
  "open_fail_dec p = map_sum id (\<lambda>(r, e, buf, n). (r, e, take n buf))
                       (sodchan_wire_channel_open_fail_decode (Some p) 256)"

definition data_enc :: "u32 \<times> bytes \<Rightarrow> bytes" where
  "data_enc = (\<lambda>(r, d). encoded (sodchan_wire_channel_data_encode r (Some d) (Some (9 + length d))))"

text \<open>A PDU is at most \<^verbatim>\<open>0xFFFFFFFF\<close> bytes long: no frame body is longer.\<close>

definition data_dec :: "bytes \<Rightarrow> rc + u32 \<times> bytes" where
  "data_dec p = (if length p \<le> 0xFFFFFFFF then sodchan_wire_channel_data_decode (Some p)
                 else Inl SODCHAN_ERR_PROTOCOL)"

definition window_enc :: "u32 \<times> u32 \<Rightarrow> bytes" where
  "window_enc = (\<lambda>(r, a). encoded (sodchan_wire_channel_window_encode r a (Some 16)))"

definition disconnect_enc :: "u32 \<times> bytes \<Rightarrow> bytes" where
  "disconnect_enc = (\<lambda>(r, m). encoded (sodchan_wire_disconnect_encode r (Some m) (Some 512)))"

definition disconnect_dec :: "bytes \<Rightarrow> rc + u32 \<times> bytes" where
  "disconnect_dec p = map_sum id (\<lambda>(r, buf, n). (r, take n buf))
                        (sodchan_wire_disconnect_decode (Some p) 256)"

lemmas mux_value_defs =
  open_enc_def open_dec_def open_ok_def confirm_enc_def open_fail_enc_def open_fail_dec_def
  data_enc_def data_dec_def window_enc_def disconnect_enc_def disconnect_dec_def SODCHAN_CHANNEL_NAME_MAX_def

interpretation open_codec: codec open_enc open_dec open_ok
proof unfold_locales
  show "open_dec (open_enc v) = Inr v" if "open_ok v" for v
    using that
    by (cases v) (simp add: mux_value_defs mux_codec_defs copy_cstr_fits unat_of_nat_byte Let_def nth_append)
  show "open_ok v" and "open_enc v = bs" if "open_dec bs = Inr v" for bs v
    using that
    by (auto simp: mux_value_defs mux_codec_defs copy_cstr_fits Let_def wire_join min_def
        split: if_splits)
qed

interpretation confirm_codec: codec
  confirm_enc "\<lambda>p. sodchan_wire_channel_open_confirm_decode (Some p)" "\<lambda>_. True"
proof unfold_locales
  show "sodchan_wire_channel_open_confirm_decode (Some (confirm_enc v)) = Inr v" for v
    by (cases v) (simp add: mux_value_defs mux_codec_defs)
  show "confirm_enc v = bs"
    if "sodchan_wire_channel_open_confirm_decode (Some bs) = Inr v" for bs v
    using that by (auto simp: mux_value_defs mux_codec_defs wire_join split: if_splits)
qed simp

interpretation open_fail_codec: codec
  open_fail_enc open_fail_dec "\<lambda>(r, e, m). length m \<le> 255"
proof unfold_locales
  show "open_fail_dec (open_fail_enc v) = Inr v"
    if "case v of (r, e, m) \<Rightarrow> length m \<le> 255" for v
    using that
    by (cases v) (simp add: mux_value_defs mux_codec_defs copy_cstr_fits unat_of_nat_byte Let_def nth_append)
  show "case v of (r, e, m) \<Rightarrow> length m \<le> 255" and "open_fail_enc v = bs"
    if "open_fail_dec bs = Inr v" for bs v
    using that
    by (auto simp: mux_value_defs mux_codec_defs copy_cstr_fits Let_def wire_join min_def
        unat_byte_le split: if_splits)
qed

lemma data_dec_enc:
  "length d \<le> 0xFFFFFFFF - 9 \<Longrightarrow> data_dec (data_enc (r, d)) = Inr (r, d)"
  by (simp add: data_dec_def data_enc_def mux_codec_defs unat_of_nat_u32 Let_def)

lemma data_decode_Inr:
  assumes "sodchan_wire_channel_data_decode (Some bs) = Inr (r, d)"
  shows "9 \<le> length bs" and "bs ! 0 = SODCHAN_PDU_CHANNEL_DATA"
    and "length bs = 9 + length d" and "d = drop 9 bs"
    and "sodchan_wire_get_u32 (drop 5 bs) = of_nat (length d)"
    and "r = sodchan_wire_get_u32 (drop 1 bs)"
proof -
  define n where "n = unat (sodchan_wire_get_u32 (drop 5 bs))"
  from assms have "9 \<le> length bs \<and> bs ! 0 = SODCHAN_PDU_CHANNEL_DATA \<and> length bs = 9 + n
      \<and> d = take n (drop 9 bs) \<and> r = sodchan_wire_get_u32 (drop 1 bs)"
    unfolding sodchan_wire_channel_data_decode_def option.case Let_def n_def [symmetric]
    by (auto split: if_splits)
  moreover from this have "length d = n" by simp
  moreover have "of_nat n = sodchan_wire_get_u32 (drop 5 bs)" by (simp add: n_def)
  ultimately show "9 \<le> length bs" and "bs ! 0 = SODCHAN_PDU_CHANNEL_DATA"
    and "length bs = 9 + length d" and "d = drop 9 bs"
    and "sodchan_wire_get_u32 (drop 5 bs) = of_nat (length d)"
    and "r = sodchan_wire_get_u32 (drop 1 bs)"
    by simp_all
qed

lemma data_enc_dec:
  assumes "data_dec bs = Inr (r, d)"
  shows "length d \<le> 0xFFFFFFFF - 9" and "data_enc (r, d) = bs"
proof -
  from assms have dec: "sodchan_wire_channel_data_decode (Some bs) = Inr (r, d)"
    and "length bs \<le> 0xFFFFFFFF"
    by (simp_all add: data_dec_def split: if_splits)
  note f = data_decode_Inr [OF dec]
  from f(3) \<open>length bs \<le> 0xFFFFFFFF\<close> show bound: "length d \<le> 0xFFFFFFFF - 9" by simp
  have "data_enc (r, d) = SODCHAN_PDU_CHANNEL_DATA # sodchan_wire_put_u32 r
      @ sodchan_wire_put_u32 (sodchan_wire_get_u32 (drop 5 bs)) @ d"
    using bound by (simp add: data_enc_def sodchan_wire_channel_data_encode_def f(5))
  also have "\<dots> = bs"
    unfolding f(4,6) using f(1,2) by (cases "bs = []") (simp_all add: wire_join)
  finally show "data_enc (r, d) = bs" .
qed

interpretation data_codec: codec data_enc data_dec "\<lambda>(r, d). length d \<le> 0xFFFFFFFF - 9"
  by unfold_locales (auto simp: data_dec_enc dest: data_enc_dec)

interpretation window_codec: codec
  window_enc "\<lambda>p. sodchan_wire_channel_window_decode (Some p)" "\<lambda>_. True"
proof unfold_locales
  show "sodchan_wire_channel_window_decode (Some (window_enc v)) = Inr v" for v
    by (cases v) (simp add: mux_value_defs mux_codec_defs)
  show "window_enc v = bs" if "sodchan_wire_channel_window_decode (Some bs) = Inr v" for bs v
    using that by (auto simp: mux_value_defs mux_codec_defs wire_join split: if_splits)
qed simp

interpretation disconnect_codec: codec
  disconnect_enc disconnect_dec "\<lambda>(r, m). length m \<le> 255"
proof unfold_locales
  show "disconnect_dec (disconnect_enc v) = Inr v"
    if "case v of (r, m) \<Rightarrow> length m \<le> 255" for v
    using that
    by (cases v) (simp add: mux_value_defs mux_codec_defs copy_cstr_fits unat_of_nat_byte Let_def nth_append)
  show "case v of (r, m) \<Rightarrow> length m \<le> 255" and "disconnect_enc v = bs"
    if "disconnect_dec bs = Inr v" for bs v
    using that
    by (auto simp: mux_value_defs mux_codec_defs copy_cstr_fits Let_def wire_join min_def
        unat_byte_le split: if_splits)
qed

text \<open>The four formats that carry one 32-bit word.\<close>

definition eof_enc :: "u32 \<Rightarrow> bytes" where
  "eof_enc r = encoded (sodchan_wire_channel_eof_encode r (Some 8))"

definition close_enc :: "u32 \<Rightarrow> bytes" where
  "close_enc r = encoded (sodchan_wire_channel_close_encode r (Some 8))"

definition ping_enc :: "u32 \<Rightarrow> bytes" where
  "ping_enc x = encoded (sodchan_wire_ping_encode x (Some 8))"

definition pong_enc :: "u32 \<Rightarrow> bytes" where
  "pong_enc x = encoded (sodchan_wire_pong_encode x (Some 8))"

lemmas word_pdu_defs = eof_enc_def close_enc_def ping_enc_def pong_enc_def

interpretation eof_codec: codec
  eof_enc "\<lambda>p. sodchan_wire_channel_eof_decode (Some p)" "\<lambda>_. True"
  by unfold_locales (auto simp: word_pdu_defs mux_codec_defs wire_join split: if_splits)

interpretation close_codec: codec
  close_enc "\<lambda>p. sodchan_wire_channel_close_decode (Some p)" "\<lambda>_. True"
  by unfold_locales (auto simp: word_pdu_defs mux_codec_defs wire_join split: if_splits)

interpretation ping_codec: codec
  ping_enc "\<lambda>p. sodchan_wire_ping_decode (Some p)" "\<lambda>_. True"
  by unfold_locales (auto simp: word_pdu_defs mux_codec_defs wire_join split: if_splits)

interpretation pong_codec: codec
  pong_enc "\<lambda>p. sodchan_wire_pong_decode (Some p)" "\<lambda>_. True"
  by unfold_locales (auto simp: word_pdu_defs mux_codec_defs wire_join split: if_splits)

section \<open>The whole multiplexer alphabet\<close>

text \<open>
  The abstract PDUs, their encoding by the encoders above, and the decoding by
  type byte and decoder, as the receive path dispatches it.
\<close>

datatype mux_pdu =
    Open u32 u32 u32 bytes
  | Confirm u32 u32 u32 u32
  | Open_Fail u32 u32 bytes
  | Window u32 u32
  | Data u32 bytes
  | Eof u32
  | Close u32
  | Ping u32
  | Pong u32
  | Disconnect u32 bytes

primrec mux_ok :: "mux_pdu \<Rightarrow> bool" where
  "mux_ok (Open s w m nm) = (length nm \<le> SODCHAN_CHANNEL_NAME_MAX)"
| "mux_ok (Confirm s r w m) = True"
| "mux_ok (Open_Fail r e m) = (length m \<le> 255)"
| "mux_ok (Window r a) = True"
| "mux_ok (Data r d) = (length d \<le> 0xFFFFFFFF - 9)"
| "mux_ok (Eof r) = True"
| "mux_ok (Close r) = True"
| "mux_ok (Ping x) = True"
| "mux_ok (Pong x) = True"
| "mux_ok (Disconnect r m) = (length m \<le> 255)"

primrec mux_encode :: "mux_pdu \<Rightarrow> bytes" where
  "mux_encode (Open s w m nm) = open_enc (s, w, m, nm)"
| "mux_encode (Confirm s r w m) = confirm_enc (s, r, w, m)"
| "mux_encode (Open_Fail r e m) = open_fail_enc (r, e, m)"
| "mux_encode (Window r a) = window_enc (r, a)"
| "mux_encode (Data r d) = data_enc (r, d)"
| "mux_encode (Eof r) = eof_enc r"
| "mux_encode (Close r) = close_enc r"
| "mux_encode (Ping x) = ping_enc x"
| "mux_encode (Pong x) = pong_enc x"
| "mux_encode (Disconnect r m) = disconnect_enc (r, m)"

definition mux_decode :: "bytes \<Rightarrow> rc + mux_pdu" where
  "mux_decode p =
     (case sodchan_wire_pdu_type (Some p) of
        Inl e \<Rightarrow> Inl e
      | Inr t \<Rightarrow>
          if t = SODCHAN_PDU_CHANNEL_OPEN
          then map_sum id (\<lambda>(s, w, m, nm). Open s w m nm) (open_dec p)
          else if t = SODCHAN_PDU_CHANNEL_OPEN_CONFIRM
          then map_sum id (\<lambda>(s, r, w, m). Confirm s r w m)
                 (sodchan_wire_channel_open_confirm_decode (Some p))
          else if t = SODCHAN_PDU_CHANNEL_OPEN_FAIL
          then map_sum id (\<lambda>(r, e, m). Open_Fail r e m) (open_fail_dec p)
          else if t = SODCHAN_PDU_CHANNEL_WINDOW
          then map_sum id (\<lambda>(r, a). Window r a) (sodchan_wire_channel_window_decode (Some p))
          else if t = SODCHAN_PDU_CHANNEL_DATA
          then map_sum id (\<lambda>(r, d). Data r d) (data_dec p)
          else if t = SODCHAN_PDU_CHANNEL_EOF
          then map_sum id Eof (sodchan_wire_channel_eof_decode (Some p))
          else if t = SODCHAN_PDU_CHANNEL_CLOSE
          then map_sum id Close (sodchan_wire_channel_close_decode (Some p))
          else if t = SODCHAN_PDU_PING then map_sum id Ping (sodchan_wire_ping_decode (Some p))
          else if t = SODCHAN_PDU_PONG then map_sum id Pong (sodchan_wire_pong_decode (Some p))
          else if t = SODCHAN_PDU_DISCONNECT
          then map_sum id (\<lambda>(r, m). Disconnect r m) (disconnect_dec p)
          else Inl SODCHAN_ERR_PROTOCOL)"

primrec mux_tag :: "mux_pdu \<Rightarrow> byte" where
  "mux_tag (Open s w m nm) = SODCHAN_PDU_CHANNEL_OPEN"
| "mux_tag (Confirm s r w m) = SODCHAN_PDU_CHANNEL_OPEN_CONFIRM"
| "mux_tag (Open_Fail r e m) = SODCHAN_PDU_CHANNEL_OPEN_FAIL"
| "mux_tag (Window r a) = SODCHAN_PDU_CHANNEL_WINDOW"
| "mux_tag (Data r d) = SODCHAN_PDU_CHANNEL_DATA"
| "mux_tag (Eof r) = SODCHAN_PDU_CHANNEL_EOF"
| "mux_tag (Close r) = SODCHAN_PDU_CHANNEL_CLOSE"
| "mux_tag (Ping x) = SODCHAN_PDU_PING"
| "mux_tag (Pong x) = SODCHAN_PDU_PONG"
| "mux_tag (Disconnect r m) = SODCHAN_PDU_DISCONNECT"

lemma mux_encode_tag: "mux_ok p \<Longrightarrow> sodchan_wire_pdu_type (Some (mux_encode p)) = Inr (mux_tag p)"
  by (cases p)
    (auto simp: sodchan_wire_pdu_type_def mux_value_defs word_pdu_defs mux_codec_defs)

lemmas mux_codec_laws =
  open_codec.dec_iff confirm_codec.dec_iff open_fail_codec.dec_iff window_codec.dec_iff
  data_codec.dec_iff eof_codec.dec_iff close_codec.dec_iff ping_codec.dec_iff
  pong_codec.dec_iff disconnect_codec.dec_iff

lemma map_sum_id_Inr: "map_sum id f s = Inr y \<longleftrightarrow> (\<exists>x. s = Inr x \<and> f x = y)"
  by (cases s) auto

lemma mux_decode_encode:
  assumes "mux_ok p"
  shows "mux_decode (mux_encode p) = Inr p"
  using assms mux_encode_tag [OF assms]
  by (cases p)
    (auto simp: mux_decode_def mux_type_defs map_sum_id_Inr mux_codec_laws open_ok_def)

lemma mux_decode_Inr:
  assumes "mux_decode bs = Inr p"
  shows "mux_ok p \<and> mux_encode p = bs"
  using assms
  by (auto simp: mux_decode_def map_sum_id_Inr mux_codec_laws open_ok_def
      split: sum.splits if_splits)

interpretation mux_codec: codec mux_encode mux_decode mux_ok
  by unfold_locales (auto simp: mux_decode_encode dest: mux_decode_Inr)

section \<open>Properties\<close>

text \<open>
  C23. The multiplexer formats: decoding inverts encoding for all ten PDU types
  together (so two different PDUs, of the same or of different types, never
  have the same bytes), and bytes that are not the encoding of a valid PDU are
  rejected.
\<close>

theorem mux_pdu_roundtrip:
  assumes "mux_ok p"
  shows "mux_decode (mux_encode p) = Inr p
    \<and> (\<forall>q. mux_ok q \<longrightarrow> mux_encode q = mux_encode p \<longrightarrow> q = p)
    \<and> (\<forall>bs. bs \<notin> mux_encode ` {q. mux_ok q} \<longrightarrow> (\<exists>e. mux_decode bs = Inl e))"
  using mux_codec.dec_enc [OF assms] mux_codec.enc_inj [OF _ assms] mux_codec.dec_rejects
  by blast

theorem mux_pdu_roundtrip_witness:
  "mux_ok (Open 3 70000 512 (ascii ''shell''))
     \<and> mux_decode (mux_encode (Open 3 70000 512 (ascii ''shell'')))
         = Inr (Open 3 70000 512 (ascii ''shell''))"
proof -
  have ok: "mux_ok (Open 3 70000 512 (ascii ''shell''))"
    by (simp add: SODCHAN_CHANNEL_NAME_MAX_def)
  then show ?thesis using mux_pdu_roundtrip [OF ok] by simp
qed

end
