(* ===== verification/Mux.thy ===== *)
theory Mux
  imports Channels Wire_Mux
begin

text \<open>
  The channel layer on the receiving side: \<^verbatim>\<open>handle_mux_pdu\<close> of
  \<^verbatim>\<open>src/sodchan.c\<close>, one definition per case of its switch. A handler returns the
  C result (0 or -1) and the context; \<open>err_ret\<close> is
  \<^verbatim>\<open>sodchan_i_set_error(...); return -1;\<close>. The lemmas show what each PDU does to
  the channel map, the events and the replies, and that malformed or
  out-of-contract PDUs end the session with an error.
\<close>

section \<open>Definitions\<close>

definition handle_channel_open ::
    "('ss, 'gh) sodium \<Rightarrow> bytes \<Rightarrow> 'ss sodchan_ctx \<Rightarrow> int \<times> 'ss sodchan_ctx" where
  "handle_channel_open sod plain ctx =
     (case sodchan_wire_channel_open_decode (Some plain) (SODCHAN_CHANNEL_NAME_MAX + 1) of
        Inl _ \<Rightarrow> err_ret SODCHAN_ERR_PROTOCOL ''OPEN decode'' ctx
      | Inr (peer_sender, init_win, max_pkt, name, nlen) \<Rightarrow>
          if \<not> channel_name_allowed (Some name) ctx then
            (let fail = encoded (sodchan_wire_channel_open_fail_encode peer_sender
                          SODCHAN_REASON_ADMIN_PROHIBITED (Some (ascii ''not allowed'')) (Some 64)) in
             (0, snd (ss_send_pdu sod (Some fail) ctx)))
          else
            (case ch_alloc ctx of
               (None, ctx) \<Rightarrow>
                 (let fail = encoded (sodchan_wire_channel_open_fail_encode peer_sender
                               SODCHAN_REASON_RESOURCE_SHORTAGE (Some []) (Some 64)) in
                  (0, snd (ss_send_pdu sod (Some fail) ctx)))
             | (Some i, ctx) \<Rightarrow>
                 (let ch = (ch_at i ctx)\<lparr> ch_state := CH_PENDING, ch_peer_id := peer_sender,
                             ch_have_peer_id := True, ch_send_window := init_win,
                             ch_max_packet := (if max_pkt \<noteq> 0 then max_pkt else ctx_max_packet ctx),
                             ch_recv_window := ctx_initial_window ctx,
                             ch_name := snprintf_s (SODCHAN_CHANNEL_NAME_MAX + 1) name \<rparr>;
                      ev = EVENT_CHANNEL_OPEN (ch_local_id ch) peer_sender
                             (snprintf_s (SODCHAN_CHANNEL_NAME_MAX + 1) name) init_win
                             (ch_max_packet ch) in
                  (0, emit ev (ch_set i ch ctx)))))"

definition handle_channel_open_confirm ::
    "bytes \<Rightarrow> 'ss sodchan_ctx \<Rightarrow> int \<times> 'ss sodchan_ctx" where
  "handle_channel_open_confirm plain ctx =
     (case sodchan_wire_channel_open_confirm_decode (Some plain) of
        Inl _ \<Rightarrow> err_ret SODCHAN_ERR_PROTOCOL ''CONFIRM decode'' ctx
      | Inr (peer_sender, recipient, init_win, max_pkt) \<Rightarrow>
          (case ch_by_local recipient ctx of
             None \<Rightarrow> err_ret SODCHAN_ERR_PROTOCOL ''CONFIRM unknown'' ctx
           | Some i \<Rightarrow>
               if ch_state (ch_at i ctx) \<noteq> CH_OPENING
               then err_ret SODCHAN_ERR_PROTOCOL ''CONFIRM unknown'' ctx
               else let ch = (ch_at i ctx)\<lparr> ch_peer_id := peer_sender, ch_have_peer_id := True,
                            ch_send_window := init_win,
                            ch_max_packet := (if max_pkt \<noteq> 0 then max_pkt else ctx_max_packet ctx),
                            ch_state := CH_OPEN \<rparr>;
                        ev = EVENT_CHANNEL_OPENED (ch_local_id ch) peer_sender
                            (snprintf_s (SODCHAN_CHANNEL_NAME_MAX + 1) (ch_name ch)) init_win
                            (ch_max_packet ch) in
                 (0, emit ev (ch_set i ch ctx))))"

definition handle_channel_open_fail ::
    "bytes \<Rightarrow> 'ss sodchan_ctx \<Rightarrow> int \<times> 'ss sodchan_ctx" where
  "handle_channel_open_fail plain ctx =
     (case sodchan_wire_channel_open_fail_decode (Some plain) 128 of
        Inl _ \<Rightarrow> err_ret SODCHAN_ERR_PROTOCOL ''OPEN_FAIL decode'' ctx
      | Inr (recipient, reason, msg, mlen) \<Rightarrow>
          (case ch_by_local recipient ctx of
             None \<Rightarrow> (0, ctx)
           | Some i \<Rightarrow>
               if ch_state (ch_at i ctx) = CH_OPENING
               then (0, ch_free i (emit (EVENT_CHANNEL_OPEN_FAIL (ch_local_id (ch_at i ctx))
                          (snprintf_s (SODCHAN_CHANNEL_NAME_MAX + 1) (ch_name (ch_at i ctx)))) ctx))
               else (0, ctx)))"

definition handle_channel_data :: "bytes \<Rightarrow> 'ss sodchan_ctx \<Rightarrow> int \<times> 'ss sodchan_ctx" where
  "handle_channel_data plain ctx =
     (case sodchan_wire_channel_data_decode (Some plain) of
        Inl _ \<Rightarrow> err_ret SODCHAN_ERR_PROTOCOL ''DATA decode'' ctx
      | Inr (recipient, data) \<Rightarrow>
          (case ch_by_local recipient ctx of
             None \<Rightarrow> err_ret SODCHAN_ERR_PROTOCOL ''DATA bad ch'' ctx
           | Some i \<Rightarrow>
               let ch = ch_at i ctx in
               if (ch_state ch \<noteq> CH_OPEN \<and> ch_state ch \<noteq> CH_PENDING) \<and> ch_state ch \<noteq> CH_OPEN
               then err_ret SODCHAN_ERR_PROTOCOL ''DATA bad ch'' ctx
               else if ch_state ch \<noteq> CH_OPEN
               then err_ret SODCHAN_ERR_PROTOCOL ''DATA not open'' ctx
               else if length data > unat (ch_recv_window ch)
               then err_ret SODCHAN_ERR_PROTOCOL ''DATA over window'' ctx
               else if length data > SODCHAN_DATA_MAX
               then err_ret SODCHAN_ERR_PROTOCOL ''DATA over max'' ctx
               else let ch = ch\<lparr> ch_recv_window := ch_recv_window ch - of_nat (length data) \<rparr> in
                 (0, emit (EVENT_CHANNEL_DATA (ch_local_id ch) data) (ch_set i ch ctx))))"

definition handle_channel_window :: "bytes \<Rightarrow> 'ss sodchan_ctx \<Rightarrow> int \<times> 'ss sodchan_ctx" where
  "handle_channel_window plain ctx =
     (case sodchan_wire_channel_window_decode (Some plain) of
        Inl _ \<Rightarrow> err_ret SODCHAN_ERR_PROTOCOL ''WINDOW decode'' ctx
      | Inr (recipient, add) \<Rightarrow>
          (case ch_by_local recipient ctx of
             None \<Rightarrow> (0, ctx)
           | Some i \<Rightarrow>
               if ch_state (ch_at i ctx) \<noteq> CH_OPEN then (0, ctx)
               else let ch = (ch_at i ctx)\<lparr> ch_send_window := ch_send_window (ch_at i ctx) + add \<rparr> in
                 (0, emit (EVENT_CHANNEL_WINDOW (ch_local_id ch) add (ch_send_window ch))
                       (ch_set i ch ctx))))"

definition handle_channel_eof :: "bytes \<Rightarrow> 'ss sodchan_ctx \<Rightarrow> int \<times> 'ss sodchan_ctx" where
  "handle_channel_eof plain ctx =
     (case sodchan_wire_channel_eof_decode (Some plain) of
        Inl _ \<Rightarrow> err_ret SODCHAN_ERR_PROTOCOL ''EOF decode'' ctx
      | Inr recipient \<Rightarrow>
          (case ch_by_local recipient ctx of
             None \<Rightarrow> (0, ctx)
           | Some i \<Rightarrow>
               let ch = (ch_at i ctx)\<lparr> ch_remote_eof := True \<rparr> in
               (0, emit (EVENT_CHANNEL_EOF (ch_local_id ch)) (ch_set i ch ctx))))"

definition handle_channel_close :: "bytes \<Rightarrow> 'ss sodchan_ctx \<Rightarrow> int \<times> 'ss sodchan_ctx" where
  "handle_channel_close plain ctx =
     (case sodchan_wire_channel_close_decode (Some plain) of
        Inl _ \<Rightarrow> err_ret SODCHAN_ERR_PROTOCOL ''CLOSE decode'' ctx
      | Inr recipient \<Rightarrow>
          (case ch_by_local recipient ctx of
             None \<Rightarrow> (0, ctx)
           | Some i \<Rightarrow> (0, ch_free i (emit (EVENT_CHANNEL_CLOSE (ch_local_id (ch_at i ctx))) ctx))))"

definition handle_ping ::
    "('ss, 'gh) sodium \<Rightarrow> bytes \<Rightarrow> 'ss sodchan_ctx \<Rightarrow> int \<times> 'ss sodchan_ctx" where
  "handle_ping sod plain ctx =
     (case sodchan_wire_ping_decode (Some plain) of
        Inl _ \<Rightarrow> err_ret SODCHAN_ERR_PROTOCOL ''PING decode'' ctx
      | Inr opaque \<Rightarrow>
          let ctx = emit EVENT_PING ctx in
          (case sodchan_wire_pong_encode opaque (Some 8) of
             Inl _ \<Rightarrow> (0, ctx)
           | Inr pong \<Rightarrow> (0, snd (ss_send_pdu sod (Some pong) ctx))))"

definition handle_disconnect :: "bytes \<Rightarrow> 'ss sodchan_ctx \<Rightarrow> int \<times> 'ss sodchan_ctx" where
  "handle_disconnect plain ctx =
     (case sodchan_wire_disconnect_decode (Some plain) 128 of
        Inl _ \<Rightarrow> err_ret SODCHAN_ERR_PROTOCOL ''DISCONNECT decode'' ctx
      | Inr (reason, msg, mlen) \<Rightarrow>
          let ev = EVENT_DISCONNECTED (sint reason)
                     (if mlen \<noteq> 0 then snprintf_s SODCHAN_ERROR_MAX msg else []) in
          (0, (emit ev ctx)\<lparr> ctx_state := STATE_CLOSED \<rparr>))"

text \<open>The switch. The caller passes a nonempty plaintext.\<close>

definition handle_mux_pdu ::
    "('ss, 'gh) sodium \<Rightarrow> bytes \<Rightarrow> 'ss sodchan_ctx \<Rightarrow> int \<times> 'ss sodchan_ctx" where
  "handle_mux_pdu sod plain ctx =
     (let ptype = plain ! 0 in
      if ptype = SODCHAN_PDU_CHANNEL_OPEN then handle_channel_open sod plain ctx
      else if ptype = SODCHAN_PDU_CHANNEL_OPEN_CONFIRM then handle_channel_open_confirm plain ctx
      else if ptype = SODCHAN_PDU_CHANNEL_OPEN_FAIL then handle_channel_open_fail plain ctx
      else if ptype = SODCHAN_PDU_CHANNEL_DATA then handle_channel_data plain ctx
      else if ptype = SODCHAN_PDU_CHANNEL_WINDOW then handle_channel_window plain ctx
      else if ptype = SODCHAN_PDU_CHANNEL_EOF then handle_channel_eof plain ctx
      else if ptype = SODCHAN_PDU_CHANNEL_CLOSE then handle_channel_close plain ctx
      else if ptype = SODCHAN_PDU_PING then handle_ping sod plain ctx
      else if ptype = SODCHAN_PDU_PONG then (0, ctx)
      else if ptype = SODCHAN_PDU_DISCONNECT then handle_disconnect plain ctx
      else err_ret SODCHAN_ERR_PROTOCOL ''unknown mux pdu'' ctx)"

lemmas mux_handler_defs =
  handle_channel_open_def handle_channel_open_confirm_def handle_channel_open_fail_def
  handle_channel_data_def handle_channel_window_def handle_channel_eof_def
  handle_channel_close_def handle_ping_def handle_disconnect_def

section \<open>The shapes of a step\<close>

text \<open>
  Whatever the PDU, the handler does one of seven things. The invariants are
  proved by the cases of this relation, not handler by handler.
\<close>

inductive mux_step :: "('ss, 'gh) sodium \<Rightarrow> 'ss sodchan_ctx \<Rightarrow> int \<times> 'ss sodchan_ctx \<Rightarrow> bool"
  for sod :: "('ss, 'gh) sodium" and ctx :: "'ss sodchan_ctx" where
  error: "mux_step sod ctx (err_ret SODCHAN_ERR_PROTOCOL msg ctx)"
| nothing: "mux_step sod ctx (0, ctx)"
| reply: "ctx1 = ctx \<or> ctx1 = emit EVENT_PING ctx \<Longrightarrow>
    mux_step sod ctx (0, snd (ss_send_pdu sod pl ctx1))"
| update: "ch_by_local k ctx = Some i \<Longrightarrow> ch_used c \<Longrightarrow> ch_local_id c = k \<Longrightarrow>
    (slot_ok (ch_at i ctx) \<Longrightarrow> slot_ok c) \<Longrightarrow> mux_step sod ctx (0, emit ev (ch_set i c ctx))"
| alloc: "ch_alloc ctx = (Some i, ctx1) \<Longrightarrow> ch_used c \<Longrightarrow>
    ch_local_id c = ch_local_id (ch_at i ctx1) \<Longrightarrow> slot_ok c \<Longrightarrow>
    mux_step sod ctx (0, emit ev (ch_set i c ctx1))"
| free: "ch_by_local k ctx = Some i \<Longrightarrow> mux_step sod ctx (0, ch_free i (emit ev ctx))"
| closed: "mux_step sod ctx (0, (emit ev ctx)\<lparr> ctx_state := STATE_CLOSED \<rparr>)"

lemma length_snprintf_s: "length (snprintf_s (Suc n) s) \<le> n"
  by (simp add: snprintf_s_def)

lemma snprintf_s_no_nul: "0 \<notin> set (snprintf_s n s)"
  using cstr_no_nul [of s] by (auto simp: snprintf_s_def dest: in_set_takeD)

lemma handle_channel_open_step: "mux_step sod ctx (handle_channel_open sod p ctx)"
proof -
  have "slot_ok (c\<lparr> ch_state := CH_PENDING, ch_peer_id := a, ch_have_peer_id := True,
      ch_send_window := b, ch_max_packet := d, ch_recv_window := e,
      ch_name := snprintf_s (SODCHAN_CHANNEL_NAME_MAX + 1) nm \<rparr>)" for c a b d e nm
    using length_snprintf_s [of SODCHAN_CHANNEL_NAME_MAX nm] snprintf_s_no_nul [of _ nm]
    by (simp add: slot_ok_def)
  then show ?thesis
    unfolding handle_channel_open_def Let_def
    by (auto split: sum.split prod.split option.split intro: mux_step.error mux_step.reply
        intro!: mux_step.alloc simp: ch_used_def dest: ch_alloc_None)
qed

lemma handle_channel_open_confirm_step: "mux_step sod ctx (handle_channel_open_confirm p ctx)"
  unfolding handle_channel_open_confirm_def Let_def
  by (auto split: sum.split prod.split option.split intro: mux_step.error
      intro!: mux_step.update simp: ch_used_def slot_ok_def dest: ch_by_local_Some)

lemma handle_channel_open_fail_step: "mux_step sod ctx (handle_channel_open_fail p ctx)"
  unfolding handle_channel_open_fail_def Let_def
  by (auto split: sum.split prod.split option.split intro: mux_step.error mux_step.nothing mux_step.free)

lemma handle_channel_data_step: "mux_step sod ctx (handle_channel_data p ctx)"
  unfolding handle_channel_data_def Let_def
  by (auto split: sum.split prod.split option.split intro: mux_step.error
      intro!: mux_step.update simp: ch_used_def slot_ok_def dest: ch_by_local_Some)

lemma handle_channel_window_step: "mux_step sod ctx (handle_channel_window p ctx)"
  unfolding handle_channel_window_def Let_def
  by (auto split: sum.split prod.split option.split intro: mux_step.error mux_step.nothing
      intro!: mux_step.update simp: ch_used_def slot_ok_def dest: ch_by_local_Some)

lemma handle_channel_eof_step: "mux_step sod ctx (handle_channel_eof p ctx)"
  unfolding handle_channel_eof_def Let_def
  by (auto split: sum.split prod.split option.split intro: mux_step.error mux_step.nothing
      intro!: mux_step.update simp: ch_used_def slot_ok_def dest: ch_by_local_Some)

lemma handle_channel_close_step: "mux_step sod ctx (handle_channel_close p ctx)"
  unfolding handle_channel_close_def Let_def
  by (auto split: sum.split prod.split option.split intro: mux_step.error mux_step.nothing mux_step.free)

lemma handle_ping_step: "mux_step sod ctx (handle_ping sod p ctx)"
  unfolding handle_ping_def Let_def
  by (auto simp: sodchan_wire_pong_encode_def split: sum.split intro: mux_step.error mux_step.reply)

lemma handle_disconnect_step: "mux_step sod ctx (handle_disconnect p ctx)"
  unfolding handle_disconnect_def Let_def
  by (auto split: sum.split prod.split intro: mux_step.error mux_step.closed)

lemma handle_mux_pdu_step: "mux_step sod ctx (handle_mux_pdu sod p ctx)"
  unfolding handle_mux_pdu_def Let_def
  by (simp add: handle_channel_open_step handle_channel_open_confirm_step handle_channel_open_fail_step
      handle_channel_data_step handle_channel_window_step handle_channel_eof_step
      handle_channel_close_step handle_ping_step handle_disconnect_step mux_step.error mux_step.nothing)

section \<open>Invariants of a step\<close>

inductive_cases mux_stepE: "mux_step sod ctx (r, ctx')"

lemma mux_step_session_part:
  "mux_step sod ctx (r, ctx') \<Longrightarrow> session_part ctx' = session_part ctx"
  by (erule mux_stepE) (auto dest: ch_alloc_Some)

lemma mux_step_ring_wf: "mux_step sod ctx (r, ctx') \<Longrightarrow> ring_wf ctx \<Longrightarrow> ring_wf ctx'"
  by (erule mux_stepE) (auto dest: ch_alloc_Some)

lemma mux_step_out_wf:
  "mux_step sod ctx (r, ctx') \<Longrightarrow> out_wf ctx \<Longrightarrow> push_len_law sod \<Longrightarrow> out_wf ctx'"
  by (erule mux_stepE) (auto dest: ch_alloc_Some)

lemma mux_step_state:
  "mux_step sod ctx (r, ctx') \<Longrightarrow>
     r = -1 \<and> ctx_state ctx' = STATE_ERROR
     \<or> r = 0 \<and> (ctx_state ctx' = ctx_state ctx \<or> ctx_state ctx' = STATE_CLOSED)"
  by (erule mux_stepE) (auto dest: ch_alloc_Some)

lemma mux_step_table_wf:
  assumes "mux_step sod ctx (r, ctx')" and "table_wf ctx"
  shows "table_wf ctx'"
  using assms(1)
proof (cases rule: mux_step.cases)
  case (update k i c ev)
  note i = ch_by_local_Some [OF update(3)]
  with assms(2) have "slot_ok (ch_at i ctx)" by (simp add: table_wf_def)
  with update i assms(2) show ?thesis by (auto intro!: ch_set_table_wf)
next
  case (alloc i ctx1 c ev)
  then show ?thesis using ch_alloc_set(1) [OF assms(2)] by simp
next
  case (free k i ev)
  then show ?thesis using assms(2) ch_by_local_Some [OF free(3)] by (auto intro!: ch_free_table_wf)
qed (use assms(2) in auto)

lemma mux_step_ids_wf:
  assumes "mux_step sod ctx (r, ctx')" and "table_wf ctx" and "ids_wf ctx"
    and "ctx_next_local_channel_id ctx + 1 \<noteq> 0"
  shows "ids_wf ctx'"
  using assms(1)
proof (cases rule: mux_step.cases)
  case (update k i c ev)
  then show ?thesis
    using assms(3) ch_by_local_Some [OF update(3)] by (auto intro!: ch_set_ids_wf)
next
  case (alloc i ctx1 c ev)
  then show ?thesis
    using ch_alloc_set_ids(1) [OF assms(2,3) _ assms(4), of i ctx1 c]
      ch_alloc_set(2) [OF assms(2), of i ctx1 c] by simp
next
  case (free k i ev)
  then show ?thesis using assms(3) by (auto intro: ch_free_ids_wf)
qed (use assms(3) in auto)

end
