(* ===== verification/Channel_Api.thy ===== *)
theory Channel_Api
  imports Mux
begin

text \<open>
  The channel operations of the host: \<^verbatim>\<open>sodchan_channel_open\<close>, \<^verbatim>\<open>_accept\<close>,
  \<^verbatim>\<open>_send\<close>, \<^verbatim>\<open>_window_avail\<close>, \<^verbatim>\<open>_eof\<close>, \<^verbatim>\<open>_close\<close> and \<^verbatim>\<open>_window_adjust\<close> of
  \<^verbatim>\<open>src/sodchan.c\<close>.
\<close>

section \<open>Definitions\<close>

text \<open>The second component is what is written through \<^verbatim>\<open>local_id_out\<close>.\<close>

definition sodchan_channel_open ::
    "('ss, 'gh) sodium \<Rightarrow> span \<Rightarrow> 'ss sodchan_ctx \<Rightarrow> rc \<times> u32 option \<times> 'ss sodchan_ctx" where
  "sodchan_channel_open sod name ctx =
     (case name of
        None \<Rightarrow> (SODCHAN_ERR_PARAM, None, ctx)
      | Some s \<Rightarrow>
          if cstr s = [] then (SODCHAN_ERR_PARAM, None, ctx)
          else if ctx_state ctx \<noteq> STATE_READY then (SODCHAN_ERR_STATE, None, ctx)
          else if c_strlen s > SODCHAN_CHANNEL_NAME_MAX then (SODCHAN_ERR_PARAM, None, ctx)
          else if \<not> channel_name_allowed (Some s) ctx then (SODCHAN_ERR_REJECTED, None, ctx)
          else
            (case ch_alloc ctx of
               (None, ctx) \<Rightarrow> (SODCHAN_ERR_FULL, None, ctx)
             | (Some i, ctx) \<Rightarrow>
                 let ctx = ch_set i ((ch_at i ctx)\<lparr> ch_state := CH_OPENING,
                             ch_recv_window := ctx_initial_window ctx,
                             ch_max_packet := ctx_max_packet ctx,
                             ch_name := snprintf_s (SODCHAN_CHANNEL_NAME_MAX + 1) s \<rparr>) ctx in
                 (case sodchan_wire_channel_open_encode (ch_local_id (ch_at i ctx))
                         (ctx_initial_window ctx) (ctx_max_packet ctx) (Some (cstr s)) (Some 128) of
                    Inl _ \<Rightarrow> (SODCHAN_ERR_PROTOCOL, None, ch_free i ctx)
                  | Inr pdu \<Rightarrow>
                      (case ss_send_pdu sod (Some pdu) ctx of
                         (rc, ctx) \<Rightarrow>
                           if rc \<noteq> SODCHAN_OK then (SODCHAN_ERR_FULL, None, ch_free i ctx)
                           else (SODCHAN_OK, Some (ch_local_id (ch_at i ctx)), ctx)))))"

definition sodchan_channel_accept ::
    "('ss, 'gh) sodium \<Rightarrow> u32 \<Rightarrow> bool \<Rightarrow> 'ss sodchan_ctx \<Rightarrow> rc \<times> 'ss sodchan_ctx" where
  "sodchan_channel_accept sod local_id accept ctx =
     (if ctx_state ctx \<noteq> STATE_READY then (SODCHAN_ERR_STATE, ctx)
      else (case ch_by_local local_id ctx of
              None \<Rightarrow> (SODCHAN_ERR_STATE, ctx)
            | Some i \<Rightarrow>
                let ch = ch_at i ctx in
                if ch_state ch \<noteq> CH_PENDING then (SODCHAN_ERR_STATE, ctx)
                else if \<not> ch_have_peer_id ch then (SODCHAN_ERR_STATE, ctx)
                else if accept then
                  (case sodchan_wire_channel_open_confirm_encode (ch_local_id ch) (ch_peer_id ch)
                          (ctx_initial_window ctx) (ctx_max_packet ctx) (Some 64) of
                     Inl _ \<Rightarrow> (SODCHAN_ERR_PROTOCOL, ctx)
                   | Inr pdu \<Rightarrow>
                       (case ss_send_pdu sod (Some pdu) ctx of
                          (rc, ctx) \<Rightarrow>
                            if rc \<noteq> SODCHAN_OK then (SODCHAN_ERR_FULL, ctx)
                            else
                              let ch = (ch_at i ctx)\<lparr> ch_state := CH_OPEN,
                                         ch_recv_window := ctx_initial_window ctx \<rparr>;
                                  ev = EVENT_CHANNEL_OPENED (ch_local_id ch) (ch_peer_id ch)
                                         (snprintf_s (SODCHAN_CHANNEL_NAME_MAX + 1) (ch_name ch))
                                         (ctx_initial_window ctx) (ctx_max_packet ctx) in
                              (SODCHAN_OK, emit ev (ch_set i ch ctx))))
                else
                  (case sodchan_wire_channel_open_fail_encode (ch_peer_id ch)
                          SODCHAN_REASON_ADMIN_PROHIBITED (Some []) (Some 64) of
                     Inl _ \<Rightarrow> (SODCHAN_ERR_PROTOCOL, ctx)
                   | Inr pdu \<Rightarrow>
                       (case ss_send_pdu sod (Some pdu) ctx of
                          (rc, ctx) \<Rightarrow>
                            if rc \<noteq> SODCHAN_OK then (SODCHAN_ERR_FULL, ctx)
                            else (SODCHAN_OK, ch_free i ctx)))))"

text \<open>\<open>mem\<close>: whether \<^verbatim>\<open>malloc\<close> finds memory for the PDU.\<close>

definition sodchan_channel_send ::
    "('ss, 'gh) sodium \<Rightarrow> bool \<Rightarrow> u32 \<Rightarrow> span \<Rightarrow> 'ss sodchan_ctx \<Rightarrow> rc \<times> 'ss sodchan_ctx" where
  "sodchan_channel_send sod mem local_id data ctx =
     (case data of
        None \<Rightarrow> (SODCHAN_ERR_PARAM, ctx)
      | Some d \<Rightarrow>
          if ctx_state ctx \<noteq> STATE_READY then (SODCHAN_ERR_STATE, ctx)
          else (case ch_by_local local_id ctx of
                  None \<Rightarrow> (SODCHAN_ERR_NOTFOUND, ctx)
                | Some i \<Rightarrow>
                    let ch = ch_at i ctx in
                    if ch_state ch \<noteq> CH_OPEN \<or> \<not> ch_have_peer_id ch then (SODCHAN_ERR_NOTFOUND, ctx)
                    else if ch_local_eof ch then (SODCHAN_ERR_STATE, ctx)
                    else if length d > unat (ch_max_packet ch) \<or> length d > SODCHAN_DATA_MAX
                    then (SODCHAN_ERR_PARAM, ctx)
                    else if length d > unat (ch_send_window ch) then (SODCHAN_ERR_WINDOW, ctx)
                    else if \<not> mem then (SODCHAN_ERR_NOMEM, ctx)
                    else
                      (case sodchan_wire_channel_data_encode (ch_peer_id ch) (Some d)
                              (Some (9 + length d)) of
                         Inl e \<Rightarrow> (e, ctx)
                       | Inr pdu \<Rightarrow>
                           (case ss_send_pdu sod (Some pdu) ctx of
                              (rc, ctx) \<Rightarrow>
                                if rc \<noteq> SODCHAN_OK then (rc, ctx)
                                else (SODCHAN_OK,
                                      ch_set i ((ch_at i ctx)\<lparr> ch_send_window :=
                                        ch_send_window (ch_at i ctx) - of_nat (length d) \<rparr>) ctx)))))"

definition sodchan_channel_window_avail :: "u32 \<Rightarrow> 'ss sodchan_ctx \<Rightarrow> u32" where
  "sodchan_channel_window_avail local_id ctx =
     (case slot_index (\<lambda>c. ch_state c = CH_OPEN \<and> ch_local_id c = local_id) (ctx_channels ctx) of
        None \<Rightarrow> 0
      | Some i \<Rightarrow> ch_send_window (ch_at i ctx))"

definition sodchan_channel_eof ::
    "('ss, 'gh) sodium \<Rightarrow> u32 \<Rightarrow> 'ss sodchan_ctx \<Rightarrow> rc \<times> 'ss sodchan_ctx" where
  "sodchan_channel_eof sod local_id ctx =
     (if ctx_state ctx \<noteq> STATE_READY then (SODCHAN_ERR_STATE, ctx)
      else (case ch_by_local local_id ctx of
              None \<Rightarrow> (SODCHAN_ERR_NOTFOUND, ctx)
            | Some i \<Rightarrow>
                let ch = ch_at i ctx in
                if ch_state ch \<noteq> CH_OPEN \<or> \<not> ch_have_peer_id ch then (SODCHAN_ERR_NOTFOUND, ctx)
                else if ch_local_eof ch then (SODCHAN_OK, ctx)
                else
                  (case sodchan_wire_channel_eof_encode (ch_peer_id ch) (Some 8) of
                     Inl _ \<Rightarrow> (SODCHAN_ERR_PROTOCOL, ctx)
                   | Inr pdu \<Rightarrow>
                       (case ss_send_pdu sod (Some pdu) ctx of
                          (rc, ctx) \<Rightarrow>
                            if rc \<noteq> SODCHAN_OK then (SODCHAN_ERR_FULL, ctx)
                            else (SODCHAN_OK,
                                  ch_set i ((ch_at i ctx)\<lparr> ch_local_eof := True \<rparr>) ctx)))))"

definition sodchan_channel_close ::
    "('ss, 'gh) sodium \<Rightarrow> u32 \<Rightarrow> 'ss sodchan_ctx \<Rightarrow> rc \<times> 'ss sodchan_ctx" where
  "sodchan_channel_close sod local_id ctx =
     (if ctx_state ctx \<noteq> STATE_READY \<and> ctx_state ctx \<noteq> STATE_DRAINING then (SODCHAN_ERR_STATE, ctx)
      else (case ch_by_local local_id ctx of
              None \<Rightarrow> (SODCHAN_ERR_NOTFOUND, ctx)
            | Some i \<Rightarrow>
                let ch = ch_at i ctx in
                if ch_state ch = CH_UNUSED then (SODCHAN_ERR_NOTFOUND, ctx)
                else
                  let ctx =
                    (if ch_have_peer_id ch \<and> ch_state ch = CH_OPEN
                     then (case sodchan_wire_channel_close_encode (ch_peer_id ch) (Some 8) of
                             Inl _ \<Rightarrow> ctx
                           | Inr pdu \<Rightarrow> snd (ss_send_pdu sod (Some pdu) ctx))
                     else ctx) in
                  (SODCHAN_OK, ch_free i ctx)))"

definition sodchan_channel_window_adjust ::
    "('ss, 'gh) sodium \<Rightarrow> u32 \<Rightarrow> u32 \<Rightarrow> 'ss sodchan_ctx \<Rightarrow> rc \<times> 'ss sodchan_ctx" where
  "sodchan_channel_window_adjust sod local_id credit ctx =
     (if credit = 0 then (SODCHAN_ERR_PARAM, ctx)
      else if ctx_state ctx \<noteq> STATE_READY then (SODCHAN_ERR_STATE, ctx)
      else (case ch_by_local local_id ctx of
              None \<Rightarrow> (SODCHAN_ERR_NOTFOUND, ctx)
            | Some i \<Rightarrow>
                let ch = ch_at i ctx in
                if ch_state ch \<noteq> CH_OPEN \<or> \<not> ch_have_peer_id ch then (SODCHAN_ERR_NOTFOUND, ctx)
                else
                  (case sodchan_wire_channel_window_encode (ch_peer_id ch) credit (Some 16) of
                     Inl _ \<Rightarrow> (SODCHAN_ERR_PROTOCOL, ctx)
                   | Inr pdu \<Rightarrow>
                       (case ss_send_pdu sod (Some pdu) ctx of
                          (rc, ctx) \<Rightarrow>
                            if rc \<noteq> SODCHAN_OK then (SODCHAN_ERR_FULL, ctx)
                            else (SODCHAN_OK,
                                  ch_set i ((ch_at i ctx)\<lparr> ch_recv_window :=
                                    ch_recv_window (ch_at i ctx) + credit \<rparr>) ctx)))))"

section \<open>The shapes of a call\<close>

text \<open>
  Whatever the call and its outcome, it does one of six things; \<open>pl = None\<close> is
  the case that nothing is sent.
\<close>

lemma ss_send_none [simp]: "snd (ss_send_pdu sod None ctx) = ctx"
  by (simp add: ss_send_pdu_def)

inductive api_step :: "('ss, 'gh) sodium \<Rightarrow> 'ss sodchan_ctx \<Rightarrow> 'ss sodchan_ctx \<Rightarrow> bool"
  for sod :: "('ss, 'gh) sodium" and ctx :: "'ss sodchan_ctx" where
  send: "api_step sod ctx (snd (ss_send_pdu sod pl ctx))"
| update: "ch_by_local k ctx = Some i \<Longrightarrow> ch_used c \<Longrightarrow> ch_local_id c = k \<Longrightarrow>
    (slot_ok (ch_at i ctx) \<Longrightarrow> slot_ok c) \<Longrightarrow>
    api_step sod ctx (ch_set i c (snd (ss_send_pdu sod pl ctx)))"
| announce: "ch_by_local k ctx = Some i \<Longrightarrow> ch_used c \<Longrightarrow> ch_local_id c = k \<Longrightarrow>
    (slot_ok (ch_at i ctx) \<Longrightarrow> slot_ok c) \<Longrightarrow>
    api_step sod ctx (emit ev (ch_set i c (snd (ss_send_pdu sod pl ctx))))"
| free: "ch_by_local k ctx = Some i \<Longrightarrow> api_step sod ctx (ch_free i (snd (ss_send_pdu sod pl ctx)))"
| alloc: "ch_alloc ctx = (Some i, ctx1) \<Longrightarrow> ch_used c \<Longrightarrow>
    ch_local_id c = ch_local_id (ch_at i ctx1) \<Longrightarrow> slot_ok c \<Longrightarrow>
    api_step sod ctx (snd (ss_send_pdu sod pl (ch_set i c ctx1)))"
| undo: "ch_alloc ctx = (Some i, ctx1) \<Longrightarrow> ch_used c \<Longrightarrow>
    ch_local_id c = ch_local_id (ch_at i ctx1) \<Longrightarrow> slot_ok c \<Longrightarrow>
    api_step sod ctx (ch_free i (snd (ss_send_pdu sod pl (ch_set i c ctx1))))"

lemma api_nothing: "api_step sod ctx ctx"
  using api_step.send [of sod ctx None] by simp

lemma api_undo_quiet:
  "ch_alloc ctx = (Some i, ctx1) \<Longrightarrow> ch_used c \<Longrightarrow>
    ch_local_id c = ch_local_id (ch_at i ctx1) \<Longrightarrow> slot_ok c \<Longrightarrow>
    api_step sod ctx (ch_free i (ch_set i c ctx1))"
  using api_step.undo [of ctx i ctx1 c sod None] by simp

lemma api_free_quiet: "ch_by_local k ctx = Some i \<Longrightarrow> api_step sod ctx (ch_free i ctx)"
  using api_step.free [of k ctx i sod None] by simp

lemma ss_send_pair: "ss_send_pdu sod pl ctx = (rc, ctx') \<Longrightarrow> ctx' = snd (ss_send_pdu sod pl ctx)"
  by simp

lemma channel_open_step: "api_step sod ctx (snd (snd (sodchan_channel_open sod name ctx)))"
proof (cases "ch_alloc ctx")
  case (Pair a ctx1)
  show ?thesis
  proof (cases a)
    case None
    with Pair show ?thesis
      by (auto simp: sodchan_channel_open_def api_nothing dest: ch_alloc_None split: option.split)
  next
    case (Some i)
    define c where "c s = (ch_at i ctx1)\<lparr> ch_state := CH_OPENING, ch_recv_window := ctx_initial_window ctx1,
        ch_max_packet := ctx_max_packet ctx1,
        ch_name := snprintf_s (Suc SODCHAN_CHANNEL_NAME_MAX) s \<rparr>" for s
    have al: "ch_alloc ctx = (Some i, ctx1)" using Pair Some by simp
    have "i < length (ctx_channels ctx)"
      using al by (auto simp: ch_alloc_def slot_index_Some split: if_splits option.splits)
    then have at: "ch_at i ctx1 = zero_channel\<lparr> ch_local_id := ctx_next_local_channel_id ctx \<rparr>"
      using ch_alloc_Some [OF al] by simp
    have ok: "ch_used (c s)" "ch_local_id (c s) = ch_local_id (ch_at i ctx1)" "slot_ok (c s)" for s
      using length_snprintf_s [of SODCHAN_CHANNEL_NAME_MAX s] snprintf_s_no_nul [of _ s]
      by (simp_all add: c_def ch_used_def slot_ok_def at zero_channel_def)
    show ?thesis
      unfolding sodchan_channel_open_def al Let_def
      using api_step.undo [OF al ok, of sod] api_step.alloc [OF al ok, of sod] api_undo_quiet [OF al ok, of sod]
      by (auto simp: c_def api_nothing dest!: ss_send_pair split: option.split sum.split prod.split)
  qed
qed

lemma channel_accept_step: "api_step sod ctx (snd (sodchan_channel_accept sod k acc ctx))"
proof (cases "ch_by_local k ctx")
  case None
  then show ?thesis by (simp add: sodchan_channel_accept_def api_nothing)
next
  case (Some i)
  then show ?thesis
    using ch_by_local_Some [OF Some]
    unfolding sodchan_channel_accept_def Let_def
    by (auto simp: api_nothing ch_used_def slot_ok_def intro: api_step.free api_step.send
        intro!: api_step.update [OF Some] api_step.announce [OF Some] dest!: ss_send_pair split: sum.split prod.split)
qed

lemma channel_send_step: "api_step sod ctx (snd (sodchan_channel_send sod mem k d ctx))"
proof (cases "ch_by_local k ctx")
  case None
  then show ?thesis by (simp add: sodchan_channel_send_def api_nothing split: option.split)
next
  case (Some i)
  then show ?thesis
    using ch_by_local_Some [OF Some]
    unfolding sodchan_channel_send_def Let_def
    by (auto simp: api_nothing ch_used_def slot_ok_def intro: api_step.send
        intro!: api_step.update [OF Some] api_step.announce [OF Some] dest!: ss_send_pair split: sum.split prod.split option.split)
qed

lemma channel_eof_step: "api_step sod ctx (snd (sodchan_channel_eof sod k ctx))"
proof (cases "ch_by_local k ctx")
  case None
  then show ?thesis by (simp add: sodchan_channel_eof_def api_nothing)
next
  case (Some i)
  then show ?thesis
    using ch_by_local_Some [OF Some]
    unfolding sodchan_channel_eof_def Let_def
    by (auto simp: api_nothing ch_used_def slot_ok_def intro: api_step.send
        intro!: api_step.update [OF Some] api_step.announce [OF Some] dest!: ss_send_pair split: sum.split prod.split)
qed

lemma channel_window_adjust_step: "api_step sod ctx (snd (sodchan_channel_window_adjust sod k a ctx))"
proof (cases "ch_by_local k ctx")
  case None
  then show ?thesis by (simp add: sodchan_channel_window_adjust_def api_nothing)
next
  case (Some i)
  then show ?thesis
    using ch_by_local_Some [OF Some]
    unfolding sodchan_channel_window_adjust_def Let_def
    by (auto simp: api_nothing ch_used_def slot_ok_def intro: api_step.send
        intro!: api_step.update [OF Some] api_step.announce [OF Some] dest!: ss_send_pair split: sum.split prod.split)
qed

lemma channel_close_step: "api_step sod ctx (snd (sodchan_channel_close sod k ctx))"
  unfolding sodchan_channel_close_def Let_def
  by (auto simp: api_nothing intro: api_step.free api_free_quiet split: sum.split option.split)

section \<open>Invariants of a call\<close>

lemma api_step_session_part: "api_step sod ctx ctx' \<Longrightarrow> session_part ctx' = session_part ctx"
  by (induction rule: api_step.induct) (auto dest: ch_alloc_Some)

lemma api_step_ring_wf: "api_step sod ctx ctx' \<Longrightarrow> ring_wf ctx \<Longrightarrow> ring_wf ctx'"
  by (induction rule: api_step.induct) (auto dest: ch_alloc_Some)

lemma api_step_out_wf:
  "api_step sod ctx ctx' \<Longrightarrow> out_wf ctx \<Longrightarrow> push_len_law sod \<Longrightarrow> out_wf ctx'"
  by (induction rule: api_step.induct) (auto dest: ch_alloc_Some)

lemma api_step_state: "api_step sod ctx ctx' \<Longrightarrow> ctx_state ctx' = ctx_state ctx"
  by (induction rule: api_step.induct) (auto dest: ch_alloc_Some)

lemma ch_alloc_length:
  "ch_alloc ctx = (Some i, ctx') \<Longrightarrow> i < length (ctx_channels ctx')"
  by (auto simp: ch_alloc_def slot_index_Some split: if_splits option.splits)

lemma api_step_table_wf:
  assumes "api_step sod ctx ctx'" and "table_wf ctx"
  shows "table_wf ctx'"
  using assms
proof (induction rule: api_step.induct)
  case (update k i c pl)
  note i = ch_by_local_Some [OF update(1)]
  with update(5) have "slot_ok (ch_at i ctx)" by (simp add: table_wf_def)
  with update i show ?case by (auto intro!: ch_set_table_wf)
next
  case (announce k i c ev pl)
  note i = ch_by_local_Some [OF announce(1)]
  with announce(5) have "slot_ok (ch_at i ctx)" by (simp add: table_wf_def)
  with announce i show ?case by (auto intro!: ch_set_table_wf)
next
  case (free k i pl)
  then show ?case using ch_by_local_Some [OF free(1)] by (auto intro!: ch_free_table_wf)
next
  case (alloc i ctx1 c pl)
  then show ?case using ch_alloc_set(1) [OF alloc(5,1)] by simp
next
  case (undo i ctx1 c pl)
  then show ?case
    using ch_alloc_set(1) [OF undo(5,1)] ch_alloc_length [OF undo(1)] by (auto intro!: ch_free_table_wf)
qed simp_all

lemma api_step_ids_wf:
  assumes "api_step sod ctx ctx'" and "table_wf ctx" and "ids_wf ctx"
    and "ctx_next_local_channel_id ctx + 1 \<noteq> 0"
  shows "ids_wf ctx'"
  using assms
proof (induction rule: api_step.induct)
  case (update k i c pl)
  then show ?case using ch_by_local_Some [OF update(1)] by (auto intro!: ch_set_ids_wf)
next
  case (announce k i c ev pl)
  then show ?case using ch_by_local_Some [OF announce(1)] by (auto intro!: ch_set_ids_wf)
next
  case (free k i pl)
  then show ?case by (auto intro!: ch_free_ids_wf)
next
  case (alloc i ctx1 c pl)
  then show ?case
    using ch_alloc_set_ids(1) [OF alloc(5,6,1,7), of c] ch_alloc_set(2) [OF alloc(5,1), of c] by simp
next
  case (undo i ctx1 c pl)
  then show ?case
    using ch_alloc_set_ids(1) [OF undo(5,6,1,7), of c] ch_alloc_set(2) [OF undo(5,1), of c]
    by (auto intro!: ch_free_ids_wf)
qed simp_all

lemmas channel_api_steps =
  channel_open_step channel_accept_step channel_send_step channel_eof_step channel_close_step
  channel_window_adjust_step

section \<open>What a call does\<close>

text \<open>A call that fails leaves the channels and the pending output as they were.\<close>

lemma ss_send_fail:
  "ss_send_pdu sod pl ctx = (rc, ctx') \<Longrightarrow> rc \<noteq> SODCHAN_OK \<Longrightarrow>
     out_pending ctx' = out_pending ctx \<and> ctx_ss_push ctx' = ctx_ss_push ctx \<and> chan_map ctx' = chan_map ctx"
  using table_send(3) [of sod pl ctx]
  by (cases rule: ss_send_pdu_cases [of pl ctx sod]) auto

lemma channel_send_fails:
  "sodchan_channel_send sod mem k d ctx = (rc, ctx') \<Longrightarrow> rc \<noteq> SODCHAN_OK \<Longrightarrow>
     out_pending ctx' = out_pending ctx \<and> ctx_ss_push ctx' = ctx_ss_push ctx \<and> chan_map ctx' = chan_map ctx"
  by (auto simp: sodchan_channel_send_def Let_def dest: ss_send_fail
      split: option.splits if_splits sum.splits prod.splits)

lemma channel_eof_fails:
  "sodchan_channel_eof sod k ctx = (rc, ctx') \<Longrightarrow> rc \<noteq> SODCHAN_OK \<Longrightarrow>
     out_pending ctx' = out_pending ctx \<and> ctx_ss_push ctx' = ctx_ss_push ctx \<and> chan_map ctx' = chan_map ctx"
  by (auto simp: sodchan_channel_eof_def Let_def dest: ss_send_fail
      split: option.splits if_splits sum.splits prod.splits)

lemma channel_window_adjust_fails:
  "sodchan_channel_window_adjust sod k a ctx = (rc, ctx') \<Longrightarrow> rc \<noteq> SODCHAN_OK \<Longrightarrow>
     out_pending ctx' = out_pending ctx \<and> ctx_ss_push ctx' = ctx_ss_push ctx \<and> chan_map ctx' = chan_map ctx"
  by (auto simp: sodchan_channel_window_adjust_def Let_def dest: ss_send_fail
      split: option.splits if_splits sum.splits prod.splits)

lemma channel_accept_fails:
  "sodchan_channel_accept sod k acc ctx = (rc, ctx') \<Longrightarrow> rc \<noteq> SODCHAN_OK \<Longrightarrow>
     out_pending ctx' = out_pending ctx \<and> ctx_ss_push ctx' = ctx_ss_push ctx \<and> chan_map ctx' = chan_map ctx"
  by (auto simp: sodchan_channel_accept_def Let_def dest: ss_send_fail
      split: option.splits if_splits sum.splits prod.splits)

lemma chan_map_undo:
  assumes "chan_table_inv ctx" and "ctx_next_local_channel_id ctx + 1 \<noteq> 0"
    and "ch_alloc ctx = (Some i, ctx1)" and "ch_used c" and "ch_local_id c = ch_local_id (ch_at i ctx1)"
    and "slot_ok c" and "ctx_channels ctx2 = ctx_channels (ch_set i c ctx1)"
    and "ctx_next_local_channel_id ctx2 = ctx_next_local_channel_id (ch_set i c ctx1)"
  shows "chan_map (ch_free i ctx2) = chan_map ctx"
proof -
  let ?n = "ctx_next_local_channel_id ctx"
  from assms(1) have wf: "table_wf ctx" "ids_wf ctx" by (simp_all add: chan_table_inv_def)
  have id: "ch_local_id c = ?n" using ch_alloc_set(2) [OF wf(1) assms(3,4,6)] assms(5) by simp
  note new = ch_alloc_set_ids [OF wf assms(3,2,4) id]
  have ids: "ids_wf ctx2"
    using new(1) ids_wf_cong [OF assms(7,8)] by simp
  have map: "chan_map ctx2 = (chan_map ctx)(?n \<mapsto> c)"
    using new(2) chan_map_cong [OF assms(7)] by simp
  have "ch_by_local ?n ctx2 = Some i"
    unfolding ch_by_local_iff [OF ids]
    using assms(4,7) id ch_alloc_length [OF assms(3)] by simp
  then show ?thesis
    using chan_map_ch_free [OF ids, of ?n i] new(3) map by (auto simp: fun_eq_iff)
qed

lemma channel_open_fails:
  assumes "chan_table_inv ctx" and "ctx_next_local_channel_id ctx + 1 \<noteq> 0"
    and "sodchan_channel_open sod name ctx = (rc, r, ctx')" and "rc \<noteq> SODCHAN_OK"
  shows "out_pending ctx' = out_pending ctx \<and> ctx_ss_push ctx' = ctx_ss_push ctx
    \<and> chan_map ctx' = chan_map ctx \<and> r = None"
proof (cases "ch_alloc ctx")
  case (Pair a ctx1)
  show ?thesis
  proof (cases a)
    case None
    with Pair assms(3,4) show ?thesis
      by (auto simp: sodchan_channel_open_def dest: ch_alloc_None split: option.splits if_splits)
  next
    case (Some i)
    have al: "ch_alloc ctx = (Some i, ctx1)" using Pair Some by simp
    have at: "ch_at i ctx1 = zero_channel\<lparr> ch_local_id := ctx_next_local_channel_id ctx \<rparr>"
      using ch_alloc_Some [OF al] ch_alloc_length [OF al] by simp
    have same: "out_pending ctx1 = out_pending ctx" "ctx_ss_push ctx1 = ctx_ss_push ctx"
      using ch_alloc_Some [OF al] by simp_all
    have ok: "slot_ok ((ch_at i ctx1)\<lparr> ch_state := CH_OPENING, ch_recv_window := a,
        ch_max_packet := b, ch_name := snprintf_s (Suc SODCHAN_CHANNEL_NAME_MAX) s \<rparr>)" for a b s
      using length_snprintf_s [of SODCHAN_CHANNEL_NAME_MAX s] snprintf_s_no_nul [of _ s]
      by (simp add: slot_ok_def ch_used_def at zero_channel_def)
    note undo = chan_map_undo [OF assms(1,2) al _ _ ok]
    have table: "ctx_channels c2 = ctx_channels c1 \<and>
        ctx_next_local_channel_id c2 = ctx_next_local_channel_id c1"
      if "ss_send_pdu sod pl c1 = (e, c2)" for pl c1 c2 e
      using ss_send_pair [OF that] by simp
    from assms(3,4) show ?thesis
      by (auto simp: sodchan_channel_open_def al Let_def same ch_used_def intro!: undo
          dest: ss_send_fail table split: option.splits if_splits sum.splits prod.splits)
  qed
qed

section \<open>Properties\<close>

lemma channel_close_fails:
  "sodchan_channel_close sod k ctx = (rc, ctx') \<Longrightarrow> rc \<noteq> SODCHAN_OK \<Longrightarrow> ctx' = ctx"
  by (auto simp: sodchan_channel_close_def Let_def split: option.splits if_splits)

text \<open>
  C19. A channel call that is refused leaves no trace: when opening, accepting,
  sending, signalling EOF, granting credit or closing returns anything but OK,
  the channel map, the pending output, the push state and the session state are
  unchanged, and a refused open hands out no id.
\<close>

theorem failed_call_no_trace:
  assumes "chan_table_inv ctx" and "ctx_next_local_channel_id ctx + 1 \<noteq> 0"
    and "(rc, ctx') \<in> {sodchan_channel_accept sod k acc ctx, sodchan_channel_send sod mem k d ctx,
           sodchan_channel_eof sod k ctx, sodchan_channel_window_adjust sod k a ctx,
           sodchan_channel_close sod k ctx,
           (fst (sodchan_channel_open sod name ctx), snd (snd (sodchan_channel_open sod name ctx)))}"
    and "rc \<noteq> SODCHAN_OK"
  shows "chan_map ctx' = chan_map ctx \<and> out_pending ctx' = out_pending ctx
    \<and> ctx_ss_push ctx' = ctx_ss_push ctx \<and> ctx_state ctx' = ctx_state ctx
    \<and> (fst (sodchan_channel_open sod name ctx) \<noteq> SODCHAN_OK \<longrightarrow>
         fst (snd (sodchan_channel_open sod name ctx)) = None)"
proof -
  obtain rc1 r c1 where o: "sodchan_channel_open sod name ctx = (rc1, r, c1)"
    by (cases "sodchan_channel_open sod name ctx")
  note opened = channel_open_fails [OF assms(1,2) o]
  from assms(3) consider
    "sodchan_channel_accept sod k acc ctx = (rc, ctx')" | "sodchan_channel_send sod mem k d ctx = (rc, ctx')"
    | "sodchan_channel_eof sod k ctx = (rc, ctx')" | "sodchan_channel_window_adjust sod k a ctx = (rc, ctx')"
    | "sodchan_channel_close sod k ctx = (rc, ctx')" | "rc = rc1" "ctx' = c1"
    unfolding o fst_conv snd_conv insert_iff empty_iff prod.inject by metis
  then have quiet: "out_pending ctx' = out_pending ctx \<and> ctx_ss_push ctx' = ctx_ss_push ctx \<and> chan_map ctx' = chan_map ctx"
  proof cases
    case 1 then show ?thesis by (rule channel_accept_fails [OF _ assms(4)])
  next
    case 2 then show ?thesis by (rule channel_send_fails [OF _ assms(4)])
  next
    case 3 then show ?thesis by (rule channel_eof_fails [OF _ assms(4)])
  next
    case 4 then show ?thesis by (rule channel_window_adjust_fails [OF _ assms(4)])
  next
    case 5 show ?thesis using channel_close_fails [OF 5 assms(4)] by simp
  next
    case 6 then show ?thesis using opened assms(4) by simp
  qed
  have "api_step sod ctx ctx'"
    using assms(3) channel_api_steps by (metis insert_iff singletonD snd_conv)
  then have "ctx_state ctx' = ctx_state ctx" by (rule api_step_state)
  with quiet show ?thesis using opened by (simp add: o)
qed

theorem failed_call_no_trace_witness:
  "out_pending (snd (sodchan_channel_eof sample_sodium 3
      (zero_ctx ([] :: bytes) ROLE_CLIENT\<lparr> ctx_max_channels := 2, ctx_state := STATE_READY \<rparr>))) = []"
proof -
  let ?ctx = "zero_ctx ([] :: bytes) ROLE_CLIENT\<lparr> ctx_max_channels := 2, ctx_state := STATE_READY \<rparr>"
  have inv: "chan_table_inv ?ctx"
    by (simp add: chan_table_inv_def table_wf_def ids_wf_def used_count_replicate SODCHAN_MAX_CHANNELS_def)
  have none: "ch_by_local 3 ?ctx = None" by (simp add: ch_by_local_None)
  obtain rc c where rc: "sodchan_channel_eof sample_sodium 3 ?ctx = (rc, c)"
    by (cases "sodchan_channel_eof sample_sodium 3 ?ctx")
  have "rc \<noteq> SODCHAN_OK"
    using rc none by (auto simp: sodchan_channel_eof_def)
  then have "out_pending c = out_pending ?ctx"
    using failed_call_no_trace [OF inv, of rc c sample_sodium 3 True True None 0 None] rc by simp
  with rc show ?thesis by (simp add: out_pending_def)
qed

definition send_verdict ::
    "('ss, 'gh) sodium \<Rightarrow> 'ss sodchan_ctx \<Rightarrow> bool \<Rightarrow> u32 \<Rightarrow> bytes \<Rightarrow> rc" where
  "send_verdict sod ctx mem k d =
     (if ctx_state ctx \<noteq> STATE_READY then SODCHAN_ERR_STATE
      else case chan_map ctx k of
        None \<Rightarrow> SODCHAN_ERR_NOTFOUND
      | Some c \<Rightarrow>
          if ch_state c \<noteq> CH_OPEN then SODCHAN_ERR_NOTFOUND
          else if ch_local_eof c then SODCHAN_ERR_STATE
          else if length d > min (unat (ch_max_packet c)) SODCHAN_DATA_MAX then SODCHAN_ERR_PARAM
          else if length d > unat (ch_send_window c) then SODCHAN_ERR_WINDOW
          else if \<not> mem then SODCHAN_ERR_NOMEM
          else fst (ss_send_pdu sod (Some (mux_encode (Data (ch_peer_id c) d))) ctx))"

lemma u32_sub_exact: "n \<le> unat (w :: u32) \<Longrightarrow> unat (w - of_nat n) = unat w - n"
  using unsigned_less [of w, where 'a = nat]
  by (subst unat_sub) (auto simp: word_le_nat_alt unat_of_nat_u32)

text \<open>What the call sends: the DATA message for the peer's id.\<close>

lemma channel_send_slot:
  assumes "chan_table_inv ctx" and "ch_by_local k ctx = Some i"
  shows "chan_map ctx k = Some (ch_at i ctx)" and "ch_state (ch_at i ctx) = CH_OPEN \<Longrightarrow> ch_have_peer_id (ch_at i ctx)"
    and "length d \<le> SODCHAN_DATA_MAX \<Longrightarrow>
      sodchan_wire_channel_data_encode p (Some d) (Some (9 + length d)) = Inr (mux_encode (Data p d))"
proof -
  have "slot_ok (ch_at i ctx)"
    using assms ch_by_local_Some [OF assms(2)] by (simp add: chan_table_inv_def table_wf_def)
  then show "ch_state (ch_at i ctx) = CH_OPEN \<Longrightarrow> ch_have_peer_id (ch_at i ctx)"
    by (simp add: slot_ok_def ch_used_def)
  show "chan_map ctx k = Some (ch_at i ctx)" by (simp add: chan_map_def assms(2))
  show "length d \<le> SODCHAN_DATA_MAX \<Longrightarrow>
      sodchan_wire_channel_data_encode p (Some d) (Some (9 + length d)) = Inr (mux_encode (Data p d))"
    by (simp add: data_enc_def sodchan_wire_channel_data_encode_def SODCHAN_DATA_MAX_def)
qed

lemma channel_send_verdict:
  assumes "chan_table_inv ctx" and "sodchan_channel_send sod mem k (Some d) ctx = (rc, ctx')"
  shows "rc = send_verdict sod ctx mem k d"
proof (cases "ch_by_local k ctx")
  case None
  then have "chan_map ctx k = None" by (simp add: chan_map_def)
  with None assms(2) show ?thesis
    by (auto simp: sodchan_channel_send_def send_verdict_def split: if_splits)
next
  case (Some i)
  note slot = channel_send_slot [OF assms(1) Some]
  obtain e c1 where send: "ss_send_pdu sod (Some (mux_encode (Data (ch_peer_id (ch_at i ctx)) d))) ctx = (e, c1)"
    by (cases "ss_send_pdu sod (Some (mux_encode (Data (ch_peer_id (ch_at i ctx)) d))) ctx")
  show ?thesis
    using assms(2) Some slot send
    by (auto simp: sodchan_channel_send_def send_verdict_def Let_def simp del: mux_encode.simps
        split: if_splits sum.splits)
qed

lemma channel_send_effect:
  assumes "chan_table_inv ctx" and "sodchan_channel_send sod mem k (Some d) ctx = (SODCHAN_OK, ctx')"
  shows "\<exists>c c'. chan_map ctx k = Some c
         \<and> c' = c\<lparr> ch_send_window := ch_send_window c - of_nat (length d) \<rparr>
         \<and> chan_map ctx' = (chan_map ctx)(k \<mapsto> c')
         \<and> unat (ch_send_window c) = unat (ch_send_window c') + length d
         \<and> out_pending ctx' = out_pending (snd (ss_send_pdu sod
               (Some (mux_encode (Data (ch_peer_id c) d))) ctx))"
proof -
  from assms(2) obtain i where i: "ch_by_local k ctx = Some i"
    by (auto simp: sodchan_channel_send_def split: if_splits option.splits)
  let ?c = "ch_at i ctx"
  let ?c' = "?c\<lparr> ch_send_window := ch_send_window ?c - of_nat (length d) \<rparr>"
  obtain e c1 where send: "ss_send_pdu sod (Some (mux_encode (Data (ch_peer_id ?c) d))) ctx = (e, c1)"
    by (cases "ss_send_pdu sod (Some (mux_encode (Data (ch_peer_id ?c) d))) ctx")
  note slot = channel_send_slot [OF assms(1) i]
  have "ctx_channels c1 = ctx_channels ctx" using ss_send_pair [OF send] by simp
  with assms(2) i send slot(3) have fits: "length d \<le> unat (ch_send_window ?c)"
    and ctx': "ctx' = ch_set i ?c' c1" and used: "ch_state ?c = CH_OPEN"
    by (auto simp: sodchan_channel_send_def Let_def simp del: mux_encode.simps
        split: if_splits sum.splits prod.splits)
  have c1: "chan_map c1 = chan_map ctx" "ids_wf c1" "ch_by_local k c1 = Some i"
    using ss_send_pair [OF send] assms(1) i by (simp_all add: chan_table_inv_def)
  have "chan_map ctx' = (chan_map ctx)(k \<mapsto> ?c')"
    using chan_map_ch_set [OF c1(2,3), of ?c'] ch_by_local_Some [OF i] used c1(1) by (simp add: ctx' ch_used_def)
  moreover have "unat (ch_send_window ?c) = unat (ch_send_window ?c') + length d"
    using u32_sub_exact [OF fits] fits by simp
  moreover have "out_pending ctx' = out_pending (snd (ss_send_pdu sod (Some (mux_encode (Data (ch_peer_id ?c) d))) ctx))"
    by (simp add: ctx' send del: mux_encode.simps)
  ultimately show ?thesis using slot(1) by blast
qed

text \<open>
  C18. \<^verbatim>\<open>sodchan_channel_send\<close> on every branch: a NULL pointer is refused with
  nothing changed; otherwise the return code is decided by the session state, the channel, the end-of-file flag, the packet limit and the
  window, in this order, and then by the record layer; data is sent only within
  the peer's window, which shrinks by exactly the bytes sent, without wrapping,
  and no other channel changes.
\<close>

theorem channel_send_exact:
  assumes "chan_table_inv ctx" and "sodchan_channel_send sod mem k (Some d) ctx = (rc, ctx')"
  shows "sodchan_channel_send sod mem k None ctx = (SODCHAN_ERR_PARAM, ctx)
    \<and> rc = send_verdict sod ctx mem k d
    \<and> (rc = SODCHAN_OK \<longrightarrow> (\<exists>c c'. chan_map ctx k = Some c
         \<and> c' = c\<lparr> ch_send_window := ch_send_window c - of_nat (length d) \<rparr>
         \<and> chan_map ctx' = (chan_map ctx)(k \<mapsto> c')
         \<and> unat (ch_send_window c) = unat (ch_send_window c') + length d
         \<and> out_pending ctx' = out_pending (snd (ss_send_pdu sod
               (Some (mux_encode (Data (ch_peer_id c) d))) ctx))))"
  using channel_send_verdict [OF assms] channel_send_effect [of ctx sod mem k d ctx'] assms
    sodchan_channel_send_def [of sod mem k None ctx] by simp

theorem channel_send_exact_witness:
  "fst (sodchan_channel_send sample_sodium True 3 (Some [1])
      (zero_ctx ([] :: bytes) ROLE_CLIENT\<lparr> ctx_max_channels := 2, ctx_state := STATE_READY \<rparr>))
     = SODCHAN_ERR_NOTFOUND
   \<and> (\<exists>ctx :: bytes sodchan_ctx. \<exists>c. chan_map ctx 0 = Some c \<and> ch_send_window c = 1
     \<and> fst (sodchan_channel_send sample_sodium True 0 (Some [1, 2]) ctx) = SODCHAN_ERR_WINDOW
     \<and> fst (sodchan_channel_send sample_sodium False 0 (Some [1]) ctx) = SODCHAN_ERR_NOMEM)"
proof -
  let ?ctx = "zero_ctx ([] :: bytes) ROLE_CLIENT\<lparr> ctx_max_channels := 2, ctx_state := STATE_READY \<rparr>"
  let ?c = "zero_channel\<lparr> ch_state := CH_OPEN, ch_have_peer_id := True, ch_name := [97],
       ch_send_window := 1, ch_max_packet := 50 \<rparr>"
  let ?b = "?ctx\<lparr> ctx_channels := ?c # replicate 15 zero_channel, ctx_next_local_channel_id := 1, ctx_active_channels := 1 \<rparr>"
  have inv: "chan_table_inv ?ctx"
    by (simp add: chan_table_inv_def table_wf_def ids_wf_def used_count_replicate SODCHAN_MAX_CHANNELS_def)
  have "chan_map ?ctx 3 = None" by (simp add: chan_map_def ch_by_local_None)
  then have a: "fst (sodchan_channel_send sample_sodium True 3 (Some [1]) ?ctx) = SODCHAN_ERR_NOTFOUND"
    using channel_send_exact [OF inv prod.collapse [symmetric], of sample_sodium True 3 "[1]"]
    by (simp add: send_verdict_def)
  have binv: "chan_table_inv ?b"
    by (simp add: chan_table_inv_def table_wf_def ids_wf_def used_count_def ch_used_def slot_ok_def
        zero_channel_def SODCHAN_MAX_CHANNELS_def SODCHAN_CHANNEL_NAME_MAX_def nth_Cons' split: nat.splits)
  have c: "chan_map ?b 0 = Some ?c"
    by (simp add: chan_map_def ch_by_local_def zero_channel_def)
  have "fst (sodchan_channel_send sample_sodium True 0 (Some [1, 2]) ?b) = SODCHAN_ERR_WINDOW"
      "fst (sodchan_channel_send sample_sodium False 0 (Some [1]) ?b) = SODCHAN_ERR_NOMEM"
    using channel_send_exact [OF binv prod.collapse [symmetric], of sample_sodium True 0 "[1, 2]"]
      channel_send_exact [OF binv prod.collapse [symmetric], of sample_sodium False 0 "[1]"] c
    by (simp_all add: send_verdict_def SODCHAN_DATA_MAX_def zero_channel_def)
  with a c show ?thesis by (intro conjI exI [of _ ?b] exI [of _ ?c]) simp_all
qed

end
