(* ===== verification/Session.thy ===== *)
theory Session
  imports Handshake Channel_Api
begin

text \<open>
  The session of \<^verbatim>\<open>src/sodchan.c\<close>: dispatch of a decrypted record
  (\<^verbatim>\<open>handle_encrypted_pdu\<close>), the input loop (\<^verbatim>\<open>process_input\<close>), creation,
  reset, destruction, feeding input and disconnecting.
\<close>

section \<open>Receiving\<close>

definition handle_encrypted_pdu ::
    "('ss, 'gh) sodium \<Rightarrow> bytes \<Rightarrow> 'ss sodchan_ctx \<Rightarrow> int \<times> 'ss sodchan_ctx" where
  "handle_encrypted_pdu sod ct ctx =
     (if \<not> ctx_ss_pull_ready ctx
      then err_ret SODCHAN_ERR_STATE ''ss pull not ready'' ctx
      else if length ct < SODCHAN_SS_ABYTES
      then err_ret SODCHAN_ERR_PROTOCOL ''ss ciphertext size'' ctx
      else if length ct - SODCHAN_SS_ABYTES > SODCHAN_DATA_MAX + 64 \<or>
              length ct - SODCHAN_SS_ABYTES > ctx_max_record_size ctx
      then err_ret SODCHAN_ERR_PROTOCOL ''ss plaintext too large'' ctx
      else
        (case crypto_secretstream_pull sod (ctx_ss_pull ctx) ct of
           None \<Rightarrow> err_ret SODCHAN_ERR_CRYPTO ''ss decrypt failed'' ctx
         | Some (st, plain, tag) \<Rightarrow>
             let ctx = ctx\<lparr> ctx_ss_pull := st \<rparr> in
             if tag = TAG_FINAL
             then (0, (emit (EVENT_DISCONNECTED 0 []) ctx)\<lparr> ctx_state := STATE_CLOSED \<rparr>)
             else if tag = TAG_REKEY then (0, ctx)
             else if length plain = 0 then (0, ctx)
             else
               (case sodchan_wire_pdu_type (Some plain) of
                  Inl _ \<Rightarrow> err_ret SODCHAN_ERR_PROTOCOL ''empty pdu'' ctx
                | Inr ptype \<Rightarrow>
                    if ctx_state ctx = STATE_AUTH then
                      (if ptype = SODCHAN_PDU_AUTH_DEVICE then handle_auth_device_pdu sod plain ctx
                       else if ptype = SODCHAN_PDU_AUTH_OK then handle_auth_ok_pdu plain ctx
                       else if ptype = SODCHAN_PDU_AUTH_FAIL then handle_auth_fail_pdu plain ctx
                       else err_ret SODCHAN_ERR_PROTOCOL ''unexpected pdu in AUTH'' ctx)
                    else if ctx_state ctx = STATE_READY \<or> ctx_state ctx = STATE_DRAINING
                    then handle_mux_pdu sod plain ctx
                    else err_ret SODCHAN_ERR_STATE ''pdu in wrong state'' ctx)))"

text \<open>One pass of the loop body after parsing: the handler of the handshake step.\<close>

definition dispatch_frame ::
    "('ss, 'gh) sodium \<Rightarrow> bytes \<Rightarrow> 'ss sodchan_ctx \<Rightarrow> int \<times> 'ss sodchan_ctx" where
  "dispatch_frame sod body ctx =
     (if ctx_hs ctx = HS_WAIT_PEER_HELLO then handle_peer_hello sod body ctx
      else if ctx_hs ctx = HS_WAIT_PEER_SS then handle_peer_ss_header sod body ctx
      else if ctx_hs ctx = HS_DONE then handle_encrypted_pdu sod body ctx
      else err_ret SODCHAN_ERR_STATE ''bad hs state'' ctx)"

definition parse_frame :: "'ss sodchan_ctx \<Rightarrow> rc + bytes \<times> nat" where
  "parse_frame ctx =
     (if ctx_hs ctx = HS_DONE
      then sodchan_wire_frame_parse_max (Some (ctx_in_buf ctx)) (ss_frame_max_body ctx)
      else sodchan_wire_frame_parse (Some (ctx_in_buf ctx)))"

lemma parse_frame_consumes:
  "parse_frame ctx = Inr (body, n) \<Longrightarrow> 0 < n \<and> n \<le> length (ctx_in_buf ctx)"
  using frame_parse_Inr [of "ctx_in_buf ctx" _ body n]
  by (fastforce simp: parse_frame_def sodchan_wire_frame_parse_def split: if_splits)

lemma in_buf_fixed: "fixed_part c = fixed_part ctx \<Longrightarrow> ctx_in_buf c = ctx_in_buf ctx"
  by (rule fixed_part_fields)

lemma handle_mux_pdu_in_buf: "handle_mux_pdu sod p ctx = (r, c) \<Longrightarrow> fixed_part c = fixed_part ctx"
  using mux_step_session_part [of sod ctx r c] handle_mux_pdu_step [of sod ctx p] fixed_part_session [of c ctx]
  by auto

lemma keeps_fixed: "keeps sod ctx c \<Longrightarrow> fixed_part c = fixed_part ctx"
  by (simp add: keeps_def)

lemma handle_encrypted_pdu_fixed:
  "handle_encrypted_pdu sod ct ctx = (r, c) \<Longrightarrow> fixed_part c = fixed_part ctx"
  unfolding handle_encrypted_pdu_def Let_def
  by (auto split: if_splits option.splits sum.splits prod.splits
      dest!: handle_mux_pdu_in_buf handle_auth_device_pdu_keeps [where ctx = ctx]
        handle_auth_ok_pdu_keeps [where ctx = ctx and sod = sod]
        handle_auth_fail_pdu_keeps [where ctx = ctx and sod = sod] keeps_fixed)

lemma dispatch_frame_fixed: "dispatch_frame sod b ctx = (r, c) \<Longrightarrow> fixed_part c = fixed_part ctx"
  unfolding dispatch_frame_def
  by (auto split: if_splits dest: handle_encrypted_pdu_fixed handle_peer_hello_keeps [where ctx = ctx]
      handle_peer_ss_header_keeps [where ctx = ctx] intro: keeps_fixed)

text \<open>The loop. It ends because every pass takes a frame off the input buffer.\<close>

function process_input :: "('ss, 'gh) sodium \<Rightarrow> 'ss sodchan_ctx \<Rightarrow> 'ss sodchan_ctx" where
  "process_input sod ctx =
     (if ctx_state ctx = STATE_ERROR \<or> ctx_state ctx = STATE_CLOSED then ctx
      else if length (ctx_in_buf ctx) < 4 then ctx
      else
        (case parse_frame ctx of
           Inl e \<Rightarrow>
             if e = SODCHAN_ERR_FULL then ctx
             else sodchan_i_set_error SODCHAN_ERR_PROTOCOL ''frame parse error'' ctx
         | Inr (body, consumed) \<Rightarrow>
             (case dispatch_frame sod body ctx of
                (r, ctx') \<Rightarrow>
                  if r \<noteq> 0 then ctx'
                  else process_input sod (ctx'\<lparr> ctx_in_buf := drop consumed (ctx_in_buf ctx') \<rparr>))))"
  by pat_completeness auto
termination
  by (relation "measure (\<lambda>(sod, ctx). length (ctx_in_buf ctx))")
    (auto dest!: parse_frame_consumes in_buf_fixed [OF dispatch_frame_fixed [OF sym]])

declare process_input.simps [simp del]

definition sodchan_feed_input ::
    "('ss, 'gh) sodium \<Rightarrow> span \<Rightarrow> 'ss sodchan_ctx \<Rightarrow> nat \<times> 'ss sodchan_ctx" where
  "sodchan_feed_input sod data ctx =
     (case data of
        None \<Rightarrow> (0, ctx)
      | Some d \<Rightarrow>
          if length d = 0 then (0, ctx)
          else if ctx_state ctx = STATE_ERROR \<or> ctx_state ctx = STATE_CLOSED then (0, ctx)
          else let len = (if length d > SODCHAN_IN_BUF_SIZE - length (ctx_in_buf ctx)
                          then SODCHAN_IN_BUF_SIZE - length (ctx_in_buf ctx) else length d) in
            if len = 0 then (0, ctx)
            else (len, process_input sod (ctx\<lparr> ctx_in_buf := ctx_in_buf ctx @ take len d \<rparr>)))"

section \<open>Creation and the life of a context\<close>

definition cfg_default_size :: "nat \<Rightarrow> nat \<Rightarrow> nat" where
  "cfg_default_size v d = (if v \<noteq> 0 then v else d)"

definition cfg_default_u32 :: "u32 \<Rightarrow> u32 \<Rightarrow> u32" where
  "cfg_default_u32 v d = (if v \<noteq> 0 then v else d)"

definition cfg_dup :: "span \<Rightarrow> 'ss sodchan_ctx \<Rightarrow> span \<times> 'ss sodchan_ctx" where
  "cfg_dup s ctx =
     (case s of
        None \<Rightarrow> (None, ctx)
      | Some t \<Rightarrow>
          let n = c_strlen t + 1 in
          if ctx_cfg_store_used ctx + n > SODCHAN_CFG_STORE_SIZE then (None, ctx)
          else (Some (cstr t), ctx\<lparr> ctx_cfg_store_used := ctx_cfg_store_used ctx + n \<rparr>))"

text \<open>The key bytes and the \<^verbatim>\<open>have\<close> flag.\<close>

definition copy_key :: "span \<Rightarrow> nat \<Rightarrow> bytes \<times> bool" where
  "copy_key src n = (case src of Some k \<Rightarrow> (take n k, True) | None \<Rightarrow> (replicate n 0, False))"

definition apply_config_defaults :: "sodchan_config \<Rightarrow> 'ss sodchan_ctx \<Rightarrow> 'ss sodchan_ctx" where
  "apply_config_defaults cfg ctx =
     (let mc = cfg_default_size (cfg_max_channels cfg) SODCHAN_MAX_CHANNELS;
          ctx = ctx\<lparr>
            ctx_event_queue_size := cfg_default_size (cfg_event_queue_size cfg) SODCHAN_DEFAULT_EVENT_QUEUE,
            ctx_max_record_size := cfg_default_size (cfg_max_record_size cfg) SODCHAN_DEFAULT_MAX_RECORD,
            ctx_max_channel_data := cfg_default_size (cfg_max_channel_data cfg) SODCHAN_DEFAULT_MAX_CHANNEL,
            ctx_max_channels := (if mc > SODCHAN_MAX_CHANNELS then SODCHAN_MAX_CHANNELS else mc),
            ctx_initial_window := cfg_default_u32 (cfg_initial_window cfg) SODCHAN_DEFAULT_INIT_WINDOW,
            ctx_max_packet := cfg_default_u32 (cfg_max_packet cfg) SODCHAN_DEFAULT_MAX_PACKET,
            ctx_accept_any_server_pk := cfg_accept_any_server_pk cfg,
            ctx_lab_mode := cfg_lab_mode cfg,
            ctx_client_id_pk := fst (copy_key (cfg_client_id_pk cfg) 32),
            ctx_have_client_id_pk := snd (copy_key (cfg_client_id_pk cfg) 32),
            ctx_client_id_sk := fst (copy_key (cfg_client_id_sk cfg) 64),
            ctx_have_client_id_sk := snd (copy_key (cfg_client_id_sk cfg) 64),
            ctx_server_id_pk := fst (copy_key (cfg_server_id_pk cfg) 32),
            ctx_have_server_id_pk := snd (copy_key (cfg_server_id_pk cfg) 32),
            ctx_server_id_sk := fst (copy_key (cfg_server_id_sk cfg) 64),
            ctx_have_server_id_sk := snd (copy_key (cfg_server_id_sk cfg) 64),
            ctx_cfg_store_used := 0 \<rparr> in
      case cfg_dup (cfg_allowed_channels cfg) ctx of (a, ctx) \<Rightarrow>
      case cfg_dup (cfg_client_username cfg) (ctx\<lparr> ctx_allowed_channels := a \<rparr>) of (u, ctx) \<Rightarrow>
      case cfg_dup (cfg_client_device_id cfg) (ctx\<lparr> ctx_client_username := u \<rparr>) of (d, ctx) \<Rightarrow>
        ctx\<lparr> ctx_client_device_id := d \<rparr>)"

definition zero_config :: sodchan_config where
  "zero_config = \<lparr> cfg_event_queue_size = 0, cfg_max_record_size = 0, cfg_max_channel_data = 0,
     cfg_max_channels = 0, cfg_initial_window = 0, cfg_max_packet = 0, cfg_client_id_pk = None,
     cfg_client_id_sk = None, cfg_server_id_pk = None, cfg_server_id_sk = None,
     cfg_accept_any_server_pk = False, cfg_allowed_channels = None, cfg_client_username = None,
     cfg_client_device_id = None, cfg_max_auth_attempts_reserved = 0, cfg_lab_mode = False \<rparr>"

text \<open>
  \<open>allow_lab\<close>: the library is compiled with \<^verbatim>\<open>SODCHAN_ALLOW_LAB_CLEARTEXT\<close>;
  \<open>mem1\<close>, \<open>mem2\<close>: the two \<^verbatim>\<open>calloc\<close> calls find memory; \<open>draws\<close>: the number of
  random draws so far; \<open>z\<close>: the zeroed secretstream state. The role is the
  integer passed by the caller. \<open>None\<close> is the NULL result.
\<close>

definition sodchan_create ::
    "('ss, 'gh) sodium \<Rightarrow> bool \<Rightarrow> bool \<Rightarrow> bool \<Rightarrow> 'ss \<Rightarrow> nat \<Rightarrow> int \<Rightarrow> sodchan_config option
       \<Rightarrow> 'ss sodchan_ctx option" where
  "sodchan_create sod allow_lab mem1 mem2 z draws role cfg =
     (if role \<noteq> 0 \<and> role \<noteq> 1 then None
      else
        let r = (if role = 0 then ROLE_SERVER else ROLE_CLIENT);
            cfg = (case cfg of None \<Rightarrow> zero_config | Some c \<Rightarrow> c) in
        if \<not> allow_lab \<and> cfg_lab_mode cfg then None
        else if r = ROLE_SERVER \<and> (cfg_server_id_pk cfg = None \<or> cfg_server_id_sk cfg = None) then None
        else if r = ROLE_CLIENT \<and> \<not> cfg_accept_any_server_pk cfg \<and> cfg_server_id_pk cfg = None then None
        else if sodchan_crypto_init sod \<noteq> SODCHAN_OK then None
        else if \<not> mem1 then None
        else
          let ctx = apply_config_defaults cfg ((zero_ctx z r)\<lparr> ctx_draws := draws \<rparr>);
              cap = (if ctx_event_queue_size ctx = 0 then SODCHAN_DEFAULT_EVENT_QUEUE
                     else ctx_event_queue_size ctx);
              ctx = ctx\<lparr> ctx_event_cap := cap \<rparr> in
          if \<not> mem2 then None
          else
            (case handshake_start sod (ctx\<lparr> ctx_events := replicate cap EVENT_NONE \<rparr>) of
               (rc, ctx) \<Rightarrow> if rc \<noteq> SODCHAN_OK then None else Some ctx))"

text \<open>
  What \<^verbatim>\<open>sodchan_destroy\<close> leaves in memory: the contents after the
  \<^verbatim>\<open>sodium_memzero\<close> calls, which a compiler must keep, and the contents handed
  to \<^verbatim>\<open>free\<close> after the plain \<^verbatim>\<open>memset\<close>, which it may drop as a dead store. The
  integers 0 of the zeroed enumerations are the server role, the idle state and
  the start of the handshake.
\<close>

definition sodchan_destroy ::
    "('ss, 'gh) sodium \<Rightarrow> 'ss \<Rightarrow> 'ss sodchan_ctx \<Rightarrow> 'ss sodchan_ctx \<times> 'ss sodchan_ctx" where
  "sodchan_destroy sod z ctx =
     (let ctx = ctx\<lparr> ctx_eph_sk := sodium_memzero sod (ctx_eph_sk ctx),
            ctx_client_id_sk := sodium_memzero sod (ctx_client_id_sk ctx),
            ctx_server_id_sk := sodium_memzero sod (ctx_server_id_sk ctx),
            ctx_ss_key_c2s := sodium_memzero sod (ctx_ss_key_c2s ctx),
            ctx_ss_key_s2c := sodium_memzero sod (ctx_ss_key_s2c ctx) \<rparr> in
      (ctx, zero_ctx z ROLE_SERVER))"

definition sodchan_reset :: "('ss, 'gh) sodium \<Rightarrow> 'ss sodchan_ctx \<Rightarrow> 'ss sodchan_ctx" where
  "sodchan_reset sod ctx =
     (let ctx = ctx\<lparr> ctx_eph_sk := sodium_memzero sod (ctx_eph_sk ctx),
            ctx_ss_key_c2s := sodium_memzero sod (ctx_ss_key_c2s ctx),
            ctx_ss_key_s2c := sodium_memzero sod (ctx_ss_key_s2c ctx),
            ctx_have_peer_eph := False, ctx_have_peer_id := False, ctx_have_t_hello := False,
            ctx_ss_push_ready := False, ctx_ss_pull_ready := False, ctx_auth_sent := False,
            ctx_auth_awaiting_decide := False, ctx_auth_decided := False, ctx_auth_complete := False,
            ctx_channels := replicate SODCHAN_MAX_CHANNELS zero_channel,
            ctx_next_local_channel_id := 0, ctx_active_channels := 0,
            ctx_error := 0, ctx_error_msg := [], ctx_event_head := 0, ctx_event_count := 0,
            ctx_out_buf := [], ctx_out_off := 0, ctx_in_buf := [] \<rparr>;
          ctx = (if ctx_events ctx = [] then ctx
                 else ctx\<lparr> ctx_events := replicate (ctx_event_cap ctx) EVENT_NONE \<rparr>) in
      snd (handshake_start sod ctx))"

definition sodchan_current_state :: "'ss sodchan_ctx \<Rightarrow> sodchan_state" where
  "sodchan_current_state ctx = ctx_state ctx"

definition sodchan_disconnect ::
    "('ss, 'gh) sodium \<Rightarrow> int \<Rightarrow> span \<Rightarrow> 'ss sodchan_ctx \<Rightarrow> rc \<times> 'ss sodchan_ctx" where
  "sodchan_disconnect sod reason msg ctx =
     (if ctx_state ctx = STATE_CLOSED then (SODCHAN_OK, ctx)
      else
        let text = cstr (case msg of Some m \<Rightarrow> m | None \<Rightarrow> []);
            mlen = (if length text > 64 then 64 else length text) in
        if ctx_ss_push_ready ctx \<and>
           (ctx_state ctx = STATE_READY \<or> ctx_state ctx = STATE_AUTH \<or> ctx_state ctx = STATE_DRAINING)
        then
          let ctx =
            (case sodchan_wire_disconnect_encode (of_int reason) (Some (take mlen text)) (Some 128) of
               Inl _ \<Rightarrow> ctx
             | Inr pdu \<Rightarrow> snd (ss_send_pdu sod (Some pdu) ctx)) in
          (SODCHAN_OK, ctx\<lparr> ctx_state := STATE_DRAINING \<rparr>)
        else (SODCHAN_OK, ctx\<lparr> ctx_state := STATE_CLOSED \<rparr>))"

end
