(* ===== verification/Safety.thy ===== *)
theory Safety
  imports Session
begin

text \<open>
  Contexts that a program can reach through the public API, and what holds in
  all of them: the buffers and the table are well formed, the public state fits
  the handshake progress, and a session gets past the handshake or past
  authentication only after the signature checks.
\<close>

section \<open>The invariant\<close>

text \<open>The structural part, which holds in every state.\<close>

definition base_inv :: "'ss sodchan_ctx \<Rightarrow> bool" where
  "base_inv ctx \<longleftrightarrow> ring_wf ctx \<and> out_wf ctx \<and> table_wf ctx
     \<and> length (ctx_in_buf ctx) \<le> SODCHAN_IN_BUF_SIZE \<and> length (ctx_client_id_pk ctx) = 32"

text \<open>The peer's HELLO was checked: the client's and the server's side of it.\<close>

definition peer_checked :: "('ss, 'gh) sodium \<Rightarrow> 'ss sodchan_ctx \<Rightarrow> bool" where
  "peer_checked sod ctx \<longleftrightarrow>
     (case ctx_role ctx of ROLE_CLIENT \<Rightarrow> server_verified sod ctx | ROLE_SERVER \<Rightarrow> transcript_built ctx)"

definition undecided :: "'ss sodchan_ctx \<Rightarrow> bool" where
  "undecided ctx \<longleftrightarrow> \<not> ctx_auth_decided ctx \<and> \<not> ctx_auth_complete ctx"

text \<open>What the public state promises.\<close>

definition live_ok :: "('ss, 'gh) sodium \<Rightarrow> 'ss sodchan_ctx \<Rightarrow> bool" where
  "live_ok sod ctx \<longleftrightarrow>
     (case ctx_state ctx of
        STATE_IDLE \<Rightarrow> False
      | STATE_HELLO \<Rightarrow> ctx_hs ctx = HS_WAIT_PEER_HELLO \<and> undecided ctx \<and> \<not> ctx_auth_awaiting_decide ctx
      | STATE_SS_HEADER \<Rightarrow> ctx_hs ctx = HS_WAIT_PEER_SS \<and> undecided ctx \<and> \<not> ctx_auth_awaiting_decide ctx
          \<and> peer_checked sod ctx \<and> (ctx_role ctx = ROLE_CLIENT \<longrightarrow> ctx_ss_push_ready ctx)
      | STATE_AUTH \<Rightarrow> ctx_hs ctx = HS_DONE \<and> ctx_ss_push_ready ctx \<and> ctx_ss_pull_ready ctx
          \<and> peer_checked sod ctx \<and> undecided ctx
          \<and> (ctx_auth_awaiting_decide ctx \<longrightarrow> ctx_role ctx = ROLE_SERVER \<and> device_verified sod ctx)
      | STATE_READY \<Rightarrow> ctx_hs ctx = HS_DONE \<and> ctx_ss_push_ready ctx \<and> ctx_ss_pull_ready ctx
          \<and> peer_checked sod ctx \<and> ctx_auth_complete ctx
          \<and> (ctx_role ctx = ROLE_SERVER \<longrightarrow> ctx_auth_decided ctx \<and> device_verified sod ctx)
      | STATE_DRAINING \<Rightarrow> ctx_hs ctx = HS_DONE \<and> ctx_ss_push_ready ctx \<and> ctx_ss_pull_ready ctx
          \<and> peer_checked sod ctx
      | STATE_CLOSED \<Rightarrow> True
      | STATE_ERROR \<Rightarrow> True)"

definition ctx_inv :: "('ss, 'gh) sodium \<Rightarrow> 'ss sodchan_ctx \<Rightarrow> bool" where
  "ctx_inv sod ctx \<longleftrightarrow> base_inv ctx \<and> live_ok sod ctx"

section \<open>Preservation by the structural relations\<close>

lemma base_inv_keeps: "keeps sod ctx c \<Longrightarrow> push_len_law sod \<Longrightarrow> base_inv ctx \<Longrightarrow> base_inv c"
  by (simp add: keeps_def base_inv_def table_wf_def fixed_part_fields [of c ctx])

lemma base_inv_mux:
  "mux_step sod ctx (r, c) \<Longrightarrow> push_len_law sod \<Longrightarrow> base_inv ctx \<Longrightarrow> base_inv c"
  using mux_step_session_part [of sod ctx r c]
  by (simp add: base_inv_def mux_step_ring_wf mux_step_out_wf mux_step_table_wf session_part_fields [of c ctx])

lemma base_inv_api:
  "api_step sod ctx c \<Longrightarrow> push_len_law sod \<Longrightarrow> base_inv ctx \<Longrightarrow> base_inv c"
  using api_step_session_part [of sod ctx c]
  by (simp add: base_inv_def api_step_ring_wf api_step_out_wf api_step_table_wf session_part_fields [of c ctx])

lemma peer_checked_cong: "auth_part c = auth_part ctx \<Longrightarrow> peer_checked sod c = peer_checked sod ctx"
  using server_verified_cong [of c ctx sod] transcript_built_cong [of c ctx]
  by (simp add: peer_checked_def auth_part_fields [of c ctx] split: sodchan_role.split)

lemma live_ok_cong:
  assumes "auth_part c = auth_part ctx" and "ctx_state c = ctx_state ctx" and "ctx_hs c = ctx_hs ctx"
    and "ctx_ss_push_ready c = ctx_ss_push_ready ctx" and "ctx_ss_pull_ready c = ctx_ss_pull_ready ctx"
  shows "live_ok sod c = live_ok sod ctx"
  using peer_checked_cong [OF assms(1), of sod] device_verified_cong [OF assms(1), of sod]
  by (simp add: live_ok_def undecided_def assms(2-) auth_part_fields [OF assms(1)]
      split: sodchan_state.split)

lemma live_ok_session:
  assumes "session_part c = session_part ctx" and "ctx_state c = ctx_state ctx" and "live_ok sod ctx"
  shows "live_ok sod c"
  using live_ok_cong [OF auth_part_session [OF assms(1)], of sod] assms session_part_fields [OF assms(1)]
  by simp

lemma live_ok_dead [simp]:
  "ctx_state c = STATE_ERROR \<Longrightarrow> live_ok sod c" "ctx_state c = STATE_CLOSED \<Longrightarrow> live_ok sod c"
  by (simp_all add: live_ok_def)

lemma ctx_inv_api:
  assumes "api_step sod ctx c" and "push_len_law sod" and "ctx_inv sod ctx"
  shows "ctx_inv sod c"
  using base_inv_api [OF assms(1,2)] live_ok_session [OF api_step_session_part [OF assms(1)]
      api_step_state [OF assms(1)], of sod] assms(3)
  by (simp add: ctx_inv_def)

lemma live_ok_mux:
  assumes "mux_step sod ctx (r, c)" and "live_ok sod ctx"
  shows "live_ok sod c"
proof -
  from mux_step_state [OF assms(1)]
  consider "ctx_state c = STATE_ERROR" | "ctx_state c = STATE_CLOSED" | "ctx_state c = ctx_state ctx" by blast
  then show ?thesis
    by cases (use live_ok_session [OF mux_step_session_part [OF assms(1)] _ assms(2)] in simp_all)
qed

section \<open>Preservation by received data\<close>

lemma live_ok_pull [simp]: "live_ok sod (ctx\<lparr> ctx_ss_pull := st \<rparr>) = live_ok sod ctx"
  by (rule live_ok_cong) simp_all

lemma base_inv_pull [simp]: "base_inv (ctx\<lparr> ctx_ss_pull := st \<rparr>) = base_inv ctx"
  by (simp add: base_inv_def table_wf_def)

lemma handle_auth_device_pdu_live:
  assumes "handle_auth_device_pdu sod p ctx = (r, c)" and "live_ok sod ctx" and "ctx_state ctx = STATE_AUTH"
  shows "live_ok sod c"
proof (cases "r = 0")
  case True
  note ok = handle_auth_device_pdu_ok [OF assms(1) [unfolded True]]
  have "ctx_role c = ROLE_SERVER"
    using handle_auth_device_pdu_keeps [OF assms(1) keeps_refl] ok(1)
    by (simp add: keeps_def fixed_part_fields [of c ctx])
  moreover have "transcript_built c"
    using assms ok \<open>ctx_role c = ROLE_SERVER\<close> unfolding handle_auth_device_pdu_def Let_def
    by (auto simp: live_ok_def peer_checked_def transcript_built_def split: if_splits sum.splits prod.splits)
  ultimately show ?thesis
    using assms(2,3) ok by (simp add: live_ok_def peer_checked_def undecided_def)
next
  case False
  then show ?thesis using handle_auth_error(1) [OF assms(1)] by simp
qed

lemma handle_auth_ok_pdu_live:
  assumes "handle_auth_ok_pdu p ctx = (r, c)" and "live_ok sod ctx" and "ctx_state ctx = STATE_AUTH"
  shows "live_ok sod c"
proof (cases "r = 0")
  case True
  note ok = handle_auth_ok_pdu_ok [OF assms(1) [unfolded True]]
  have "peer_checked sod c = peer_checked sod ctx"
    using ok by (simp add: peer_checked_def server_verified_def transcript_built_def)
  then show ?thesis
    using ok assms(2,3) by (auto simp: live_ok_def)
next
  case False
  then show ?thesis using handle_auth_error(2) [OF assms(1)] by simp
qed

lemma handle_encrypted_pdu_inv:
  assumes "handle_encrypted_pdu sod ct ctx = (r, c)" and "push_len_law sod" and "ctx_inv sod ctx"
  shows "ctx_inv sod c"
proof -
  let ?ctx = "\<lambda>st. ctx\<lparr> ctx_ss_pull := st \<rparr>"
  from assms(3) have inv: "base_inv (?ctx st)" "live_ok sod (?ctx st)" for st
    by (simp_all add: ctx_inv_def)
  have err: "ctx_inv sod (sodchan_i_set_error e m (?ctx st))" "ctx_inv sod (sodchan_i_set_error e m ctx)" for e m st
    using base_inv_keeps [OF keeps_set_error [OF keeps_refl] assms(2)] inv(1) assms(3)
    by (simp_all add: ctx_inv_def)
  have fin: "ctx_inv sod ((emit ev (?ctx st))\<lparr> ctx_state := STATE_CLOSED \<rparr>)" for ev st
    using base_inv_keeps [of sod "?ctx st" "(emit ev (?ctx st))\<lparr> ctx_state := STATE_CLOSED \<rparr>"]
      assms(2) inv(1) by (simp add: ctx_inv_def)
  have mux: "ctx_inv sod d" if "handle_mux_pdu sod p (?ctx st) = (x, d)" for p st x d
  proof -
    have step: "mux_step sod (?ctx st) (x, d)" using handle_mux_pdu_step that by metis
    show ?thesis
      using base_inv_mux [OF step assms(2) inv(1)] live_ok_mux [OF step inv(2)] by (simp add: ctx_inv_def)
  qed
  have auth: "ctx_inv sod d"
    if "handle_auth_device_pdu sod p (?ctx st) = (x, d) \<or> handle_auth_ok_pdu p (?ctx st) = (x, d)
        \<or> handle_auth_fail_pdu p (?ctx st) = (x, d)" and "ctx_state ctx = STATE_AUTH" for p st x d
    using that
  proof (elim disjE)
    assume h: "handle_auth_device_pdu sod p (?ctx st) = (x, d)"
    show ?thesis
      using base_inv_keeps [OF handle_auth_device_pdu_keeps [OF h keeps_refl] assms(2) inv(1)]
        handle_auth_device_pdu_live [OF h inv(2)] that(2) by (simp add: ctx_inv_def)
  next
    assume h: "handle_auth_ok_pdu p (?ctx st) = (x, d)"
    show ?thesis
      using base_inv_keeps [OF handle_auth_ok_pdu_keeps [OF h keeps_refl] assms(2) inv(1)]
        handle_auth_ok_pdu_live [OF h inv(2)] that(2) by (simp add: ctx_inv_def)
  next
    assume h: "handle_auth_fail_pdu p (?ctx st) = (x, d)"
    show ?thesis
      using base_inv_keeps [OF handle_auth_fail_pdu_keeps [OF h keeps_refl] assms(2) inv(1)]
        handle_auth_error(3) [OF h] by (simp add: ctx_inv_def)
  qed
  have plain: "ctx_inv sod (?ctx st)" for st using inv by (simp add: ctx_inv_def)
  from assms(1) show ?thesis
    unfolding handle_encrypted_pdu_def Let_def
    by (auto split: if_splits option.splits sum.splits prod.splits
        intro: err fin plain mux auth)
qed

lemma base_inv_hello:
  "handle_peer_hello sod b ctx = (r, c) \<Longrightarrow> push_len_law sod \<Longrightarrow> base_inv ctx \<Longrightarrow> base_inv c"
  "handle_peer_ss_header sod b ctx = (r, c) \<Longrightarrow> push_len_law sod \<Longrightarrow> base_inv ctx \<Longrightarrow> base_inv c"
  using base_inv_keeps [of sod ctx c] handle_peer_hello_keeps [of sod b ctx r c ctx]
    handle_peer_ss_header_keeps [of sod b ctx r c ctx] by simp_all

lemma handle_peer_hello_role:
  assumes "handle_peer_hello sod b ctx = (r, c)"
  shows "ctx_role c = ctx_role ctx"
  using handle_peer_hello_keeps [OF assms keeps_refl] by (simp add: keeps_def fixed_part_fields [of c ctx])

lemma handle_peer_hello_live:
  assumes "handle_peer_hello sod b ctx = (r, c)" and "live_ok sod ctx" and "ctx_state ctx = STATE_HELLO"
  shows "live_ok sod c"
proof (cases "r = 0")
  case True
  from assms(1) True obtain h where
    "if ctx_role ctx = ROLE_CLIENT then handle_server_hello sod h ctx = (0, c)
     else handle_client_hello sod h ctx = (0, c)"
    by (auto simp: handle_peer_hello_def split: sum.splits if_splits)
  then show ?thesis
    using assms(2,3) handle_peer_hello_role [OF assms(1)]
      handle_server_hello_ok [of sod h ctx c] handle_client_hello_ok [of sod h ctx c]
    by (cases "ctx_role ctx") (simp_all add: live_ok_def undecided_def peer_checked_def)
next
  case False
  then show ?thesis using handle_peer_hello_error [OF assms(1)] by simp
qed

lemma handle_peer_ss_header_live:
  assumes "handle_peer_ss_header sod b ctx = (r, c)" and "live_ok sod ctx"
    and "ctx_state ctx = STATE_SS_HEADER"
  shows "live_ok sod c"
proof (cases "r = 0")
  case True
  note ok = handle_peer_ss_header_ok [OF assms(1) [unfolded True]]
  then show ?thesis
    using assms(2,3) peer_checked_cong [OF ok(1), of sod] auth_part_fields [OF ok(1)]
    by (cases "ctx_role ctx") (simp_all add: live_ok_def undecided_def)
next
  case False
  then show ?thesis using handle_peer_ss_header_error [OF assms(1)] by simp
qed

lemma dispatch_frame_inv:
  assumes "dispatch_frame sod b ctx = (r, c)" and "push_len_law sod" and "ctx_inv sod ctx"
    and "ctx_state ctx \<noteq> STATE_ERROR" and "ctx_state ctx \<noteq> STATE_CLOSED"
  shows "ctx_inv sod c"
proof (cases "ctx_hs ctx")
  case HS_START
  with assms(3-5) show ?thesis by (auto simp: ctx_inv_def live_ok_def split: sodchan_state.splits)
next
  case HS_WAIT_PEER_HELLO
  then have st: "ctx_state ctx = STATE_HELLO"
    using assms(3-5) by (auto simp: ctx_inv_def live_ok_def split: sodchan_state.splits)
  from HS_WAIT_PEER_HELLO assms(1) have h: "handle_peer_hello sod b ctx = (r, c)"
    by (simp add: dispatch_frame_def)
  show ?thesis
    using base_inv_hello(1) [OF h assms(2)] handle_peer_hello_live [OF h _ st] assms(3)
    by (simp add: ctx_inv_def)
next
  case HS_WAIT_PEER_SS
  then have st: "ctx_state ctx = STATE_SS_HEADER"
    using assms(3-5) by (auto simp: ctx_inv_def live_ok_def split: sodchan_state.splits)
  from HS_WAIT_PEER_SS assms(1) have h: "handle_peer_ss_header sod b ctx = (r, c)"
    by (simp add: dispatch_frame_def)
  show ?thesis
    using base_inv_hello(2) [OF h assms(2)] handle_peer_ss_header_live [OF h _ st] assms(3)
    by (simp add: ctx_inv_def)
next
  case HS_DONE
  with assms(1) have "handle_encrypted_pdu sod b ctx = (r, c)" by (simp add: dispatch_frame_def)
  then show ?thesis by (rule handle_encrypted_pdu_inv [OF _ assms(2,3)])
qed

lemma base_inv_in_buf:
  "base_inv ctx \<Longrightarrow> length b \<le> SODCHAN_IN_BUF_SIZE \<Longrightarrow> base_inv (ctx\<lparr> ctx_in_buf := b \<rparr>)"
  by (simp add: base_inv_def table_wf_def)

lemma live_ok_in_buf [simp]: "live_ok sod (ctx\<lparr> ctx_in_buf := b \<rparr>) = live_ok sod ctx"
  by (rule live_ok_cong) simp_all

lemma process_input_inv:
  assumes "push_len_law sod" and "ctx_inv sod ctx"
  shows "ctx_inv sod (process_input sod ctx)"
  using assms
proof (induction sod ctx rule: process_input.induct)
  case (1 sod ctx)
  show ?case
  proof (cases "ctx_state ctx = STATE_ERROR \<or> ctx_state ctx = STATE_CLOSED \<or> length (ctx_in_buf ctx) < 4")
    case True
    then show ?thesis using 1(3) by (subst process_input.simps) auto
  next
    case False
    show ?thesis
    proof (cases "parse_frame ctx")
      case (Inl e)
      have "ctx_inv sod (sodchan_i_set_error SODCHAN_ERR_PROTOCOL ''frame parse error'' ctx)"
        using base_inv_keeps [OF keeps_set_error [OF keeps_refl] 1(2)] 1(3) by (simp add: ctx_inv_def)
      with Inl False 1(3) show ?thesis by (subst process_input.simps) simp
    next
      case (Inr bn)
      obtain body n where parse: "parse_frame ctx = Inr (body, n)" using Inr by (cases bn) simp
      obtain r c where disp: "dispatch_frame sod body ctx = (r, c)"
        by (cases "dispatch_frame sod body ctx")
      have c: "ctx_inv sod c"
        using False by (intro dispatch_frame_inv [OF disp 1(2,3)]) auto
      have "length (drop n (ctx_in_buf c)) \<le> SODCHAN_IN_BUF_SIZE"
        using c by (auto simp: ctx_inv_def base_inv_def)
      then have inv: "ctx_inv sod (c\<lparr> ctx_in_buf := drop n (ctx_in_buf c) \<rparr>)"
        using c base_inv_in_buf [of c "drop n (ctx_in_buf c)"] by (simp add: ctx_inv_def)
      have "ctx_inv sod (process_input sod (c\<lparr> ctx_in_buf := drop n (ctx_in_buf c) \<rparr>))" if "r = 0"
        by (rule 1(1) [OF _ _ parse refl disp [symmetric] _ 1(2) inv]) (use that False in auto)
      with False parse disp c show ?thesis
        by (subst process_input.simps) simp
    qed
  qed
qed

lemma feed_input_inv:
  assumes "push_len_law sod" and "ctx_inv sod ctx"
  shows "ctx_inv sod (snd (sodchan_feed_input sod d ctx))"
proof -
  have "ctx_inv sod (process_input sod (ctx\<lparr> ctx_in_buf := ctx_in_buf ctx @ b \<rparr>))"
    if "length b \<le> SODCHAN_IN_BUF_SIZE - length (ctx_in_buf ctx)" for b
  proof (rule process_input_inv [OF assms(1)])
    have "length (ctx_in_buf ctx @ b) \<le> SODCHAN_IN_BUF_SIZE"
      using that assms(2) by (auto simp: ctx_inv_def base_inv_def)
    then show "ctx_inv sod (ctx\<lparr> ctx_in_buf := ctx_in_buf ctx @ b \<rparr>)"
      using assms(2) base_inv_in_buf [of ctx "ctx_in_buf ctx @ b"] by (simp add: ctx_inv_def)
  qed
  then show ?thesis
    using assms(2) by (simp add: sodchan_feed_input_def Let_def split: option.split)
qed

section \<open>Preservation by the host's calls\<close>

lemma ctx_inv_frame:
  assumes "ctx_inv sod ctx" and "session_part c = session_part ctx" and "ctx_state c = ctx_state ctx"
    and "ctx_channels c = ctx_channels ctx" and "ctx_active_channels c = ctx_active_channels ctx"
    and "ring_wf c" and "out_wf c"
  shows "ctx_inv sod c"
  using assms live_ok_session [OF assms(2,3), of sod]
  by (simp add: ctx_inv_def base_inv_def table_wf_def session_part_fields [OF assms(2)])

lemma get_output_inv: "ctx_inv sod ctx \<Longrightarrow> ctx_inv sod (snd (sodchan_get_output b ctx))"
proof (cases b)
  case (Some n)
  assume inv: "ctx_inv sod ctx"
  then have "out_wf (snd (sodchan_get_output b ctx))"
    using out.get_inv [of ctx n] by (simp add: ctx_inv_def base_inv_def Some)
  moreover have "session_part (snd (sodchan_get_output b ctx)) = session_part ctx"
    and "ring_wf (snd (sodchan_get_output b ctx)) = ring_wf ctx"
    by (simp_all add: sodchan_get_output_def Let_def Some)
  ultimately show ?thesis
    using inv by (intro ctx_inv_frame [OF inv]) (simp_all add: ctx_inv_def base_inv_def)
qed (simp add: sodchan_get_output_def)

lemma next_event_inv: "ctx_inv sod ctx \<Longrightarrow> ctx_inv sod (snd (sodchan_next_event ctx))"
proof -
  assume inv: "ctx_inv sod ctx"
  then have "ring_wf (snd (sodchan_next_event ctx))"
    using ring.deq_inv [of ctx] by (simp add: ctx_inv_def base_inv_def)
  moreover have "session_part (snd (sodchan_next_event ctx)) = session_part ctx"
    and "out_wf (snd (sodchan_next_event ctx)) = out_wf ctx"
    by (simp_all add: sodchan_next_event_def)
  ultimately show ?thesis
    using inv by (intro ctx_inv_frame [OF inv]) (simp_all add: ctx_inv_def base_inv_def)
qed

lemma disconnect_inv:
  assumes "push_len_law sod" and "ctx_inv sod ctx"
  shows "ctx_inv sod (snd (sodchan_disconnect sod reason msg ctx))"
proof -
  have closed: "ctx_inv sod (ctx\<lparr> ctx_state := STATE_CLOSED \<rparr>)"
    using assms(2) by (simp add: ctx_inv_def base_inv_def table_wf_def)
  have drain: "ctx_inv sod ((snd (ss_send_pdu sod pl ctx))\<lparr> ctx_state := STATE_DRAINING \<rparr>)"
    if "ctx_state ctx = STATE_READY \<or> ctx_state ctx = STATE_AUTH \<or> ctx_state ctx = STATE_DRAINING" for pl
  proof -
    let ?c = "snd (ss_send_pdu sod pl ctx)"
    have "ctx_inv sod ?c" by (rule ctx_inv_api [OF api_step.send assms])
    moreover have "peer_checked sod (?c\<lparr> ctx_state := STATE_DRAINING \<rparr>) = peer_checked sod ?c"
      by (rule peer_checked_cong) simp
    ultimately show ?thesis
      using that by (auto simp: ctx_inv_def base_inv_def table_wf_def live_ok_def)
  qed
  show ?thesis
    using closed drain drain [of None] assms(2)
    by (auto simp: sodchan_disconnect_def Let_def split: sum.split)
qed

lemma auth_decide_ex_cases:
  obtains (refused) e where "sodchan_auth_decide_ex sod acc cl ctx = (e, ctx)" "e \<noteq> SODCHAN_OK"
  | (failed) e c where "sodchan_auth_decide_ex sod acc cl ctx = (e, c)" "ctx_state c = STATE_ERROR"
  | (accepted) claims c where "cl = Some claims" "length claims \<le> SODCHAN_CLAIMS_MAX" "acc"
      "ctx_role ctx = ROLE_SERVER" "ctx_auth_awaiting_decide ctx" "\<not> ctx_auth_decided ctx"
      "ctx_state ctx = STATE_AUTH"
      "server_send_auth_ok sod cl
         (ctx\<lparr> ctx_auth_awaiting_decide := False, ctx_auth_decided := True \<rparr>) = (SODCHAN_OK, c)"
      "sodchan_auth_decide_ex sod acc cl ctx = (SODCHAN_OK, emit EVENT_AUTHENTICATED
         (c\<lparr> ctx_auth_complete := True, ctx_state := STATE_READY \<rparr>))"
proof -
  let ?g = "ctx_role ctx = ROLE_SERVER \<and> ctx_auth_awaiting_decide ctx \<and> \<not> ctx_auth_decided ctx
      \<and> ctx_state ctx = STATE_AUTH \<and> (\<exists>c. cl = Some c \<and> length c \<le> SODCHAN_CLAIMS_MAX)"
  show thesis
  proof (cases ?g)
    case False
    then have "\<exists>e. sodchan_auth_decide_ex sod acc cl ctx = (e, ctx) \<and> e \<noteq> SODCHAN_OK"
      by (auto simp: sodchan_auth_decide_ex_def split: option.split)
    then show thesis using refused by blast
  next
    case True
    then obtain claims where cl: "cl = Some claims" and len: "\<not> SODCHAN_CLAIMS_MAX < length claims" by auto
    let ?ctx = "ctx\<lparr> ctx_auth_awaiting_decide := False, ctx_auth_decided := True \<rparr>"
    obtain e c where ok: "server_send_auth_ok sod cl ?ctx = (e, c)" by (cases "server_send_auth_ok sod cl ?ctx")
    obtain e' c' where fl: "server_send_auth_fail sod ?ctx = (e', c')" by (cases "server_send_auth_fail sod ?ctx")
    have eq: "sodchan_auth_decide_ex sod acc cl ctx =
        (if acc then if e \<noteq> SODCHAN_OK
           then (SODCHAN_ERR_FULL, sodchan_i_set_error SODCHAN_ERR_FULL ''AUTH_OK send'' c)
           else (SODCHAN_OK, emit_authenticated (c\<lparr> ctx_auth_complete := True, ctx_state := STATE_READY \<rparr>))
         else if e' \<noteq> SODCHAN_OK
           then (SODCHAN_ERR_FULL, sodchan_i_set_error SODCHAN_ERR_FULL ''AUTH_FAIL send'' c')
           else (SODCHAN_OK, sodchan_i_set_error SODCHAN_ERR_REJECTED ''authentication rejected''
                  (emit_auth_failed SODCHAN_AUTH_REASON_POLICY ''auth_decide reject'' c')))"
      using True ok fl len unfolding sodchan_auth_decide_ex_def Let_def cl by simp
    show thesis
    proof (cases "acc \<and> e = SODCHAN_OK")
      case a: True
      then show thesis
        using accepted [OF cl _ _ _ _ _ _ ok [unfolded a [THEN conjunct2]]] True len eq
        by (simp add: emit_authenticated_def)
    next
      case False
      then have "ctx_state (snd (sodchan_auth_decide_ex sod acc cl ctx)) = STATE_ERROR"
        by (auto simp: eq)
      then show thesis using failed by (metis prod.collapse)
    qed
  qed
qed

lemma auth_decide_inv:
  assumes "push_len_law sod" and "ctx_inv sod ctx"
  shows "ctx_inv sod (snd (sodchan_auth_decide_ex sod acc cl ctx))"
proof -
  obtain r d where d: "sodchan_auth_decide_ex sod acc cl ctx = (r, d)"
    by (cases "sodchan_auth_decide_ex sod acc cl ctx")
  have base: "base_inv d"
    using base_inv_keeps [OF auth_decide_ex_keeps [OF d keeps_refl] assms(1)] assms(2)
    by (simp add: ctx_inv_def)
  have "live_ok sod d"
  proof (cases rule: auth_decide_ex_cases [of sod acc cl ctx])
    case (refused e)
    with d assms(2) show ?thesis by (simp add: ctx_inv_def)
  next
    case (failed e c)
    with d show ?thesis by simp
  next
    case (accepted claims c)
    let ?ctx = "ctx\<lparr> ctx_auth_awaiting_decide := False, ctx_auth_decided := True \<rparr>"
    have live: "peer_checked sod ctx" "device_verified sod ctx" "ctx_hs ctx = HS_DONE"
      "ctx_ss_push_ready ctx" "ctx_ss_pull_ready ctx"
      using assms(2) accepted(4-7) by (simp_all add: ctx_inv_def live_ok_def)
    have ap: "auth_part c = auth_part ?ctx" by (rule auth_part_pairs(4) [OF accepted(8)])
    have sp: "session_part c = session_part ?ctx"
      using auth_sends_session_part(2) [of sod cl ?ctx] accepted(8) by simp
    have "peer_checked sod ?ctx" "device_verified sod ?ctx"
      using live(1,2)
      by (simp_all add: peer_checked_def server_verified_def transcript_built_def device_verified_def
          split: sodchan_role.splits)
    then have "peer_checked sod c" "device_verified sod c"
      using peer_checked_cong [OF ap] device_verified_cong [OF ap] by auto
    moreover have dd: "d = emit EVENT_AUTHENTICATED (c\<lparr> ctx_auth_complete := True, ctx_state := STATE_READY \<rparr>)"
      using d accepted(9) by simp
    ultimately have "peer_checked sod d" "device_verified sod d"
      unfolding dd
      by (simp_all add: peer_checked_def server_verified_def transcript_built_def device_verified_def
          split: sodchan_role.splits)
    moreover have "ctx_state d = STATE_READY" "ctx_hs d = HS_DONE" "ctx_ss_push_ready d" "ctx_ss_pull_ready d"
        "ctx_auth_complete d" "ctx_auth_decided d"
      using live(3-5) session_part_fields [OF sp] by (simp_all add: dd)
    ultimately show ?thesis by (simp add: live_ok_def)
  qed
  with base d show ?thesis by (simp add: ctx_inv_def)
qed

section \<open>Starting the handshake\<close>

lemma queue_local_hello_client_ok:
  assumes "ctx_role ctx = ROLE_CLIENT" and "length (ctx_eph_pk ctx) = 32"
    and "length (ctx_client_id_pk ctx) = 32" and "out_pending ctx = []"
  shows "fst (queue_local_hello sod ctx) = SODCHAN_OK"
proof -
  have send: "fst (out_append_frame b ctx) = SODCHAN_OK" if "length b = 140" for b
  proof -
    have "sodchan_wire_frame_encode (Some b) (Some (4 + unat SODCHAN_MAX_CLEAR_FRAME))
        = Inr (sodchan_wire_put_u32 (of_nat (length b)) @ b)"
      using that by (simp add: sodchan_wire_frame_encode_def sodchan_wire_frame_encode_max_def
          SODCHAN_MAX_CLEAR_FRAME_def)
    then show ?thesis
      using that assms(4)
      by (simp add: out_append_frame_def out_append_def Let_def SODCHAN_OUT_BUF_SIZE_def)
  qed
  show ?thesis
    using assms(1-3)
    by (simp add: queue_local_hello_def sodchan_wire_hello_encode_def SODCHAN_HELLO_BODY_LEN_def
        Let_def send split: sum.split)
qed

lemma handshake_start_total:
  assumes "kx_keypair_law sod" and "length (ctx_client_id_pk ctx) = 32" and "out_pending ctx = []"
  shows "\<exists>c. handshake_start sod ctx = (SODCHAN_OK, c)"
proof -
  obtain pk sk where kp: "crypto_kx_keypair sod (ctx_draws ctx) = Some (pk, sk)" "length pk = 32"
    using assms(1) unfolding kx_keypair_law_def by metis
  let ?c = "ctx\<lparr> ctx_eph_pk := pk, ctx_eph_sk := sk, ctx_draws := ctx_draws ctx + 1 \<rparr>"
  have "fst (queue_local_hello sod ?c) = SODCHAN_OK" if "ctx_role ctx = ROLE_CLIENT"
    using that kp assms(2,3) by (intro queue_local_hello_client_ok) simp_all
  then show ?thesis
    by (cases "queue_local_hello sod ?c") (simp add: handshake_start_def kp Let_def)
qed

lemma handshake_start_inv:
  assumes "handshake_start sod ctx = (SODCHAN_OK, c)" and "push_len_law sod" and "base_inv ctx"
    and "undecided ctx" and "\<not> ctx_auth_awaiting_decide ctx"
  shows "ctx_inv sod c"
  using base_inv_keeps [OF handshake_start_keeps [OF assms(1) keeps_refl] assms(2,3)]
    handshake_start_ok [OF assms(1)] assms(4,5)
  by (simp add: ctx_inv_def live_ok_def undecided_def)

lemma reset_inv:
  assumes "push_len_law sod" and "kx_keypair_law sod" and "ctx_inv sod ctx"
  shows "ctx_inv sod (sodchan_reset sod ctx)"
proof -
  have "\<exists>c0. sodchan_reset sod ctx = snd (handshake_start sod c0) \<and> base_inv c0 \<and> undecided c0
      \<and> \<not> ctx_auth_awaiting_decide c0 \<and> out_pending c0 = []"
    using assms(3)
    by (auto simp: sodchan_reset_def Let_def ctx_inv_def base_inv_def undecided_def ring_wf_def out_wf_def
        table_wf_def used_count_replicate out_pending_def SODCHAN_MAX_CHANNELS_def)
  then obtain c0 where c0: "sodchan_reset sod ctx = snd (handshake_start sod c0)" "base_inv c0"
      "undecided c0" "\<not> ctx_auth_awaiting_decide c0" "out_pending c0 = []"
    by blast
  obtain c where c: "handshake_start sod c0 = (SODCHAN_OK, c)"
    using handshake_start_total [OF assms(2) _ c0(5)] c0(2) by (auto simp: base_inv_def)
  show ?thesis
    using handshake_start_inv [OF c assms(1) c0(2-4)] c0(1) c by simp
qed

end
