(* ===== verification/Reachable.thy ===== *)
theory Reachable
  imports Safety
begin

text \<open>
  The contexts that a program reaches by creating a context and calling the
  public functions in any order with any arguments, and the security properties
  that hold in all of them.
\<close>

section \<open>Calls\<close>

text \<open>The keys of a configuration point to as many bytes as the header says.\<close>

definition config_ok :: "sodchan_config option \<Rightarrow> bool" where
  "config_ok cfg = (case cfg of None \<Rightarrow> True
     | Some c \<Rightarrow> list_all (\<lambda>(k, n). case k of None \<Rightarrow> True | Some b \<Rightarrow> length b = n)
         [(cfg_client_id_pk c, 32), (cfg_client_id_sk c, 64), (cfg_server_id_pk c, 32),
          (cfg_server_id_sk c, 64)])"

datatype api_call =
    Feed_Input span
  | Get_Output dest
  | Next_Event
  | Auth_Decide bool span
  | Channel_Open span
  | Channel_Accept u32 bool
  | Channel_Send bool u32 span
  | Channel_Eof u32
  | Channel_Close u32
  | Window_Adjust u32 u32
  | Disconnect_Call int span
  | Reset

primrec exec :: "('ss, 'gh) sodium \<Rightarrow> api_call \<Rightarrow> 'ss sodchan_ctx \<Rightarrow> 'ss sodchan_ctx" where
  "exec sod (Feed_Input d) ctx = snd (sodchan_feed_input sod d ctx)"
| "exec sod (Get_Output b) ctx = snd (sodchan_get_output b ctx)"
| "exec sod Next_Event ctx = snd (sodchan_next_event ctx)"
| "exec sod (Auth_Decide a cl) ctx = snd (sodchan_auth_decide_ex sod a cl ctx)"
| "exec sod (Channel_Open n) ctx = snd (snd (sodchan_channel_open sod n ctx))"
| "exec sod (Channel_Accept k a) ctx = snd (sodchan_channel_accept sod k a ctx)"
| "exec sod (Channel_Send m k d) ctx = snd (sodchan_channel_send sod m k d ctx)"
| "exec sod (Channel_Eof k) ctx = snd (sodchan_channel_eof sod k ctx)"
| "exec sod (Channel_Close k) ctx = snd (sodchan_channel_close sod k ctx)"
| "exec sod (Window_Adjust k n) ctx = snd (sodchan_channel_window_adjust sod k n ctx)"
| "exec sod (Disconnect_Call r m) ctx = snd (sodchan_disconnect sod r m ctx)"
| "exec sod Reset ctx = sodchan_reset sod ctx"

text \<open>\<open>reachable sod cfg ctx\<close>: \<open>ctx\<close> came out of a creation with \<open>cfg\<close> and later calls.\<close>

inductive reachable :: "('ss, 'gh) sodium \<Rightarrow> sodchan_config option \<Rightarrow> 'ss sodchan_ctx \<Rightarrow> bool"
  for sod :: "('ss, 'gh) sodium" and cfg :: "sodchan_config option" where
  created: "sodchan_create sod lab m1 m2 z draws role cfg = Some ctx \<Longrightarrow> reachable sod cfg ctx"
| called: "reachable sod cfg ctx \<Longrightarrow> reachable sod cfg (exec sod call ctx)"

section \<open>Creation\<close>

lemma cfg_dup_fields [simp]:
  "ctx_role (snd (cfg_dup s ctx)) = ctx_role ctx" "ctx_state (snd (cfg_dup s ctx)) = ctx_state ctx"
  "ctx_hs (snd (cfg_dup s ctx)) = ctx_hs ctx" "ctx_error (snd (cfg_dup s ctx)) = ctx_error ctx"
  "ctx_error_msg (snd (cfg_dup s ctx)) = ctx_error_msg ctx"
  "ctx_event_queue_size (snd (cfg_dup s ctx)) = ctx_event_queue_size ctx"
  "ctx_max_record_size (snd (cfg_dup s ctx)) = ctx_max_record_size ctx"
  "ctx_max_channel_data (snd (cfg_dup s ctx)) = ctx_max_channel_data ctx"
  "ctx_max_channels (snd (cfg_dup s ctx)) = ctx_max_channels ctx"
  "ctx_initial_window (snd (cfg_dup s ctx)) = ctx_initial_window ctx"
  "ctx_max_packet (snd (cfg_dup s ctx)) = ctx_max_packet ctx"
  "ctx_accept_any_server_pk (snd (cfg_dup s ctx)) = ctx_accept_any_server_pk ctx"
  "ctx_lab_mode (snd (cfg_dup s ctx)) = ctx_lab_mode ctx"
  "ctx_client_id_pk (snd (cfg_dup s ctx)) = ctx_client_id_pk ctx"
  "ctx_client_id_sk (snd (cfg_dup s ctx)) = ctx_client_id_sk ctx"
  "ctx_server_id_pk (snd (cfg_dup s ctx)) = ctx_server_id_pk ctx"
  "ctx_server_id_sk (snd (cfg_dup s ctx)) = ctx_server_id_sk ctx"
  "ctx_have_client_id_pk (snd (cfg_dup s ctx)) = ctx_have_client_id_pk ctx"
  "ctx_have_client_id_sk (snd (cfg_dup s ctx)) = ctx_have_client_id_sk ctx"
  "ctx_have_server_id_pk (snd (cfg_dup s ctx)) = ctx_have_server_id_pk ctx"
  "ctx_have_server_id_sk (snd (cfg_dup s ctx)) = ctx_have_server_id_sk ctx"
  "ctx_eph_pk (snd (cfg_dup s ctx)) = ctx_eph_pk ctx"
  "ctx_eph_sk (snd (cfg_dup s ctx)) = ctx_eph_sk ctx"
  "ctx_peer_eph_pk (snd (cfg_dup s ctx)) = ctx_peer_eph_pk ctx"
  "ctx_peer_id_pk (snd (cfg_dup s ctx)) = ctx_peer_id_pk ctx"
  "ctx_have_peer_eph (snd (cfg_dup s ctx)) = ctx_have_peer_eph ctx"
  "ctx_have_peer_id (snd (cfg_dup s ctx)) = ctx_have_peer_id ctx"
  "ctx_ss_key_c2s (snd (cfg_dup s ctx)) = ctx_ss_key_c2s ctx"
  "ctx_ss_key_s2c (snd (cfg_dup s ctx)) = ctx_ss_key_s2c ctx"
  "ctx_ss_push (snd (cfg_dup s ctx)) = ctx_ss_push ctx"
  "ctx_ss_pull (snd (cfg_dup s ctx)) = ctx_ss_pull ctx"
  "ctx_ss_push_ready (snd (cfg_dup s ctx)) = ctx_ss_push_ready ctx"
  "ctx_ss_pull_ready (snd (cfg_dup s ctx)) = ctx_ss_pull_ready ctx"
  "ctx_t_hello (snd (cfg_dup s ctx)) = ctx_t_hello ctx"
  "ctx_have_t_hello (snd (cfg_dup s ctx)) = ctx_have_t_hello ctx"
  "ctx_auth_sent (snd (cfg_dup s ctx)) = ctx_auth_sent ctx"
  "ctx_auth_awaiting_decide (snd (cfg_dup s ctx)) = ctx_auth_awaiting_decide ctx"
  "ctx_auth_decided (snd (cfg_dup s ctx)) = ctx_auth_decided ctx"
  "ctx_auth_complete (snd (cfg_dup s ctx)) = ctx_auth_complete ctx"
  "ctx_channels (snd (cfg_dup s ctx)) = ctx_channels ctx"
  "ctx_next_local_channel_id (snd (cfg_dup s ctx)) = ctx_next_local_channel_id ctx"
  "ctx_active_channels (snd (cfg_dup s ctx)) = ctx_active_channels ctx"
  "ctx_allowed_channels (snd (cfg_dup s ctx)) = ctx_allowed_channels ctx"
  "ctx_client_username (snd (cfg_dup s ctx)) = ctx_client_username ctx"
  "ctx_client_device_id (snd (cfg_dup s ctx)) = ctx_client_device_id ctx"
  "ctx_out_buf (snd (cfg_dup s ctx)) = ctx_out_buf ctx"
  "ctx_out_off (snd (cfg_dup s ctx)) = ctx_out_off ctx"
  "ctx_in_buf (snd (cfg_dup s ctx)) = ctx_in_buf ctx"
  "ctx_events (snd (cfg_dup s ctx)) = ctx_events ctx"
  "ctx_event_cap (snd (cfg_dup s ctx)) = ctx_event_cap ctx"
  "ctx_event_head (snd (cfg_dup s ctx)) = ctx_event_head ctx"
  "ctx_event_count (snd (cfg_dup s ctx)) = ctx_event_count ctx"
  "ctx_draws (snd (cfg_dup s ctx)) = ctx_draws ctx"
  by (simp_all add: cfg_dup_def Let_def split: option.split)

text \<open>What the defaults leave of the new context.\<close>

lemma apply_config_defaults_fields:
  fixes cfg ctx
  defines "c \<equiv> apply_config_defaults cfg ctx"
  shows "ctx_role c = ctx_role ctx" "ctx_out_buf c = ctx_out_buf ctx" "ctx_out_off c = ctx_out_off ctx"
    "ctx_in_buf c = ctx_in_buf ctx" "ctx_channels c = ctx_channels ctx"
    "ctx_active_channels c = ctx_active_channels ctx"
    "ctx_event_head c = ctx_event_head ctx" "ctx_event_count c = ctx_event_count ctx"
    "ctx_auth_awaiting_decide c = ctx_auth_awaiting_decide ctx"
    "ctx_auth_decided c = ctx_auth_decided ctx" "ctx_auth_complete c = ctx_auth_complete ctx"
    "ctx_client_id_pk c = fst (copy_key (cfg_client_id_pk cfg) 32)"
    "ctx_accept_any_server_pk c = cfg_accept_any_server_pk cfg"
    "ctx_server_id_pk c = fst (copy_key (cfg_server_id_pk cfg) 32)"
    "ctx_have_server_id_pk c = (cfg_server_id_pk cfg \<noteq> None)"
    "0 < ctx_event_queue_size c" "ctx_max_channels c \<le> SODCHAN_MAX_CHANNELS"
  unfolding c_def apply_config_defaults_def Let_def
  by (simp_all add: case_prod_unfold copy_key_def cfg_default_size_def SODCHAN_DEFAULT_EVENT_QUEUE_def
      split: option.split)

lemma apply_config_defaults_more:
  fixes cfg ctx
  defines "c \<equiv> apply_config_defaults cfg ctx"
  shows "ctx_state c = ctx_state ctx" "ctx_hs c = ctx_hs ctx" "ctx_draws c = ctx_draws ctx"
    "ctx_auth_sent c = ctx_auth_sent ctx" "ctx_have_t_hello c = ctx_have_t_hello ctx"
    "ctx_ss_push_ready c = ctx_ss_push_ready ctx" "ctx_ss_pull_ready c = ctx_ss_pull_ready ctx"
    "ctx_max_record_size c = cfg_default_size (cfg_max_record_size cfg) SODCHAN_DEFAULT_MAX_RECORD"
    "ctx_have_client_id_pk c = (cfg_client_id_pk cfg \<noteq> None)"
    "ctx_have_client_id_sk c = (cfg_client_id_sk cfg \<noteq> None)"
    "ctx_client_id_sk c = fst (copy_key (cfg_client_id_sk cfg) 64)"
    "ctx_server_id_sk c = fst (copy_key (cfg_server_id_sk cfg) 64)"
  unfolding c_def apply_config_defaults_def Let_def
  by (simp_all add: case_prod_unfold copy_key_def split: option.split)

lemma sodchan_create_Some:
  assumes "sodchan_create sod lab m1 m2 z draws role cfg = Some ctx"
  obtains c0 where "handshake_start sod c0 = (SODCHAN_OK, ctx)"
    and "c0 = (let c = apply_config_defaults (case cfg of None \<Rightarrow> zero_config | Some x \<Rightarrow> x)
            ((zero_ctx z (if role = 0 then ROLE_SERVER else ROLE_CLIENT))\<lparr> ctx_draws := draws \<rparr>) in
          c\<lparr> ctx_event_cap := ctx_event_queue_size c, ctx_events := replicate (ctx_event_queue_size c) EVENT_NONE \<rparr>)"
proof -
  let ?c = "apply_config_defaults (case cfg of None \<Rightarrow> zero_config | Some x \<Rightarrow> x)
      ((zero_ctx z (if role = 0 then ROLE_SERVER else ROLE_CLIENT))\<lparr> ctx_draws := draws \<rparr>)"
  let ?d = "?c\<lparr> ctx_event_cap := ctx_event_queue_size ?c,
      ctx_events := replicate (ctx_event_queue_size ?c) EVENT_NONE \<rparr>"
  have "0 < ctx_event_queue_size ?c" by (rule apply_config_defaults_fields(16))
  then have "handshake_start sod ?d = (SODCHAN_OK, ctx)"
    using assms unfolding sodchan_create_def Let_def by (simp split: if_splits prod.splits)
  then show thesis using that by (simp add: Let_def)
qed

lemma config_ok_client_pk:
  "config_ok cfg \<Longrightarrow>
     length (fst (copy_key (cfg_client_id_pk (case cfg of None \<Rightarrow> zero_config | Some x \<Rightarrow> x)) 32)) = 32"
  by (auto simp: config_ok_def zero_config_def copy_key_def split: option.splits)

lemma create_inv:
  assumes "sodchan_create sod lab m1 m2 z draws role cfg = Some ctx" and "config_ok cfg"
    and "push_len_law sod"
  shows "ctx_inv sod ctx"
proof -
  from assms(1) obtain c0 where hs: "handshake_start sod c0 = (SODCHAN_OK, ctx)"
    and c0: "c0 = (let c = apply_config_defaults (case cfg of None \<Rightarrow> zero_config | Some x \<Rightarrow> x)
            ((zero_ctx z (if role = 0 then ROLE_SERVER else ROLE_CLIENT))\<lparr> ctx_draws := draws \<rparr>) in
          c\<lparr> ctx_event_cap := ctx_event_queue_size c, ctx_events := replicate (ctx_event_queue_size c) EVENT_NONE \<rparr>)"
    by (rule sodchan_create_Some)
  have "base_inv c0" "undecided c0" "\<not> ctx_auth_awaiting_decide c0"
    using config_ok_client_pk [OF assms(2)]
    by (simp_all add: c0 Let_def base_inv_def undecided_def apply_config_defaults_fields ring_wf_def
        out_wf_def table_wf_def used_count_replicate)
  then show ?thesis by (rule handshake_start_inv [OF hs assms(3)])
qed

text \<open>When creation succeeds.\<close>

definition create_allowed ::
    "('ss, 'gh) sodium \<Rightarrow> bool \<Rightarrow> bool \<Rightarrow> bool \<Rightarrow> int \<Rightarrow> sodchan_config option \<Rightarrow> bool" where
  "create_allowed sod lab m1 m2 role cfg \<longleftrightarrow>
     (let cf = (case cfg of None \<Rightarrow> zero_config | Some c \<Rightarrow> c) in
      (role = 0 \<and> cfg_server_id_pk cf \<noteq> None \<and> cfg_server_id_sk cf \<noteq> None
       \<or> role = 1 \<and> (cfg_accept_any_server_pk cf \<or> cfg_server_id_pk cf \<noteq> None))
      \<and> (cfg_lab_mode cf \<longrightarrow> lab) \<and> sodium_init_ok sod \<and> m1 \<and> m2)"

lemma create_needs:
  "sodchan_create sod lab m1 m2 z draws role cfg = Some ctx \<Longrightarrow> create_allowed sod lab m1 m2 role cfg"
  unfolding sodchan_create_def create_allowed_def Let_def
  by (auto simp: sodchan_crypto_init_def split: if_splits)

lemma create_succeeds:
  assumes "create_allowed sod lab m1 m2 role cfg" and "kx_keypair_law sod" and "config_ok cfg"
  shows "\<exists>ctx. sodchan_create sod lab m1 m2 z draws role cfg = Some ctx"
proof -
  let ?c = "apply_config_defaults (case cfg of None \<Rightarrow> zero_config | Some x \<Rightarrow> x)
      ((zero_ctx z (if role = 0 then ROLE_SERVER else ROLE_CLIENT))\<lparr> ctx_draws := draws \<rparr>)"
  let ?d = "?c\<lparr> ctx_event_cap := (if ctx_event_queue_size ?c = 0 then SODCHAN_DEFAULT_EVENT_QUEUE
      else ctx_event_queue_size ?c), ctx_events := replicate (if ctx_event_queue_size ?c = 0
      then SODCHAN_DEFAULT_EVENT_QUEUE else ctx_event_queue_size ?c) EVENT_NONE \<rparr>"
  have "length (ctx_client_id_pk ?d) = 32" "out_pending ?d = []"
    using config_ok_client_pk [OF assms(3)]
    by (simp_all add: apply_config_defaults_fields out_pending_def)
  from handshake_start_total [OF assms(2) this] obtain ctx where hs: "handshake_start sod ?d = (SODCHAN_OK, ctx)"
    by blast
  have g: "role = 0 \<or> role = 1" "\<not> (\<not> lab \<and> cfg_lab_mode (case cfg of None \<Rightarrow> zero_config | Some c \<Rightarrow> c))"
      "\<not> ((if role = 0 then ROLE_SERVER else ROLE_CLIENT) = ROLE_SERVER
         \<and> (cfg_server_id_pk (case cfg of None \<Rightarrow> zero_config | Some c \<Rightarrow> c) = None
            \<or> cfg_server_id_sk (case cfg of None \<Rightarrow> zero_config | Some c \<Rightarrow> c) = None))"
      "\<not> ((if role = 0 then ROLE_SERVER else ROLE_CLIENT) = ROLE_CLIENT
         \<and> \<not> cfg_accept_any_server_pk (case cfg of None \<Rightarrow> zero_config | Some c \<Rightarrow> c)
         \<and> cfg_server_id_pk (case cfg of None \<Rightarrow> zero_config | Some c \<Rightarrow> c) = None)"
      "sodchan_crypto_init sod = SODCHAN_OK" "m1" "m2"
    using assms(1) by (auto simp: create_allowed_def Let_def sodchan_crypto_init_def)
  show ?thesis
    unfolding sodchan_create_def Let_def using g hs by auto
qed

end
