(* ===== verification/Establish.thy ===== *)
theory Establish
  imports Reachable
begin

text \<open>
  Two ends talking to each other: what one end queues is taken with
  \<^verbatim>\<open>sodchan_get_output\<close> and given to the other with \<^verbatim>\<open>sodchan_feed_input\<close>. Each
  lemma of the first sections is one leg of the handshake; together they give
  the theorem that a client and a server that hold the right keys reach READY.
\<close>

section \<open>One frame from one end to the other\<close>

definition on_wire :: "bytes \<Rightarrow> bytes" where
  "on_wire b = sodchan_wire_put_u32 (of_nat (length b)) @ b"

definition deliver ::
    "('ss, 'gh) sodium \<Rightarrow> 'ss sodchan_ctx \<Rightarrow> 'ss sodchan_ctx \<Rightarrow> 'ss sodchan_ctx \<times> 'ss sodchan_ctx" where
  "deliver sod a b =
     (case sodchan_get_output (Some SODCHAN_OUT_BUF_SIZE) a of
        (out, a) \<Rightarrow> (a, snd (sodchan_feed_input sod (Some out) b)))"

text \<open>The limit on a frame body that the receiver applies.\<close>

definition body_limit :: "'ss sodchan_ctx \<Rightarrow> u32" where
  "body_limit ctx = (if ctx_hs ctx = HS_DONE then ss_frame_max_body ctx else SODCHAN_MAX_CLEAR_FRAME)"

lemma body_limit_bound: "4 + unat (body_limit ctx) \<le> SODCHAN_IN_BUF_SIZE"
  using ss_frame_max_body_bound [of ctx]
  by (simp add: body_limit_def SODCHAN_IN_BUF_SIZE_def SODCHAN_MAX_CLEAR_FRAME_def)

lemma on_wire_frame: "frame_ok m b \<Longrightarrow> wire_frame m b = on_wire b"
  by (simp add: wire_frame_eq on_wire_def)

lemma length_on_wire [simp]: "length (on_wire b) = 4 + length b"
  by (simp add: on_wire_def)

lemma parse_on_wire:
  assumes "frame_ok (body_limit ctx) b" and "ctx_in_buf ctx = on_wire b"
  shows "parse_frame ctx = Inr (b, 4 + length b)"
proof -
  have "frame_ok m b \<Longrightarrow> sodchan_wire_frame_parse_max (Some (on_wire b)) m = Inr (b, 4 + length b)" for m
    using frame_parse_frame [of m b] on_wire_frame [of m b] by simp
  then show ?thesis
    using assms by (simp add: parse_frame_def sodchan_wire_frame_parse_def body_limit_def split: if_splits)
qed

lemma process_one_frame:
  assumes "ctx_state ctx \<noteq> STATE_ERROR" and "ctx_state ctx \<noteq> STATE_CLOSED"
    and "ctx_in_buf ctx = on_wire b" and "frame_ok (body_limit ctx) b"
    and "dispatch_frame sod b ctx = (0, c)"
  shows "process_input sod ctx = c\<lparr> ctx_in_buf := [] \<rparr>"
proof -
  have "ctx_in_buf c = on_wire b"
    using in_buf_fixed [OF dispatch_frame_fixed [OF assms(5)]] assms(3) by simp
  then have "process_input sod ctx = process_input sod (c\<lparr> ctx_in_buf := [] \<rparr>)"
    using assms parse_on_wire [OF assms(4,3)] by (subst process_input.simps) simp
  also have "\<dots> = c\<lparr> ctx_in_buf := [] \<rparr>" by (subst process_input.simps) simp
  finally show ?thesis .
qed

lemma feed_one_frame:
  assumes "ctx_state ctx \<noteq> STATE_ERROR" and "ctx_state ctx \<noteq> STATE_CLOSED" and "ctx_in_buf ctx = []"
    and "frame_ok (body_limit ctx) b"
    and "dispatch_frame sod b (ctx\<lparr> ctx_in_buf := on_wire b \<rparr>) = (0, c)"
  shows "sodchan_feed_input sod (Some (on_wire b)) ctx = (4 + length b, c\<lparr> ctx_in_buf := [] \<rparr>)"
proof -
  have lim: "body_limit (ctx\<lparr> ctx_in_buf := on_wire b \<rparr>) = body_limit ctx"
    by (simp add: body_limit_def ss_frame_max_body_def)
  have "process_input sod (ctx\<lparr> ctx_in_buf := on_wire b \<rparr>) = c\<lparr> ctx_in_buf := [] \<rparr>"
    by (rule process_one_frame [OF _ _ _ _ assms(5)]) (use assms lim in simp_all)
  moreover have "length (on_wire b) \<le> SODCHAN_IN_BUF_SIZE" "0 < length (on_wire b)"
    using assms(4) body_limit_bound [of ctx] by (simp_all add: frame_ok_def)
  ultimately show ?thesis
    using assms(1-3) by (simp add: sodchan_feed_input_def Let_def)
qed

lemma get_output_all:
  assumes "ctx_out_off a = 0" and "ctx_out_buf a = on_wire b" and "4 + length b \<le> SODCHAN_OUT_BUF_SIZE"
  shows "sodchan_get_output (Some SODCHAN_OUT_BUF_SIZE) a
     = (on_wire b, a\<lparr> ctx_out_off := 0, ctx_out_buf := [] \<rparr>)"
  using assms by (simp add: sodchan_get_output_def Let_def SODCHAN_OUT_BUF_SIZE_def)

lemma deliver_one_frame:
  assumes "ctx_out_off a = 0" and "ctx_out_buf a = on_wire b"
    and "ctx_state ctx \<noteq> STATE_ERROR" and "ctx_state ctx \<noteq> STATE_CLOSED" and "ctx_in_buf ctx = []"
    and "frame_ok (body_limit ctx) b"
    and "dispatch_frame sod b (ctx\<lparr> ctx_in_buf := on_wire b \<rparr>) = (0, c)"
  shows "deliver sod a ctx = (a\<lparr> ctx_out_off := 0, ctx_out_buf := [] \<rparr>, c\<lparr> ctx_in_buf := [] \<rparr>)"
proof -
  have "4 + length b \<le> SODCHAN_OUT_BUF_SIZE"
    using assms(6) body_limit_bound [of ctx]
    by (simp add: frame_ok_def SODCHAN_OUT_BUF_SIZE_def SODCHAN_IN_BUF_SIZE_def)
  then show ?thesis
    using get_output_all [OF assms(1,2)] feed_one_frame [OF assms(3-7)] by (simp add: deliver_def)
qed

section \<open>Queueing\<close>

lemma emit_eq: "\<exists>es n. emit ev ctx = ctx\<lparr> ctx_events := es, ctx_event_count := n \<rparr>"
proof (cases "ctx_events ctx = [] \<or> ctx_event_cap ctx \<le> ctx_event_count ctx")
  case True
  then have "emit ev ctx = ctx\<lparr> ctx_events := ctx_events ctx, ctx_event_count := ctx_event_count ctx \<rparr>"
    by (auto simp: emit_def sodchan_i_queue_event_def)
  then show ?thesis by blast
next
  case False
  then show ?thesis
    unfolding emit_def sodchan_i_queue_event_def Let_def by (simp del: sodchan_ctx.simps) blast
qed

lemma out_append_frame_now:
  assumes "0 < length b" and "length b \<le> 512" and "out_pending ctx = []"
  shows "out_append_frame b ctx = (SODCHAN_OK, ctx\<lparr> ctx_out_buf := on_wire b, ctx_out_off := 0 \<rparr>)"
  using assms
  by (simp add: out_append_frame_def sodchan_wire_frame_encode_def sodchan_wire_frame_encode_max_def
      SODCHAN_MAX_CLEAR_FRAME_def out_append_def out_compact_eq SODCHAN_OUT_BUF_SIZE_def Let_def on_wire_def)

section \<open>The legs of the handshake\<close>

definition hello_msg :: "sodchan_role \<Rightarrow> bytes \<Rightarrow> bytes \<Rightarrow> bytes \<Rightarrow> sodchan_hello" where
  "hello_msg role eph idk sig = \<lparr> h_proto_version = SODCHAN_PROTO_VERSION, h_suite_id = SODCHAN_SUITE_V1,
     h_role = role_code role, h_flags = 0, h_eph_pk = eph, h_id_pk = idk, h_id_sig = sig \<rparr>"

definition transcript :: "bytes \<Rightarrow> bytes \<Rightarrow> bytes \<Rightarrow> bytes" where
  "transcript ceph seph spk = encoded (sodchan_wire_build_t_hello SODCHAN_PROTO_VERSION SODCHAN_SUITE_V1
     ceph seph spk (Some SODCHAN_T_HELLO_LEN))"

lemma build_transcript:
  "sodchan_wire_build_t_hello SODCHAN_PROTO_VERSION SODCHAN_SUITE_V1 c e i (Some SODCHAN_T_HELLO_LEN)
     = Inr (transcript c e i)"
  by (simp add: transcript_def t_hello_Inr)

lemma length_transcript:
  "length c = 32 \<Longrightarrow> length e = 32 \<Longrightarrow> length i = 32 \<Longrightarrow> length (transcript c e i) = 123"
  by (simp add: transcript_def t_hello_Inr)

lemma hello_msg_ok:
  "length eph = 32 \<Longrightarrow> length idk = 32 \<Longrightarrow> length sig = 64 \<Longrightarrow> hello_ok (hello_msg role eph idk sig)"
  by (cases role) (simp_all add: hello_ok_def hello_msg_def hello_arrays_def)

lemma hello_encodes:
  "sodchan_wire_hello_encode h (Some SODCHAN_HELLO_BODY_LEN) = Inr (hello_enc h)"
  by (simp add: hello_enc_def sodchan_wire_hello_encode_def)

lemma length_hello_enc: "hello_arrays h \<Longrightarrow> length (hello_enc h) = 140"
  by (simp add: hello_enc_def sodchan_wire_hello_encode_def hello_arrays_def SODCHAN_HELLO_BODY_LEN_def)

lemma hello_msg_arrays: "hello_arrays (hello_msg role eph idk sig) \<longleftrightarrow> length eph = 32 \<and> length idk = 32 \<and> length sig = 64"
  by (simp add: hello_arrays_def hello_msg_def)

text \<open>The server answers a client HELLO.\<close>

lemma server_answers_hello:
  assumes role: "ctx_role s = ROLE_SERVER" and out: "out_pending s = []"
    and h: "h = hello_msg ROLE_CLIENT ceph idk (replicate 64 0)" and len: "length ceph = 32" "length idk = 32"
      "length (ctx_eph_pk s) = 32" "length (ctx_server_id_pk s) = 32" "length sig = 64"
    and t: "t = transcript ceph (ctx_eph_pk s) (ctx_server_id_pk s)"
    and sig: "crypto_sign_detached sod t (ctx_server_id_sk s) = Some sig"
    and kx: "crypto_kx_server_session_keys sod (ctx_eph_pk s) (ctx_eph_sk s) ceph = Some (rx, tx)"
    and key: "sodchan_crypto_ss_key_derive sod rx SODCHAN_DOM_SS_C2S = Inr k1"
      "sodchan_crypto_ss_key_derive sod tx SODCHAN_DOM_SS_S2C = Inr k2"
  shows "\<exists>es n p b. handle_peer_hello sod (hello_enc h) s = (0, s\<lparr> ctx_peer_eph_pk := ceph,
     ctx_have_peer_eph := True, ctx_peer_id_pk := p, ctx_have_peer_id := b, ctx_events := es,
     ctx_event_count := n, ctx_t_hello := t, ctx_have_t_hello := True,
     ctx_out_buf := on_wire (hello_enc (hello_msg ROLE_SERVER (ctx_eph_pk s) (ctx_server_id_pk s) sig)),
     ctx_out_off := 0, ctx_ss_key_c2s := k1, ctx_ss_key_s2c := k2, ctx_state := STATE_SS_HEADER,
     ctx_hs := HS_WAIT_PEER_SS \<rparr>)"
proof -
  define p where "p = (if sodium_is_zero sod idk then ctx_peer_id_pk s else idk)"
  define b where "b = (sodium_is_zero sod idk \<longrightarrow> ctx_have_peer_id s)"
  let ?s1 = "s\<lparr> ctx_peer_eph_pk := ceph, ctx_have_peer_eph := True, ctx_peer_id_pk := p, ctx_have_peer_id := b \<rparr>"
  obtain es n where ev: "emit_hello_received ?s1 = ?s1\<lparr> ctx_events := es, ctx_event_count := n \<rparr>"
    unfolding emit_hello_received_def using emit_eq by blast
  let ?s2 = "?s1\<lparr> ctx_events := es, ctx_event_count := n \<rparr>"
  let ?sh = "hello_msg ROLE_SERVER (ctx_eph_pk s) (ctx_server_id_pk s) sig"
  have dec: "sodchan_wire_hello_decode (Some (hello_enc h)) = Inr h"
    unfolding h using len by (intro hello_dec_enc hello_msg_ok) simp_all
  have send: "out_append_frame (hello_enc ?sh) (?s2\<lparr> ctx_t_hello := t, ctx_have_t_hello := True \<rparr>)
      = (SODCHAN_OK, ?s2\<lparr> ctx_t_hello := t, ctx_have_t_hello := True, ctx_out_buf := on_wire (hello_enc ?sh),
           ctx_out_off := 0 \<rparr>)"
    using out len by (intro out_append_frame_now) (simp_all add: length_hello_enc hello_msg_arrays out_pending_def)
  have q: "queue_local_hello sod ?s2 = (SODCHAN_OK, ?s2\<lparr> ctx_t_hello := t, ctx_have_t_hello := True,
      ctx_out_buf := on_wire (hello_enc ?sh), ctx_out_off := 0 \<rparr>)"
    using role sig t send build_transcript [of ceph "ctx_eph_pk s" "ctx_server_id_pk s"]
    by (simp add: queue_local_hello_def Let_def hello_encodes hello_msg_def)
  have s1: "(if \<not> sodium_is_zero sod idk then s\<lparr> ctx_peer_eph_pk := ceph, ctx_have_peer_eph := True,
      ctx_peer_id_pk := idk, ctx_have_peer_id := True \<rparr>
      else s\<lparr> ctx_peer_eph_pk := ceph, ctx_have_peer_eph := True \<rparr>) = ?s1"
    by (simp add: p_def b_def)
  let ?s3 = "?s2\<lparr> ctx_t_hello := t, ctx_have_t_hello := True, ctx_out_buf := on_wire (hello_enc ?sh),
      ctx_out_off := 0 \<rparr>"
  have d: "derive_ss_keys_server sod ?s3 = (SODCHAN_OK, ?s3\<lparr> ctx_ss_key_c2s := k1, ctx_ss_key_s2c := k2 \<rparr>)"
    unfolding derive_server_ok using kx key by simp
  have fields: "h_role h = SODCHAN_ROLE_CLIENT" "h_eph_pk h = ceph" "h_id_pk h = idk"
    by (simp_all add: h hello_msg_def)
  have "handle_client_hello sod h s = (0, ?s3\<lparr> ctx_ss_key_c2s := k1, ctx_ss_key_s2c := k2,
      ctx_state := STATE_SS_HEADER, ctx_hs := HS_WAIT_PEER_SS \<rparr>)"
    unfolding handle_client_hello_def Let_def fields s1 ev by (simp only: q prod.case d) simp
  then show ?thesis
    using role dec
    by (intro exI [of _ es] exI [of _ n] exI [of _ p] exI [of _ b]) (simp add: handle_peer_hello_def)
qed

text \<open>The client accepts the server's HELLO and sends its secretstream header.\<close>

lemma client_accepts_hello:
  assumes role: "ctx_role c = ROLE_CLIENT" and out: "out_pending c = []"
    and h: "h = hello_msg ROLE_SERVER seph spk sig" and len: "length seph = 32" "length spk = 32" "length sig = 64"
    and pin: "ctx_accept_any_server_pk c \<or> ctx_have_server_id_pk c \<and> sodium_memcmp_eq sod spk (ctx_server_id_pk c)"
    and t: "t = transcript (ctx_eph_pk c) seph spk"
    and sig: "crypto_sign_verify_detached sod sig t spk"
    and kx: "crypto_kx_client_session_keys sod (ctx_eph_pk c) (ctx_eph_sk c) seph = Some (rx, tx)"
    and key: "sodchan_crypto_ss_key_derive sod tx SODCHAN_DOM_SS_C2S = Inr k1"
      "sodchan_crypto_ss_key_derive sod rx SODCHAN_DOM_SS_S2C = Inr k2"
    and push: "crypto_secretstream_init_push sod (ctx_draws c) k1 = Some (st, hdr)" "length hdr = 24"
  shows "\<exists>es n p b. handle_peer_hello sod (hello_enc h) c = (0, c\<lparr> ctx_server_id_pk := p,
     ctx_have_server_id_pk := b, ctx_peer_eph_pk := seph, ctx_peer_id_pk := spk, ctx_have_peer_eph := True,
     ctx_have_peer_id := True, ctx_t_hello := t, ctx_have_t_hello := True, ctx_events := es,
     ctx_event_count := n, ctx_ss_key_c2s := k1, ctx_ss_key_s2c := k2, ctx_ss_push := st,
     ctx_ss_push_ready := True, ctx_draws := ctx_draws c + 1, ctx_out_buf := on_wire hdr, ctx_out_off := 0,
     ctx_state := STATE_SS_HEADER, ctx_hs := HS_WAIT_PEER_SS \<rparr>)"
proof -
  define p where "p = (if ctx_accept_any_server_pk c then spk else ctx_server_id_pk c)"
  define b where "b = (ctx_accept_any_server_pk c \<or> ctx_have_server_id_pk c)"
  let ?c1 = "c\<lparr> ctx_server_id_pk := p, ctx_have_server_id_pk := b \<rparr>"
  let ?c2 = "?c1\<lparr> ctx_peer_eph_pk := seph, ctx_peer_id_pk := spk, ctx_have_peer_eph := True,
      ctx_have_peer_id := True, ctx_t_hello := t, ctx_have_t_hello := True \<rparr>"
  obtain es n where ev: "emit_hello_received ?c2 = ?c2\<lparr> ctx_events := es, ctx_event_count := n \<rparr>"
    unfolding emit_hello_received_def using emit_eq by blast
  let ?c3 = "?c2\<lparr> ctx_events := es, ctx_event_count := n \<rparr>"
  let ?c4 = "?c3\<lparr> ctx_ss_key_c2s := k1, ctx_ss_key_s2c := k2 \<rparr>"
  have c1: "(if \<not> ctx_accept_any_server_pk c then c
      else c\<lparr> ctx_server_id_pk := spk, ctx_have_server_id_pk := True \<rparr>) = ?c1"
    by (simp add: p_def b_def)
  have d: "derive_ss_keys_client sod ?c3 = (SODCHAN_OK, ?c4)"
    unfolding derive_client_ok using kx key by simp
  have e: "client_send_ss_header_c2s sod ?c4 = (SODCHAN_OK, ?c4\<lparr> ctx_ss_push := st,
     ctx_ss_push_ready := True, ctx_draws := ctx_draws c + 1, ctx_out_buf := on_wire hdr, ctx_out_off := 0 \<rparr>)"
    using push out_append_frame_now [of hdr "?c4\<lparr> ctx_ss_push := st, ctx_ss_push_ready := True,
        ctx_draws := ctx_draws c + 1 \<rparr>"] out
    by (simp add: client_send_ss_header_c2s_def out_pending_def)
  have dec: "sodchan_wire_hello_decode (Some (hello_enc h)) = Inr h"
    unfolding h using len by (intro hello_dec_enc hello_msg_ok) simp_all
  have fields: "h_role h = SODCHAN_ROLE_SERVER" "h_eph_pk h = seph" "h_id_pk h = spk" "h_id_sig h = sig"
    by (simp_all add: h hello_msg_def)
  have "handle_server_hello sod h c = (0, ?c4\<lparr> ctx_ss_push := st, ctx_ss_push_ready := True,
      ctx_draws := ctx_draws c + 1, ctx_out_buf := on_wire hdr, ctx_out_off := 0,
      ctx_state := STATE_SS_HEADER, ctx_hs := HS_WAIT_PEER_SS \<rparr>)"
    unfolding handle_server_hello_def Let_def fields c1
    using pin sig by (auto simp: build_transcript t [symmetric] ev d e)
  then show ?thesis
    using role dec
    by (intro exI [of _ es] exI [of _ n] exI [of _ p] exI [of _ b]) (simp add: handle_peer_hello_def)
qed

text \<open>The server reads the client's secretstream header and answers with its own.\<close>

lemma server_reads_header:
  assumes role: "ctx_role s = ROLE_SERVER" and out: "out_pending s = []" and len: "length hc = 24"
    and pull: "crypto_secretstream_init_pull sod hc (ctx_ss_key_c2s s) = Some rst"
    and push: "crypto_secretstream_init_push sod (ctx_draws s) (ctx_ss_key_s2c s) = Some (st, hdr)" "length hdr = 24"
  shows "\<exists>es n. handle_peer_ss_header sod hc s = (0, s\<lparr> ctx_ss_pull := rst, ctx_ss_pull_ready := True,
     ctx_ss_push := st, ctx_ss_push_ready := True, ctx_draws := ctx_draws s + 1, ctx_out_buf := on_wire hdr,
     ctx_out_off := 0, ctx_hs := HS_DONE, ctx_state := STATE_AUTH, ctx_events := es, ctx_event_count := n \<rparr>)"
proof -
  let ?s1 = "s\<lparr> ctx_ss_pull := rst, ctx_ss_pull_ready := True \<rparr>"
  let ?s2 = "?s1\<lparr> ctx_ss_push := st, ctx_ss_push_ready := True, ctx_draws := ctx_draws s + 1,
      ctx_out_buf := on_wire hdr, ctx_out_off := 0 \<rparr>"
  have e: "server_send_ss_header_s2c sod ?s1 = (SODCHAN_OK, ?s2)"
    using push out_append_frame_now [of hdr "?s1\<lparr> ctx_ss_push := st, ctx_ss_push_ready := True,
        ctx_draws := ctx_draws s + 1 \<rparr>"] out
    by (simp add: server_send_ss_header_s2c_def out_pending_def)
  obtain es n where ev: "emit_kx_complete (?s2\<lparr> ctx_hs := HS_DONE, ctx_state := STATE_AUTH \<rparr>)
      = ?s2\<lparr> ctx_hs := HS_DONE, ctx_state := STATE_AUTH, ctx_events := es, ctx_event_count := n \<rparr>"
    unfolding emit_kx_complete_def using emit_eq by blast
  show ?thesis
    using role len pull e ev
    by (intro exI [of _ es] exI [of _ n]) (simp add: handle_peer_ss_header_def SODCHAN_SS_HEADER_BYTES_def)
qed

text \<open>The client reads the server's header and sends its signed AUTH_DEVICE.\<close>

definition t_auth_of :: "bytes \<Rightarrow> bytes \<Rightarrow> bytes \<Rightarrow> bytes \<Rightarrow> bytes" where
  "t_auth_of t pk user dev = encoded (sodchan_wire_build_t_auth t pk (Some user) (Some dev) (Some 512))"

lemma build_t_auth_of:
  "length user \<le> 128 \<Longrightarrow> length dev \<le> 128 \<Longrightarrow>
     sodchan_wire_build_t_auth t pk (Some user) (Some dev) (Some 512) = Inr (t_auth_of t pk user dev)"
  by (cases "sodchan_wire_build_t_auth t pk (Some user) (Some dev) (Some 512)")
    (auto simp: t_auth_of_def t_auth_Inr sodchan_wire_build_t_auth_def auth_const_defs)

lemma advisory_text_length: "length (advisory_text x n) \<le> n"
  by (simp add: advisory_text_def Let_def)

lemma auth_device_encodes:
  assumes "length user \<le> 128" and "length dev \<le> 128" and "length pk = 32" and "length sig = 64"
  shows "sodchan_wire_auth_device_encode pk sig (Some user) (Some dev) (Some 512)
       = Inr (auth_device_enc (pk, sig, user, dev))"
    and "length (auth_device_enc (pk, sig, user, dev)) = 99 + length user + length dev"
  using assms by (simp_all add: auth_device_enc_def sodchan_wire_auth_device_encode_def auth_const_defs)

text \<open>A PDU of at most 1100 bytes goes through when nothing waits in the output buffer.\<close>

definition roomy :: "'ss sodchan_ctx \<Rightarrow> bool" where
  "roomy ctx \<longleftrightarrow> 1100 \<le> ctx_max_record_size ctx \<and> ctx_max_record_size ctx < 2 ^ 63"

lemma send_now:
  assumes "roomy ctx" and "ctx_ss_push_ready ctx" and "out_pending ctx = []"
    and "0 < length p" and "length p \<le> 1100"
    and "crypto_secretstream_push sod (ctx_ss_push ctx) p TAG_MESSAGE = Some (st, ct)"
  shows "ss_send_pdu sod (Some p) ctx =
    (SODCHAN_OK, ctx\<lparr> ctx_ss_push := st, ctx_out_buf := on_wire ct, ctx_out_off := 0 \<rparr>)"
proof -
  have "ss_fits ctx p"
    using assms(1-5) by (simp add: ss_fits_def roomy_def ss_frame_max_body_eq SODCHAN_SS_ABYTES_def
        SODCHAN_OUT_BUF_SIZE_def SODCHAN_IN_BUF_SIZE_def)
  from ss_send_pdu_fits [OF this assms(6)] show ?thesis
    using assms(3) by (simp add: on_wire_def)
qed

lemma client_reads_header:
  fixes c :: "'ss sodchan_ctx"
  defines "user \<equiv> advisory_text (ctx_client_username c) SODCHAN_USER_MAX"
    and "dev \<equiv> advisory_text (ctx_client_device_id c) SODCHAN_DEVICE_ID_MAX"
  assumes role: "ctx_role c = ROLE_CLIENT" and out: "out_pending c = []" and len: "length hs = 24"
    and pull: "crypto_secretstream_init_pull sod hs (ctx_ss_key_s2c c) = Some rst"
    and keys: "ctx_have_client_id_sk c" "ctx_have_client_id_pk c" "length (ctx_client_id_pk c) = 32"
    and t: "ctx_have_t_hello c" and fresh: "\<not> ctx_auth_sent c"
    and sig: "crypto_sign_detached sod (t_auth_of (ctx_t_hello c) (ctx_client_id_pk c) user dev)
        (ctx_client_id_sk c) = Some sig" "length sig = 64"
    and push: "ctx_ss_push_ready c" "roomy c" "crypto_secretstream_push sod (ctx_ss_push c)
        (auth_device_enc (ctx_client_id_pk c, sig, user, dev)) TAG_MESSAGE = Some (st, ct)"
  shows "\<exists>es n. handle_peer_ss_header sod hs c = (0, c\<lparr> ctx_ss_pull := rst, ctx_ss_pull_ready := True,
     ctx_hs := HS_DONE, ctx_state := STATE_AUTH, ctx_events := es, ctx_event_count := n,
     ctx_ss_push := st, ctx_out_buf := on_wire ct, ctx_out_off := 0, ctx_auth_sent := True \<rparr>)"
proof -
  let ?c1 = "c\<lparr> ctx_ss_pull := rst, ctx_ss_pull_ready := True, ctx_hs := HS_DONE, ctx_state := STATE_AUTH \<rparr>"
  obtain es n where ev: "emit_kx_complete ?c1 = ?c1\<lparr> ctx_events := es, ctx_event_count := n \<rparr>"
    unfolding emit_kx_complete_def using emit_eq by blast
  let ?c2 = "?c1\<lparr> ctx_events := es, ctx_event_count := n \<rparr>"
  have ud: "length user \<le> 128" "length dev \<le> 128"
    using advisory_text_length [of _ 128] by (simp_all add: user_def dev_def auth_const_defs)
  note enc = auth_device_encodes [OF ud keys(3) sig(2)]
  have send: "ss_send_pdu sod (Some (auth_device_enc (ctx_client_id_pk c, sig, user, dev))) ?c2
      = (SODCHAN_OK, ?c2\<lparr> ctx_ss_push := st, ctx_out_buf := on_wire ct, ctx_out_off := 0 \<rparr>)"
    using push out ud enc(2) by (intro send_now) (simp_all add: roomy_def out_pending_def)
  have "client_send_auth_device sod ?c2 = (SODCHAN_OK,
      ?c2\<lparr> ctx_ss_push := st, ctx_out_buf := on_wire ct, ctx_out_off := 0, ctx_auth_sent := True \<rparr>)"
    using role keys t fresh sig(1) enc(1) send build_t_auth_of [OF ud]
    by (simp add: client_send_auth_device_def user_def dev_def)
  then show ?thesis
    using role len pull ev
    by (intro exI [of _ es] exI [of _ n]) (simp add: handle_peer_ss_header_def SODCHAN_SS_HEADER_BYTES_def)
qed

text \<open>A record that decrypts reaches the handler of its type.\<close>

lemma record_dispatch:
  assumes "ctx_ss_pull_ready ctx" and "roomy ctx" and "length ct = length p + 17" and "p = ty # r"
    and "length p \<le> 1100" and "crypto_secretstream_pull sod (ctx_ss_pull ctx) ct = Some (st, p, TAG_MESSAGE)"
    and "ctx_state ctx = STATE_AUTH"
  shows "handle_encrypted_pdu sod ct ctx =
    (let ctx = ctx\<lparr> ctx_ss_pull := st \<rparr> in
     if ty = SODCHAN_PDU_AUTH_DEVICE then handle_auth_device_pdu sod p ctx
     else if ty = SODCHAN_PDU_AUTH_OK then handle_auth_ok_pdu p ctx
     else if ty = SODCHAN_PDU_AUTH_FAIL then handle_auth_fail_pdu p ctx
     else err_ret SODCHAN_ERR_PROTOCOL ''unexpected pdu in AUTH'' ctx)"
  using assms
  by (simp add: handle_encrypted_pdu_def SODCHAN_SS_ABYTES_def SODCHAN_DATA_MAX_def roomy_def Let_def
      TAG_MESSAGE_def TAG_REKEY_def TAG_FINAL_def sodchan_wire_pdu_type_def)

lemma server_checks_device:
  fixes t pk sig user dev :: bytes
  defines "p \<equiv> auth_device_enc (pk, sig, user, dev)"
  assumes role: "ctx_role s = ROLE_SERVER" and st: "ctx_state s = STATE_AUTH" and hsk: "ctx_have_t_hello s"
    and flags: "\<not> ctx_auth_awaiting_decide s" "\<not> ctx_auth_complete s" "\<not> ctx_auth_decided s"
    and len: "length user \<le> 128" "length dev \<le> 128" "length pk = 32" "length sig = 64"
    and sig: "crypto_sign_verify_detached sod sig (t_auth_of (ctx_t_hello s) pk user dev) pk"
    and pull: "ctx_ss_pull_ready s" "roomy s" "length ct = length p + 17"
      "crypto_secretstream_pull sod (ctx_ss_pull s) ct = Some (rst, p, TAG_MESSAGE)"
  shows "\<exists>es n. handle_encrypted_pdu sod ct s = (0, s\<lparr> ctx_ss_pull := rst, ctx_peer_id_pk := pk,
     ctx_have_peer_id := True, ctx_events := es, ctx_event_count := n, ctx_auth_awaiting_decide := True \<rparr>)"
proof -
  have "auth_device_dec p = Inr (pk, sig, user, dev)"
    unfolding p_def using len by (intro auth_device_dec_enc) (simp add: auth_device_ok_def auth_const_defs)
  then obtain ub ul db dl where dec: "sodchan_wire_auth_device_decode (Some p) (SODCHAN_USER_MAX + 1)
      (SODCHAN_DEVICE_ID_MAX + 1) = Inr (pk, sig, ub, ul, db, dl)" "take ul ub = user" "take dl db = dev"
    by (auto simp: auth_device_dec_def map_sum_def split: sum.splits)
  let ?s1 = "s\<lparr> ctx_ss_pull := rst, ctx_peer_id_pk := pk, ctx_have_peer_id := True \<rparr>"
  obtain es n where ev: "emit (EVENT_AUTH_DEVICE pk (snprintf_s (SODCHAN_USER_MAX + 1) ub)
      (snprintf_s (SODCHAN_DEVICE_ID_MAX + 1) db) (cstr (encoded (sodchan_pubkey_fingerprint_sha256 sod pk
      (Some SODCHAN_FP_SHA256_MAX)))) True) ?s1 = ?s1\<lparr> ctx_events := es, ctx_event_count := n \<rparr>"
    using emit_eq by blast
  have h: "handle_auth_device_pdu sod p (s\<lparr> ctx_ss_pull := rst \<rparr>)
      = (0, ?s1\<lparr> ctx_events := es, ctx_event_count := n, ctx_auth_awaiting_decide := True \<rparr>)"
    using role hsk flags dec build_t_auth_of [OF len(1,2)] sig ev
    by (simp add: handle_auth_device_pdu_def Let_def)
  obtain r where p: "p = SODCHAN_PDU_AUTH_DEVICE # r"
    using len by (simp add: p_def auth_device_enc_def sodchan_wire_auth_device_encode_def auth_const_defs)
  have "length p \<le> 1100"
    using auth_device_encodes(2) [OF len] len by (simp add: p_def)
  from record_dispatch [OF pull(1-3) p this pull(4) st] h show ?thesis
    by (intro exI [of _ es] exI [of _ n]) (simp add: Let_def)
qed

lemma server_accepts:
  assumes role: "ctx_role s = ROLE_SERVER" and st: "ctx_state s = STATE_AUTH" and out: "out_pending s = []"
    and flags: "ctx_auth_awaiting_decide s" "\<not> ctx_auth_decided s" and len: "length claims \<le> SODCHAN_CLAIMS_MAX"
    and push: "ctx_ss_push_ready s" "roomy s"
      "crypto_secretstream_push sod (ctx_ss_push s) (auth_ok_enc claims) TAG_MESSAGE = Some (pst, ct)"
  shows "\<exists>es n. sodchan_auth_decide_ex sod True (Some claims) s = (SODCHAN_OK,
     s\<lparr> ctx_auth_awaiting_decide := False, ctx_auth_decided := True, ctx_ss_push := pst,
        ctx_out_buf := on_wire ct, ctx_out_off := 0, ctx_auth_complete := True, ctx_state := STATE_READY,
        ctx_events := es, ctx_event_count := n \<rparr>)"
proof -
  let ?s1 = "s\<lparr> ctx_auth_awaiting_decide := False, ctx_auth_decided := True \<rparr>"
  let ?s2 = "?s1\<lparr> ctx_ss_push := pst, ctx_out_buf := on_wire ct, ctx_out_off := 0 \<rparr>"
  have enc: "sodchan_wire_auth_ok_encode (Some claims) (Some (3 + SODCHAN_CLAIMS_MAX)) = Inr (auth_ok_enc claims)"
    "length (auth_ok_enc claims) = 3 + length claims"
    using len by (simp_all add: auth_ok_enc_def sodchan_wire_auth_ok_encode_def)
  have send: "ss_send_pdu sod (Some (auth_ok_enc claims)) ?s1 = (SODCHAN_OK, ?s2)"
    using push out len enc(2) by (intro send_now) (simp_all add: roomy_def out_pending_def auth_const_defs)
  obtain es n where ev: "emit_authenticated (?s2\<lparr> ctx_auth_complete := True, ctx_state := STATE_READY \<rparr>)
      = ?s2\<lparr> ctx_auth_complete := True, ctx_state := STATE_READY, ctx_events := es, ctx_event_count := n \<rparr>"
    unfolding emit_authenticated_def using emit_eq by blast
  show ?thesis
    using role st flags len send ev enc(1)
    by (intro exI [of _ es] exI [of _ n])
      (simp add: sodchan_auth_decide_ex_def server_send_auth_ok_def Let_def)
qed

lemma client_accepted:
  assumes role: "ctx_role c = ROLE_CLIENT" and st: "ctx_state c = STATE_AUTH"
    and len: "length claims \<le> SODCHAN_CLAIMS_MAX"
    and pull: "ctx_ss_pull_ready c" "roomy c" "length ct = length (auth_ok_enc claims) + 17"
      "crypto_secretstream_pull sod (ctx_ss_pull c) ct = Some (rst, auth_ok_enc claims, TAG_MESSAGE)"
  shows "\<exists>es n. handle_encrypted_pdu sod ct c = (0, c\<lparr> ctx_ss_pull := rst, ctx_auth_complete := True,
     ctx_state := STATE_READY, ctx_events := es, ctx_event_count := n \<rparr>)"
proof -
  let ?c1 = "c\<lparr> ctx_ss_pull := rst, ctx_auth_complete := True, ctx_state := STATE_READY \<rparr>"
  obtain es n where ev: "emit_authenticated ?c1 = ?c1\<lparr> ctx_events := es, ctx_event_count := n \<rparr>"
    unfolding emit_authenticated_def using emit_eq by blast
  obtain r where p: "auth_ok_enc claims = SODCHAN_PDU_AUTH_OK # r" "length (auth_ok_enc claims) \<le> 1100"
    using len by (simp add: auth_ok_enc_def sodchan_wire_auth_ok_encode_def auth_const_defs)
  from record_dispatch [OF pull(1-3) p pull(4) st] role ev auth_ok_dec_enc [OF len] show ?thesis
    by (intro exI [of _ es] exI [of _ n])
      (simp add: Let_def handle_auth_ok_pdu_def SODCHAN_PDU_AUTH_OK_def SODCHAN_PDU_AUTH_DEVICE_def)
qed

section \<open>Creating the two ends\<close>

text \<open>The fields that the first leg reads, for a client and for a server.\<close>

lemma client_created:
  assumes "sodchan_create sod lab m1 m2 z draws 1 (Some cfg) = Some c"
    and kp: "crypto_kx_keypair sod draws = Some (eph, esk)" "length eph = 32"
    and pk: "cfg_client_id_pk cfg = Some cpk" "length cpk = 32"
  obtains d where "c = d\<lparr> ctx_eph_pk := eph, ctx_eph_sk := esk, ctx_draws := draws + 1,
      ctx_out_buf := on_wire (hello_enc (hello_msg ROLE_CLIENT eph cpk (replicate 64 0))), ctx_out_off := 0,
      ctx_state := STATE_HELLO, ctx_hs := HS_WAIT_PEER_HELLO \<rparr>"
    and "ctx_role d = ROLE_CLIENT" and "ctx_in_buf d = []" and "\<not> ctx_auth_sent d"
    and "ctx_client_id_pk d = cpk" and "ctx_have_client_id_pk d"
    and "ctx_client_id_sk d = fst (copy_key (cfg_client_id_sk cfg) 64)"
    and "ctx_have_client_id_sk d = (cfg_client_id_sk cfg \<noteq> None)"
    and "ctx_accept_any_server_pk d = cfg_accept_any_server_pk cfg"
    and "ctx_server_id_pk d = fst (copy_key (cfg_server_id_pk cfg) 32)"
    and "ctx_have_server_id_pk d = (cfg_server_id_pk cfg \<noteq> None)"
    and "ctx_max_record_size d = cfg_default_size (cfg_max_record_size cfg) SODCHAN_DEFAULT_MAX_RECORD"
proof -
  from assms(1) obtain d where hs: "handshake_start sod d = (SODCHAN_OK, c)"
    and d: "d = (let c = apply_config_defaults cfg ((zero_ctx z ROLE_CLIENT)\<lparr> ctx_draws := draws \<rparr>) in
      c\<lparr> ctx_event_cap := ctx_event_queue_size c, ctx_events := replicate (ctx_event_queue_size c) EVENT_NONE \<rparr>)"
    by (rule sodchan_create_Some) simp
  have f: "ctx_role d = ROLE_CLIENT" "ctx_in_buf d = []" "\<not> ctx_auth_sent d" "ctx_client_id_pk d = cpk"
      "ctx_have_client_id_pk d" "ctx_client_id_sk d = fst (copy_key (cfg_client_id_sk cfg) 64)"
      "ctx_have_client_id_sk d = (cfg_client_id_sk cfg \<noteq> None)"
      "ctx_accept_any_server_pk d = cfg_accept_any_server_pk cfg"
      "ctx_server_id_pk d = fst (copy_key (cfg_server_id_pk cfg) 32)"
      "ctx_have_server_id_pk d = (cfg_server_id_pk cfg \<noteq> None)"
      "ctx_max_record_size d = cfg_default_size (cfg_max_record_size cfg) SODCHAN_DEFAULT_MAX_RECORD"
    and g: "ctx_draws d = draws" "out_pending d = []"
    using pk by (simp_all add: d Let_def apply_config_defaults_fields apply_config_defaults_more copy_key_def
        out_pending_def)
  let ?d = "d\<lparr> ctx_eph_pk := eph, ctx_eph_sk := esk, ctx_draws := draws + 1 \<rparr>"
  let ?h = "hello_msg ROLE_CLIENT eph cpk (replicate 64 0)"
  have "out_append_frame (hello_enc ?h) ?d
      = (SODCHAN_OK, ?d\<lparr> ctx_out_buf := on_wire (hello_enc ?h), ctx_out_off := 0 \<rparr>)"
    using g kp pk by (intro out_append_frame_now) (simp_all add: length_hello_enc hello_msg_arrays out_pending_def)
  then have "queue_local_hello sod ?d
      = (SODCHAN_OK, ?d\<lparr> ctx_out_buf := on_wire (hello_enc ?h), ctx_out_off := 0 \<rparr>)"
    using f by (simp add: queue_local_hello_def Let_def hello_encodes hello_msg_def)
  then have "c = ?d\<lparr> ctx_out_buf := on_wire (hello_enc ?h), ctx_out_off := 0, ctx_state := STATE_HELLO,
      ctx_hs := HS_WAIT_PEER_HELLO \<rparr>"
    using hs f g kp by (simp add: handshake_start_def)
  from that [OF this f] show thesis .
qed

lemma server_created:
  assumes "sodchan_create sod lab m1 m2 z draws 0 (Some cfg) = Some s"
    and kp: "crypto_kx_keypair sod draws = Some (eph, esk)"
  obtains d where "s = d\<lparr> ctx_eph_pk := eph, ctx_eph_sk := esk, ctx_draws := draws + 1,
      ctx_state := STATE_HELLO, ctx_hs := HS_WAIT_PEER_HELLO \<rparr>"
    and "ctx_role d = ROLE_SERVER" and "ctx_in_buf d = []" and "out_pending d = []"
    and "\<not> ctx_auth_awaiting_decide d" and "\<not> ctx_auth_decided d" and "\<not> ctx_auth_complete d"
    and "ctx_server_id_pk d = fst (copy_key (cfg_server_id_pk cfg) 32)"
    and "ctx_server_id_sk d = fst (copy_key (cfg_server_id_sk cfg) 64)"
    and "ctx_max_record_size d = cfg_default_size (cfg_max_record_size cfg) SODCHAN_DEFAULT_MAX_RECORD"
proof -
  from assms(1) obtain d where hs: "handshake_start sod d = (SODCHAN_OK, s)"
    and d: "d = (let c = apply_config_defaults cfg ((zero_ctx z ROLE_SERVER)\<lparr> ctx_draws := draws \<rparr>) in
      c\<lparr> ctx_event_cap := ctx_event_queue_size c, ctx_events := replicate (ctx_event_queue_size c) EVENT_NONE \<rparr>)"
    by (rule sodchan_create_Some) simp
  have f: "ctx_role d = ROLE_SERVER" "ctx_in_buf d = []" "out_pending d = []"
      "\<not> ctx_auth_awaiting_decide d" "\<not> ctx_auth_decided d" "\<not> ctx_auth_complete d"
      "ctx_server_id_pk d = fst (copy_key (cfg_server_id_pk cfg) 32)"
      "ctx_server_id_sk d = fst (copy_key (cfg_server_id_sk cfg) 64)"
      "ctx_max_record_size d = cfg_default_size (cfg_max_record_size cfg) SODCHAN_DEFAULT_MAX_RECORD"
    and g: "ctx_draws d = draws"
    by (simp_all add: d Let_def apply_config_defaults_fields apply_config_defaults_more out_pending_def)
  have "s = d\<lparr> ctx_eph_pk := eph, ctx_eph_sk := esk, ctx_draws := draws + 1,
      ctx_state := STATE_HELLO, ctx_hs := HS_WAIT_PEER_HELLO \<rparr>"
    using hs f g kp by (simp add: handshake_start_def)
  from that [OF this f] show thesis .
qed

section \<open>Completing the handshake\<close>

text \<open>
  libsodium initialises, and BLAKE2b with an output of 32 bytes does not fail: a state
  that was set up for 32 bytes takes two pieces of input and gives the digest.
\<close>

definition hash_law :: "('ss, 'gh) sodium \<Rightarrow> bool" where
  "hash_law sod \<longleftrightarrow> sodium_init_ok sod \<and> (\<forall>x y. \<exists>a b c d. crypto_generichash_init sod 32 = Some a
     \<and> crypto_generichash_update sod a x = Some b \<and> crypto_generichash_update sod b y = Some c
     \<and> crypto_generichash_final sod c 32 = Some d)"

lemma hash_law_derive:
  assumes "hash_law sod"
  shows "\<exists>k. sodchan_crypto_ss_key_derive sod x domain = Inr k"
proof -
  from assms obtain a b c d where "crypto_generichash_init sod 32 = Some a"
      "crypto_generichash_update sod a x = Some b" "crypto_generichash_update sod b (cstr domain) = Some c"
      "crypto_generichash_final sod c 32 = Some d" "sodium_init_ok sod"
    unfolding hash_law_def by metis
  then show ?thesis by (simp add: sodchan_crypto_ss_key_derive_def sodchan_crypto_init_def)
qed

lemma sample_hash_law: "hash_law sample_sodium"
  by (simp add: hash_law_def sample_sodium_def)

text \<open>The exchange: the two HELLOs, the two headers, AUTH_DEVICE, the decision, AUTH_OK.\<close>

definition establish ::
    "('ss, 'gh) sodium \<Rightarrow> bytes \<Rightarrow> 'ss sodchan_ctx \<Rightarrow> 'ss sodchan_ctx
       \<Rightarrow> rc \<times> 'ss sodchan_ctx \<times> 'ss sodchan_ctx" where
  "establish sod claims c s =
     (case deliver sod c s of (c, s) \<Rightarrow>
      case deliver sod s c of (s, c) \<Rightarrow>
      case deliver sod c s of (c, s) \<Rightarrow>
      case deliver sod s c of (s, c) \<Rightarrow>
      case deliver sod c s of (c, s) \<Rightarrow>
      case sodchan_auth_decide_ex sod True (Some claims) s of (rc, s) \<Rightarrow>
      case deliver sod s c of (s, c) \<Rightarrow> (rc, c, s))"

text \<open>The two configurations fit each other, and each side holds its keys.\<close>

definition matching :: "sodchan_config \<Rightarrow> sodchan_config \<Rightarrow> bytes \<Rightarrow> bytes \<Rightarrow> bytes \<Rightarrow> bytes \<Rightarrow> bool" where
  "matching ccfg scfg cpk csk spk ssk \<longleftrightarrow>
     length cpk = 32 \<and> length csk = 64 \<and> length spk = 32 \<and> length ssk = 64
     \<and> cfg_client_id_pk ccfg = Some cpk \<and> cfg_client_id_sk ccfg = Some csk
     \<and> (cfg_accept_any_server_pk ccfg \<or> cfg_server_id_pk ccfg = Some spk)
     \<and> cfg_server_id_pk scfg = Some spk \<and> cfg_server_id_sk scfg = Some ssk
     \<and> (\<forall>n \<in> {cfg_max_record_size ccfg, cfg_max_record_size scfg}. n = 0 \<or> 1100 \<le> n \<and> n < 2 ^ 63)"

lemma matching_roomy:
  "matching ccfg scfg cpk csk spk ssk \<Longrightarrow>
     ctx_max_record_size c = cfg_default_size (cfg_max_record_size ccfg) SODCHAN_DEFAULT_MAX_RECORD \<Longrightarrow> roomy c"
  "matching ccfg scfg cpk csk spk ssk \<Longrightarrow>
     ctx_max_record_size s = cfg_default_size (cfg_max_record_size scfg) SODCHAN_DEFAULT_MAX_RECORD \<Longrightarrow> roomy s"
  by (auto simp: matching_def roomy_def cfg_default_size_def SODCHAN_DEFAULT_MAX_RECORD_def)

lemma roomy_cong: "ctx_max_record_size c = ctx_max_record_size d \<Longrightarrow> roomy c = roomy d"
  by (simp add: roomy_def)

lemma roomy_limit: "roomy c \<Longrightarrow> ctx_hs c = HS_DONE \<Longrightarrow> 1117 \<le> unat (body_limit c)"
  by (simp add: roomy_def body_limit_def ss_frame_max_body_eq SODCHAN_SS_ABYTES_def SODCHAN_IN_BUF_SIZE_def)

text \<open>
  After the HELLOs: both sides hold the same keys and transcript, and the client's
  secretstream header waits in its output.
\<close>

definition hellos_done ::
    "('ss, 'gh) sodium \<Rightarrow> ('ss \<Rightarrow> 'ss \<Rightarrow> bool) \<Rightarrow> bytes \<Rightarrow> bytes \<Rightarrow> bytes
       \<Rightarrow> 'ss sodchan_ctx \<Rightarrow> 'ss sodchan_ctx \<Rightarrow> bool" where
  "hellos_done sod paired cpk csk spk c s \<longleftrightarrow>
     ctx_state c = STATE_SS_HEADER \<and> ctx_state s = STATE_SS_HEADER \<and> ctx_hs c = HS_WAIT_PEER_SS
     \<and> ctx_hs s = HS_WAIT_PEER_SS \<and> ctx_role c = ROLE_CLIENT \<and> ctx_role s = ROLE_SERVER
     \<and> ctx_in_buf c = [] \<and> ctx_in_buf s = [] \<and> out_pending s = [] \<and> ctx_out_off c = 0
     \<and> ctx_ss_key_c2s c = ctx_ss_key_c2s s \<and> ctx_ss_key_s2c c = ctx_ss_key_s2c s
     \<and> (\<exists>hc rst. ctx_out_buf c = on_wire hc \<and> length hc = 24 \<and> paired (ctx_ss_push c) rst
          \<and> crypto_secretstream_init_pull sod hc (ctx_ss_key_c2s c) = Some rst)
     \<and> ctx_ss_push_ready c \<and> ctx_t_hello c = ctx_t_hello s \<and> ctx_have_t_hello c \<and> ctx_have_t_hello s
     \<and> ctx_peer_id_pk c = spk \<and> ctx_client_id_pk c = cpk \<and> ctx_client_id_sk c = csk
     \<and> ctx_have_client_id_pk c \<and> ctx_have_client_id_sk c \<and> \<not> ctx_auth_sent c
     \<and> \<not> ctx_auth_awaiting_decide s \<and> \<not> ctx_auth_decided s \<and> \<not> ctx_auth_complete s
     \<and> roomy c \<and> roomy s"

text \<open>Before: two fresh contexts whose configurations fit, then the server's answer is under way.\<close>

definition fresh_pair ::
    "('ss, 'gh) sodium \<Rightarrow> bytes \<Rightarrow> bytes \<Rightarrow> bytes \<Rightarrow> bytes \<Rightarrow> 'ss sodchan_ctx \<Rightarrow> 'ss sodchan_ctx \<Rightarrow> bool" where
  "fresh_pair sod cpk csk spk ssk c s \<longleftrightarrow>
     ctx_state c = STATE_HELLO \<and> ctx_state s = STATE_HELLO \<and> ctx_hs c = HS_WAIT_PEER_HELLO
     \<and> ctx_hs s = HS_WAIT_PEER_HELLO \<and> ctx_role c = ROLE_CLIENT \<and> ctx_role s = ROLE_SERVER
     \<and> ctx_in_buf c = [] \<and> ctx_in_buf s = [] \<and> out_pending s = [] \<and> ctx_out_off c = 0
     \<and> ctx_out_buf c = on_wire (hello_enc (hello_msg ROLE_CLIENT (ctx_eph_pk c) cpk (replicate 64 0)))
     \<and> length (ctx_eph_pk c) = 32 \<and> length (ctx_eph_pk s) = 32
     \<and> length cpk = 32 \<and> length spk = 32
     \<and> (\<exists>rx tx. crypto_kx_client_session_keys sod (ctx_eph_pk c) (ctx_eph_sk c) (ctx_eph_pk s) = Some (rx, tx)
          \<and> crypto_kx_server_session_keys sod (ctx_eph_pk s) (ctx_eph_sk s) (ctx_eph_pk c) = Some (tx, rx))
     \<and> ctx_server_id_pk s = spk \<and> ctx_server_id_sk s = ssk
     \<and> (ctx_accept_any_server_pk c
          \<or> ctx_have_server_id_pk c \<and> sodium_memcmp_eq sod spk (ctx_server_id_pk c))
     \<and> ctx_client_id_pk c = cpk \<and> ctx_client_id_sk c = csk \<and> ctx_have_client_id_pk c
     \<and> ctx_have_client_id_sk c \<and> \<not> ctx_auth_sent c \<and> \<not> ctx_auth_awaiting_decide s
     \<and> \<not> ctx_auth_decided s \<and> \<not> ctx_auth_complete s \<and> roomy c \<and> roomy s"

definition server_answered ::
    "('ss, 'gh) sodium \<Rightarrow> bytes \<Rightarrow> bytes \<Rightarrow> bytes \<Rightarrow> 'ss sodchan_ctx \<Rightarrow> 'ss sodchan_ctx \<Rightarrow> bool" where
  "server_answered sod cpk csk spk c s \<longleftrightarrow>
     ctx_state c = STATE_HELLO \<and> ctx_state s = STATE_SS_HEADER \<and> ctx_hs c = HS_WAIT_PEER_HELLO
     \<and> ctx_hs s = HS_WAIT_PEER_SS \<and> ctx_role c = ROLE_CLIENT \<and> ctx_role s = ROLE_SERVER
     \<and> ctx_in_buf c = [] \<and> ctx_in_buf s = [] \<and> out_pending c = [] \<and> ctx_out_off s = 0
     \<and> (\<exists>sig. ctx_out_buf s = on_wire (hello_enc (hello_msg ROLE_SERVER (ctx_eph_pk s) spk sig))
          \<and> length sig = 64 \<and> crypto_sign_verify_detached sod sig (ctx_t_hello s) spk)
     \<and> ctx_t_hello s = transcript (ctx_eph_pk c) (ctx_eph_pk s) spk \<and> ctx_have_t_hello s
     \<and> length (ctx_eph_pk s) = 32 \<and> length spk = 32
     \<and> (\<exists>rx tx. crypto_kx_client_session_keys sod (ctx_eph_pk c) (ctx_eph_sk c) (ctx_eph_pk s) = Some (rx, tx)
          \<and> sodchan_crypto_ss_key_derive sod tx SODCHAN_DOM_SS_C2S = Inr (ctx_ss_key_c2s s)
          \<and> sodchan_crypto_ss_key_derive sod rx SODCHAN_DOM_SS_S2C = Inr (ctx_ss_key_s2c s))
     \<and> (ctx_accept_any_server_pk c
          \<or> ctx_have_server_id_pk c \<and> sodium_memcmp_eq sod spk (ctx_server_id_pk c))
     \<and> ctx_client_id_pk c = cpk \<and> ctx_client_id_sk c = csk \<and> ctx_have_client_id_pk c
     \<and> ctx_have_client_id_sk c \<and> \<not> ctx_auth_sent c \<and> \<not> ctx_auth_awaiting_decide s
     \<and> \<not> ctx_auth_decided s \<and> \<not> ctx_auth_complete s \<and> roomy c \<and> roomy s"

lemma pair_created:
  assumes law: "kx_law sod" "memory_law sod" and m: "matching ccfg scfg cpk csk spk ssk"
    and c: "sodchan_create sod lab m1 m2 z dc 1 (Some ccfg) = Some c"
    and s: "sodchan_create sod lab' m1' m2' z' ds 0 (Some scfg) = Some s"
  shows "fresh_pair sod cpk csk spk ssk c s"
proof -
  obtain ceph cesk seph sesk rx tx where kp: "crypto_kx_keypair sod dc = Some (ceph, cesk)" "length ceph = 32"
      "crypto_kx_keypair sod ds = Some (seph, sesk)" "length seph = 32"
    and kx: "crypto_kx_client_session_keys sod ceph cesk seph = Some (rx, tx)"
      "crypto_kx_server_session_keys sod seph sesk ceph = Some (tx, rx)"
    using law(1) unfolding kx_law_def by metis
  have len: "length cpk = 32" "length csk = 64" "length spk = 32" "length ssk = 64"
    and cfg: "cfg_client_id_pk ccfg = Some cpk" "cfg_client_id_sk ccfg = Some csk"
      "cfg_accept_any_server_pk ccfg \<or> cfg_server_id_pk ccfg = Some spk"
      "cfg_server_id_pk scfg = Some spk" "cfg_server_id_sk scfg = Some ssk"
    using m by (auto simp: matching_def)
  obtain c0 where c0: "c = c0\<lparr> ctx_eph_pk := ceph, ctx_eph_sk := cesk, ctx_draws := dc + 1,
      ctx_out_buf := on_wire (hello_enc (hello_msg ROLE_CLIENT ceph cpk (replicate 64 0))), ctx_out_off := 0,
      ctx_state := STATE_HELLO, ctx_hs := HS_WAIT_PEER_HELLO \<rparr>"
    and cf: "ctx_role c0 = ROLE_CLIENT" "ctx_in_buf c0 = []" "\<not> ctx_auth_sent c0"
      "ctx_client_id_pk c0 = cpk" "ctx_have_client_id_pk c0"
      "ctx_client_id_sk c0 = fst (copy_key (cfg_client_id_sk ccfg) 64)"
      "ctx_have_client_id_sk c0 = (cfg_client_id_sk ccfg \<noteq> None)"
      "ctx_accept_any_server_pk c0 = cfg_accept_any_server_pk ccfg"
      "ctx_server_id_pk c0 = fst (copy_key (cfg_server_id_pk ccfg) 32)"
      "ctx_have_server_id_pk c0 = (cfg_server_id_pk ccfg \<noteq> None)"
      "ctx_max_record_size c0 = cfg_default_size (cfg_max_record_size ccfg) SODCHAN_DEFAULT_MAX_RECORD"
    by (rule client_created [OF c kp(1,2) cfg(1) len(1)])
  obtain s0 where s0: "s = s0\<lparr> ctx_eph_pk := seph, ctx_eph_sk := sesk, ctx_draws := ds + 1,
      ctx_state := STATE_HELLO, ctx_hs := HS_WAIT_PEER_HELLO \<rparr>"
    and sf: "ctx_role s0 = ROLE_SERVER" "ctx_in_buf s0 = []" "out_pending s0 = []"
      "\<not> ctx_auth_awaiting_decide s0" "\<not> ctx_auth_decided s0" "\<not> ctx_auth_complete s0"
      "ctx_server_id_pk s0 = fst (copy_key (cfg_server_id_pk scfg) 32)"
      "ctx_server_id_sk s0 = fst (copy_key (cfg_server_id_sk scfg) 64)"
      "ctx_max_record_size s0 = cfg_default_size (cfg_max_record_size scfg) SODCHAN_DEFAULT_MAX_RECORD"
    by (rule server_created [OF s kp(3)])
  have "roomy c0" "roomy s0" using matching_roomy [OF m] cf(11) sf(9) by blast+
  moreover have "ctx_accept_any_server_pk c0
      \<or> ctx_have_server_id_pk c0 \<and> sodium_memcmp_eq sod spk (ctx_server_id_pk c0)"
    using cf(8-10) cfg(3) len law(2) by (auto simp: copy_key_def memory_law_def)
  ultimately show ?thesis
    using cf(1-7) sf(1-8) kp kx cfg len
    by (simp add: fresh_pair_def c0 s0 out_pending_def copy_key_def roomy_def)
qed

lemma server_greeted:
  fixes sod :: "('ss, 'gh) sodium"
  assumes law: "sign_law sod spk ssk" "hash_law sod" and fp: "fresh_pair sod cpk csk spk ssk c s"
  obtains c1 s1 where "deliver sod c s = (c1, s1)" and "server_answered sod cpk csk spk c1 s1"
proof -
  obtain rx tx where kx: "crypto_kx_client_session_keys sod (ctx_eph_pk c) (ctx_eph_sk c) (ctx_eph_pk s) = Some (rx, tx)"
      "crypto_kx_server_session_keys sod (ctx_eph_pk s) (ctx_eph_sk s) (ctx_eph_pk c) = Some (tx, rx)"
    using fp by (auto simp: fresh_pair_def)
  obtain k1 k2 where key: "sodchan_crypto_ss_key_derive sod tx SODCHAN_DOM_SS_C2S = Inr k1"
      "sodchan_crypto_ss_key_derive sod rx SODCHAN_DOM_SS_S2C = Inr k2"
    using hash_law_derive [OF law(2)] by metis
  define t where "t = transcript (ctx_eph_pk c) (ctx_eph_pk s) spk"
  obtain sig where sig: "crypto_sign_detached sod t ssk = Some sig" "length sig = 64"
      "crypto_sign_verify_detached sod sig t spk"
    using law(1) unfolding sign_law_def by blast
  define h where "h = hello_msg ROLE_CLIENT (ctx_eph_pk c) cpk (replicate 64 0)"
  have hlen: "length (hello_enc h) = 140"
    using fp by (simp add: fresh_pair_def h_def length_hello_enc hello_msg_arrays)
  let ?s = "s\<lparr> ctx_in_buf := on_wire (hello_enc h) \<rparr>"
  obtain es n p b where leg: "handle_peer_hello sod (hello_enc h) ?s = (0, ?s\<lparr> ctx_peer_eph_pk := ctx_eph_pk c,
     ctx_have_peer_eph := True, ctx_peer_id_pk := p, ctx_have_peer_id := b, ctx_events := es,
     ctx_event_count := n, ctx_t_hello := t, ctx_have_t_hello := True,
     ctx_out_buf := on_wire (hello_enc (hello_msg ROLE_SERVER (ctx_eph_pk s) spk sig)),
     ctx_out_off := 0, ctx_ss_key_c2s := k1, ctx_ss_key_s2c := k2, ctx_state := STATE_SS_HEADER,
     ctx_hs := HS_WAIT_PEER_SS \<rparr>)"
    using server_answers_hello [of ?s h "ctx_eph_pk c" cpk sig t sod tx rx k1 k2] fp kx key sig
    by (auto simp: fresh_pair_def h_def t_def out_pending_def)
  define s1 where "s1 = snd (handle_peer_hello sod (hello_enc h) ?s)\<lparr> ctx_in_buf := [] \<rparr>"
  define c1 where "c1 = c\<lparr> ctx_out_off := 0, ctx_out_buf := [] \<rparr>"
  have d: "deliver sod c s = (c1, s1)"
    unfolding s1_def c1_def
    by (rule deliver_one_frame [of _ "hello_enc h"])
      (use leg fp hlen in \<open>simp_all add: fresh_pair_def h_def [symmetric] body_limit_def frame_ok_def
        SODCHAN_MAX_CLEAR_FRAME_def dispatch_frame_def\<close>)
  have "server_answered sod cpk csk spk c1 s1"
    using fp kx key sig
    by (simp add: server_answered_def fresh_pair_def s1_def c1_def leg out_pending_def roomy_def t_def) blast
  from that [OF d this] show thesis .
qed

lemma client_greeted:
  assumes law: "stream_law sod paired" and sa: "server_answered sod cpk csk spk c s"
  obtains s1 c1 where "deliver sod s c = (s1, c1)" and "hellos_done sod paired cpk csk spk c1 s1"
proof -
  obtain sig where sig: "ctx_out_buf s = on_wire (hello_enc (hello_msg ROLE_SERVER (ctx_eph_pk s) spk sig))"
      "length sig = 64" "crypto_sign_verify_detached sod sig (ctx_t_hello s) spk"
    using sa by (auto simp: server_answered_def)
  obtain rx tx where kx: "crypto_kx_client_session_keys sod (ctx_eph_pk c) (ctx_eph_sk c) (ctx_eph_pk s) = Some (rx, tx)"
      "sodchan_crypto_ss_key_derive sod tx SODCHAN_DOM_SS_C2S = Inr (ctx_ss_key_c2s s)"
      "sodchan_crypto_ss_key_derive sod rx SODCHAN_DOM_SS_S2C = Inr (ctx_ss_key_s2c s)"
    using sa by (auto simp: server_answered_def)
  obtain st hc rst where push: "crypto_secretstream_init_push sod (ctx_draws c) (ctx_ss_key_c2s s) = Some (st, hc)"
      "length hc = 24" "crypto_secretstream_init_pull sod hc (ctx_ss_key_c2s s) = Some rst" "paired st rst"
    using stream_law_init [OF law, of "ctx_draws c" "ctx_ss_key_c2s s"] by (auto simp: SODCHAN_SS_HEADER_BYTES_def)
  define h where "h = hello_msg ROLE_SERVER (ctx_eph_pk s) spk sig"
  have hlen: "length (hello_enc h) = 140"
    using sa sig by (simp add: server_answered_def h_def length_hello_enc hello_msg_arrays)
  let ?c = "c\<lparr> ctx_in_buf := on_wire (hello_enc h) \<rparr>"
  let ?c' = "\<lambda>es n p b. ?c\<lparr> ctx_server_id_pk := p,
     ctx_have_server_id_pk := b, ctx_peer_eph_pk := ctx_eph_pk s, ctx_peer_id_pk := spk, ctx_have_peer_eph := True,
     ctx_have_peer_id := True, ctx_t_hello := ctx_t_hello s, ctx_have_t_hello := True, ctx_events := es,
     ctx_event_count := n, ctx_ss_key_c2s := ctx_ss_key_c2s s, ctx_ss_key_s2c := ctx_ss_key_s2c s,
     ctx_ss_push := st, ctx_ss_push_ready := True, ctx_draws := ctx_draws ?c + 1, ctx_out_buf := on_wire hc,
     ctx_out_off := 0, ctx_state := STATE_SS_HEADER, ctx_hs := HS_WAIT_PEER_SS \<rparr>"
  have "\<exists>es n p b. handle_peer_hello sod (hello_enc h) ?c = (0, ?c' es n p b)"
    by (rule client_accepts_hello) (use sa kx sig push in \<open>simp_all add: server_answered_def h_def out_pending_def\<close>)
  then obtain es n p b where leg: "handle_peer_hello sod (hello_enc h) ?c = (0, ?c' es n p b)" by blast
  define s1 where "s1 = s\<lparr> ctx_out_off := 0, ctx_out_buf := [] \<rparr>"
  define c1 where "c1 = snd (handle_peer_hello sod (hello_enc h) ?c)\<lparr> ctx_in_buf := [] \<rparr>"
  have d: "deliver sod s c = (s1, c1)"
    unfolding s1_def c1_def
    by (rule deliver_one_frame [of _ "hello_enc h"])
      (use leg sa sig(1) hlen in \<open>simp_all add: server_answered_def h_def [symmetric] body_limit_def frame_ok_def
        SODCHAN_MAX_CLEAR_FRAME_def dispatch_frame_def\<close>)
  have "hellos_done sod paired cpk csk spk c1 s1"
    using sa push
    by (simp add: hellos_done_def server_answered_def s1_def c1_def leg out_pending_def roomy_def) blast
  from that [OF d this] show thesis .
qed

lemma hellos_exchanged:
  assumes "sign_law sod spk ssk" "kx_law sod" "hash_law sod" "stream_law sod paired" "memory_law sod"
    and "matching ccfg scfg cpk csk spk ssk"
    and "sodchan_create sod lab m1 m2 z dc 1 (Some ccfg) = Some c"
    and "sodchan_create sod lab' m1' m2' z' ds 0 (Some scfg) = Some s"
  obtains c1 s1 c2 s2 where "deliver sod c s = (c1, s1)" and "deliver sod s1 c1 = (s2, c2)"
    and "hellos_done sod paired cpk csk spk c2 s2"
proof -
  obtain c1 s1 where 1: "deliver sod c s = (c1, s1)" "server_answered sod cpk csk spk c1 s1"
    by (rule server_greeted [OF assms(1,3) pair_created [OF assms(2,5-8)]])
  obtain s2 c2 where 2: "deliver sod s1 c1 = (s2, c2)" "hellos_done sod paired cpk csk spk c2 s2"
    by (rule client_greeted [OF assms(4) 1(2)])
  show thesis by (rule that [OF 1(1) 2])
qed

text \<open>After the headers and AUTH_DEVICE: the server waits for the host's decision.\<close>

definition device_known ::
    "('ss \<Rightarrow> 'ss \<Rightarrow> bool) \<Rightarrow> bytes \<Rightarrow> bytes \<Rightarrow> 'ss sodchan_ctx \<Rightarrow> 'ss sodchan_ctx \<Rightarrow> bool" where
  "device_known paired cpk spk c s \<longleftrightarrow>
     ctx_state c = STATE_AUTH \<and> ctx_state s = STATE_AUTH \<and> ctx_hs c = HS_DONE \<and> ctx_hs s = HS_DONE
     \<and> ctx_role c = ROLE_CLIENT \<and> ctx_role s = ROLE_SERVER \<and> ctx_in_buf c = [] \<and> ctx_in_buf s = []
     \<and> out_pending c = [] \<and> out_pending s = []
     \<and> ctx_ss_key_c2s c = ctx_ss_key_c2s s \<and> ctx_ss_key_s2c c = ctx_ss_key_s2c s
     \<and> ctx_ss_push_ready c \<and> ctx_ss_push_ready s \<and> ctx_ss_pull_ready c \<and> ctx_ss_pull_ready s
     \<and> paired (ctx_ss_push c) (ctx_ss_pull s) \<and> paired (ctx_ss_push s) (ctx_ss_pull c)
     \<and> ctx_t_hello c = ctx_t_hello s \<and> ctx_peer_id_pk c = spk \<and> ctx_peer_id_pk s = cpk
     \<and> ctx_auth_awaiting_decide s \<and> \<not> ctx_auth_decided s \<and> roomy c \<and> roomy s"

text \<open>In between: the server's header is under way, then AUTH_DEVICE is.\<close>

definition server_headed ::
    "('ss, 'gh) sodium \<Rightarrow> ('ss \<Rightarrow> 'ss \<Rightarrow> bool) \<Rightarrow> bytes \<Rightarrow> bytes \<Rightarrow> bytes
       \<Rightarrow> 'ss sodchan_ctx \<Rightarrow> 'ss sodchan_ctx \<Rightarrow> bool" where
  "server_headed sod paired cpk csk spk c s \<longleftrightarrow>
     ctx_state c = STATE_SS_HEADER \<and> ctx_state s = STATE_AUTH \<and> ctx_hs c = HS_WAIT_PEER_SS \<and> ctx_hs s = HS_DONE
     \<and> ctx_role c = ROLE_CLIENT \<and> ctx_role s = ROLE_SERVER \<and> ctx_in_buf c = [] \<and> ctx_in_buf s = []
     \<and> out_pending c = [] \<and> ctx_out_off s = 0
     \<and> ctx_ss_key_c2s c = ctx_ss_key_c2s s \<and> ctx_ss_key_s2c c = ctx_ss_key_s2c s
     \<and> ctx_ss_push_ready c \<and> ctx_ss_push_ready s \<and> ctx_ss_pull_ready s \<and> paired (ctx_ss_push c) (ctx_ss_pull s)
     \<and> (\<exists>h rst. ctx_out_buf s = on_wire h \<and> length h = 24 \<and> paired (ctx_ss_push s) rst
          \<and> crypto_secretstream_init_pull sod h (ctx_ss_key_s2c c) = Some rst)
     \<and> ctx_t_hello c = ctx_t_hello s \<and> ctx_have_t_hello c \<and> ctx_have_t_hello s \<and> ctx_peer_id_pk c = spk
     \<and> ctx_client_id_pk c = cpk \<and> ctx_client_id_sk c = csk \<and> ctx_have_client_id_pk c
     \<and> ctx_have_client_id_sk c \<and> \<not> ctx_auth_sent c \<and> \<not> ctx_auth_awaiting_decide s
     \<and> \<not> ctx_auth_decided s \<and> \<not> ctx_auth_complete s \<and> roomy c \<and> roomy s"

definition device_sent ::
    "('ss, 'gh) sodium \<Rightarrow> ('ss \<Rightarrow> 'ss \<Rightarrow> bool) \<Rightarrow> bytes \<Rightarrow> bytes \<Rightarrow> 'ss sodchan_ctx \<Rightarrow> 'ss sodchan_ctx \<Rightarrow> bool" where
  "device_sent sod paired cpk spk c s \<longleftrightarrow>
     ctx_state c = STATE_AUTH \<and> ctx_state s = STATE_AUTH \<and> ctx_hs c = HS_DONE \<and> ctx_hs s = HS_DONE
     \<and> ctx_role c = ROLE_CLIENT \<and> ctx_role s = ROLE_SERVER \<and> ctx_in_buf c = [] \<and> ctx_in_buf s = []
     \<and> ctx_out_off c = 0 \<and> out_pending s = []
     \<and> ctx_ss_key_c2s c = ctx_ss_key_c2s s \<and> ctx_ss_key_s2c c = ctx_ss_key_s2c s
     \<and> ctx_ss_push_ready c \<and> ctx_ss_push_ready s \<and> ctx_ss_pull_ready c \<and> ctx_ss_pull_ready s
     \<and> paired (ctx_ss_push s) (ctx_ss_pull c)
     \<and> (\<exists>user dev sig ct rst. let pdu = auth_device_enc (cpk, sig, user, dev) in
          length user \<le> 128 \<and> length dev \<le> 128 \<and> length sig = 64
          \<and> crypto_sign_verify_detached sod sig (t_auth_of (ctx_t_hello c) cpk user dev) cpk
          \<and> ctx_out_buf c = on_wire ct \<and> length ct = length pdu + 17 \<and> paired (ctx_ss_push c) rst
          \<and> crypto_secretstream_pull sod (ctx_ss_pull s) ct = Some (rst, pdu, TAG_MESSAGE))
     \<and> ctx_t_hello c = ctx_t_hello s \<and> ctx_have_t_hello s \<and> ctx_peer_id_pk c = spk
     \<and> \<not> ctx_auth_awaiting_decide s \<and> \<not> ctx_auth_decided s \<and> \<not> ctx_auth_complete s \<and> roomy c \<and> roomy s"

lemma headers_crossed:
  assumes law: "stream_law sod paired" and hd: "hellos_done sod paired cpk csk spk c s"
  obtains c1 s1 where "deliver sod c s = (c1, s1)" and "server_headed sod paired cpk csk spk c1 s1"
proof -
  obtain hc rst where hc: "ctx_out_buf c = on_wire hc" "length hc = 24" "paired (ctx_ss_push c) rst"
      "crypto_secretstream_init_pull sod hc (ctx_ss_key_c2s s) = Some rst"
    using hd by (auto simp: hellos_done_def)
  obtain sst hs srst where hs: "crypto_secretstream_init_push sod (ctx_draws s) (ctx_ss_key_s2c s) = Some (sst, hs)"
      "length hs = 24" "crypto_secretstream_init_pull sod hs (ctx_ss_key_s2c s) = Some srst" "paired sst srst"
    using stream_law_init [OF law, of "ctx_draws s" "ctx_ss_key_s2c s"] by (auto simp: SODCHAN_SS_HEADER_BYTES_def)
  let ?s = "s\<lparr> ctx_in_buf := on_wire hc \<rparr>"
  have "\<exists>es n. handle_peer_ss_header sod hc ?s = (0, ?s\<lparr> ctx_ss_pull := rst, ctx_ss_pull_ready := True,
     ctx_ss_push := sst, ctx_ss_push_ready := True, ctx_draws := ctx_draws ?s + 1, ctx_out_buf := on_wire hs,
     ctx_out_off := 0, ctx_hs := HS_DONE, ctx_state := STATE_AUTH, ctx_events := es, ctx_event_count := n \<rparr>)"
    by (rule server_reads_header) (use hd hc hs in \<open>simp_all add: hellos_done_def out_pending_def\<close>)
  then obtain es n where leg: "handle_peer_ss_header sod hc ?s = (0, ?s\<lparr> ctx_ss_pull := rst,
     ctx_ss_pull_ready := True, ctx_ss_push := sst, ctx_ss_push_ready := True, ctx_draws := ctx_draws ?s + 1,
     ctx_out_buf := on_wire hs, ctx_out_off := 0, ctx_hs := HS_DONE, ctx_state := STATE_AUTH,
     ctx_events := es, ctx_event_count := n \<rparr>)" by blast
  define s1 where "s1 = snd (handle_peer_ss_header sod hc ?s)\<lparr> ctx_in_buf := [] \<rparr>"
  define c1 where "c1 = c\<lparr> ctx_out_off := 0, ctx_out_buf := [] \<rparr>"
  have d: "deliver sod c s = (c1, s1)"
    unfolding s1_def c1_def
    by (rule deliver_one_frame [of _ hc])
      (use leg hd hc in \<open>simp_all add: hellos_done_def body_limit_def frame_ok_def SODCHAN_MAX_CLEAR_FRAME_def
        dispatch_frame_def\<close>)
  have "server_headed sod paired cpk csk spk c1 s1"
    using hd hc hs by (simp add: server_headed_def hellos_done_def s1_def c1_def leg out_pending_def roomy_def) blast
  from that [OF d this] show thesis .
qed

lemma device_signed:
  assumes law: "sign_law sod cpk csk" "stream_law sod paired" and len: "length cpk = 32"
    and sh: "server_headed sod paired cpk csk spk c s"
  obtains s1 c1 where "deliver sod s c = (s1, c1)" and "device_sent sod paired cpk spk c1 s1"
proof -
  obtain hs rst where hs: "ctx_out_buf s = on_wire hs" "length hs = 24" "paired (ctx_ss_push s) rst"
      "crypto_secretstream_init_pull sod hs (ctx_ss_key_s2c c) = Some rst"
    using sh by (auto simp: server_headed_def)
  define user where "user = advisory_text (ctx_client_username c) SODCHAN_USER_MAX"
  define dev where "dev = advisory_text (ctx_client_device_id c) SODCHAN_DEVICE_ID_MAX"
  have ud: "length user \<le> 128" "length dev \<le> 128"
    using advisory_text_length [of _ 128] by (simp_all add: user_def dev_def auth_const_defs)
  obtain sig where sig: "crypto_sign_detached sod (t_auth_of (ctx_t_hello c) cpk user dev) csk = Some sig"
      "length sig = 64" "crypto_sign_verify_detached sod sig (t_auth_of (ctx_t_hello c) cpk user dev) cpk"
    using law(1) unfolding sign_law_def by blast
  define pdu where "pdu = auth_device_enc (cpk, sig, user, dev)"
  have "paired (ctx_ss_push c) (ctx_ss_pull s)" using sh by (simp add: server_headed_def)
  moreover have "length pdu < 2 ^ 32"
    using auth_device_encodes(2) [OF ud len sig(2)] ud by (simp add: pdu_def)
  ultimately obtain st ct srst where ct: "crypto_secretstream_push sod (ctx_ss_push c) pdu TAG_MESSAGE = Some (st, ct)"
      "length ct = length pdu + 17" "crypto_secretstream_pull sod (ctx_ss_pull s) ct = Some (srst, pdu, TAG_MESSAGE)"
      "paired st srst"
    by (rule stream_law_send [OF law(2), where t = TAG_MESSAGE, unfolded SODCHAN_SS_ABYTES_def]) blast
  let ?c = "c\<lparr> ctx_in_buf := on_wire hs \<rparr>"
  have "\<exists>es n. handle_peer_ss_header sod hs ?c = (0, ?c\<lparr> ctx_ss_pull := rst, ctx_ss_pull_ready := True,
     ctx_hs := HS_DONE, ctx_state := STATE_AUTH, ctx_events := es, ctx_event_count := n,
     ctx_ss_push := st, ctx_out_buf := on_wire ct, ctx_out_off := 0, ctx_auth_sent := True \<rparr>)"
    by (rule client_reads_header)
      (use sh hs len sig ct in \<open>simp_all add: server_headed_def out_pending_def roomy_def user_def dev_def pdu_def\<close>)
  then obtain es n where leg: "handle_peer_ss_header sod hs ?c = (0, ?c\<lparr> ctx_ss_pull := rst,
     ctx_ss_pull_ready := True, ctx_hs := HS_DONE, ctx_state := STATE_AUTH, ctx_events := es,
     ctx_event_count := n, ctx_ss_push := st, ctx_out_buf := on_wire ct, ctx_out_off := 0,
     ctx_auth_sent := True \<rparr>)" by blast
  define s1 where "s1 = s\<lparr> ctx_out_off := 0, ctx_out_buf := [] \<rparr>"
  define c1 where "c1 = snd (handle_peer_ss_header sod hs ?c)\<lparr> ctx_in_buf := [] \<rparr>"
  have d: "deliver sod s c = (s1, c1)"
    unfolding s1_def c1_def
    by (rule deliver_one_frame [of _ hs])
      (use leg sh hs in \<open>simp_all add: server_headed_def body_limit_def frame_ok_def SODCHAN_MAX_CLEAR_FRAME_def
        dispatch_frame_def\<close>)
  have "device_sent sod paired cpk spk c1 s1"
    unfolding device_sent_def Let_def
    using sh hs sig ct ud
    by (simp add: server_headed_def s1_def c1_def leg out_pending_def roomy_def pdu_def) blast
  from that [OF d this] show thesis .
qed

lemma device_checked:
  assumes len: "length cpk = 32" and ds: "device_sent sod paired cpk spk c s"
  obtains c1 s1 where "deliver sod c s = (c1, s1)" and "device_known paired cpk spk c1 s1"
proof -
  obtain user dev sig ct rst pdu where pdu: "pdu = auth_device_enc (cpk, sig, user, dev)"
    and ud: "length user \<le> 128" "length dev \<le> 128" "length sig = 64"
    and sig: "crypto_sign_verify_detached sod sig (t_auth_of (ctx_t_hello s) cpk user dev) cpk"
    and ct: "ctx_out_buf c = on_wire ct" "length ct = length pdu + 17" "paired (ctx_ss_push c) rst"
      "crypto_secretstream_pull sod (ctx_ss_pull s) ct = Some (rst, pdu, TAG_MESSAGE)"
    using ds by (auto simp: device_sent_def Let_def)
  let ?s = "s\<lparr> ctx_in_buf := on_wire ct \<rparr>"
  have "\<exists>es n. handle_encrypted_pdu sod ct ?s = (0, ?s\<lparr> ctx_ss_pull := rst, ctx_peer_id_pk := cpk,
     ctx_have_peer_id := True, ctx_events := es, ctx_event_count := n, ctx_auth_awaiting_decide := True \<rparr>)"
    by (rule server_checks_device)
      (use ds sig ct len ud in \<open>simp_all add: device_sent_def roomy_def pdu\<close>)
  then obtain es n where leg: "handle_encrypted_pdu sod ct ?s = (0, ?s\<lparr> ctx_ss_pull := rst,
     ctx_peer_id_pk := cpk, ctx_have_peer_id := True, ctx_events := es, ctx_event_count := n,
     ctx_auth_awaiting_decide := True \<rparr>)" by blast
  define c1 where "c1 = c\<lparr> ctx_out_off := 0, ctx_out_buf := [] \<rparr>"
  define s1 where "s1 = snd (handle_encrypted_pdu sod ct ?s)\<lparr> ctx_in_buf := [] \<rparr>"
  have "length pdu \<le> 1100" using auth_device_encodes(2) [OF ud(1,2) len ud(3)] ud by (simp add: pdu)
  moreover have "roomy s" "ctx_hs s = HS_DONE" using ds by (simp_all add: device_sent_def)
  ultimately have fok: "frame_ok (body_limit s) ct"
    using roomy_limit [of s] ct(2) by (simp add: frame_ok_def)
  have d: "deliver sod c s = (c1, s1)"
    unfolding c1_def s1_def
    by (rule deliver_one_frame [OF _ _ _ _ _ fok])
      (use leg ds ct(1) in \<open>simp_all add: device_sent_def dispatch_frame_def\<close>)
  have "device_known paired cpk spk c1 s1"
    using ds ct(3) by (simp add: device_known_def device_sent_def c1_def s1_def leg out_pending_def roomy_def)
  from that [OF d this] show thesis .
qed

lemma device_announced:
  assumes "sign_law sod cpk csk" and "stream_law sod paired" and "length cpk = 32"
    and "hellos_done sod paired cpk csk spk c s"
  obtains c1 s1 c2 s2 c3 s3 where "deliver sod c s = (c1, s1)" and "deliver sod s1 c1 = (s2, c2)"
    and "deliver sod c2 s2 = (c3, s3)" and "device_known paired cpk spk c3 s3"
proof -
  obtain c1 s1 where 1: "deliver sod c s = (c1, s1)" "server_headed sod paired cpk csk spk c1 s1"
    by (rule headers_crossed [OF assms(2,4)])
  obtain s2 c2 where 2: "deliver sod s1 c1 = (s2, c2)" "device_sent sod paired cpk spk c2 s2"
    by (rule device_signed [OF assms(1-3) 1(2)])
  obtain c3 s3 where 3: "deliver sod c2 s2 = (c3, s3)" "device_known paired cpk spk c3 s3"
    by (rule device_checked [OF assms(3) 2(2)])
  show thesis by (rule that [OF 1(1) 2(1) 3])
qed

text \<open>After AUTH_OK: an authenticated session.\<close>

definition session_up ::
    "('ss \<Rightarrow> 'ss \<Rightarrow> bool) \<Rightarrow> bytes \<Rightarrow> bytes \<Rightarrow> 'ss sodchan_ctx \<Rightarrow> 'ss sodchan_ctx \<Rightarrow> bool" where
  "session_up paired cpk spk c s \<longleftrightarrow>
     ctx_state c = STATE_READY \<and> ctx_state s = STATE_READY
     \<and> ctx_auth_complete c \<and> ctx_auth_complete s \<and> ctx_auth_decided s
     \<and> ctx_role c = ROLE_CLIENT \<and> ctx_role s = ROLE_SERVER
     \<and> ctx_peer_id_pk c = spk \<and> ctx_peer_id_pk s = cpk \<and> ctx_t_hello c = ctx_t_hello s
     \<and> ctx_ss_key_c2s c = ctx_ss_key_c2s s \<and> ctx_ss_key_s2c c = ctx_ss_key_s2c s
     \<and> paired (ctx_ss_push c) (ctx_ss_pull s) \<and> paired (ctx_ss_push s) (ctx_ss_pull c)
     \<and> out_pending c = [] \<and> out_pending s = [] \<and> ctx_in_buf c = [] \<and> ctx_in_buf s = []"

lemma decision_taken:
  assumes law: "stream_law sod paired" and len: "length claims \<le> SODCHAN_CLAIMS_MAX"
    and dk: "device_known paired cpk spk c s"
  obtains s1 s2 c2 where "sodchan_auth_decide_ex sod True (Some claims) s = (SODCHAN_OK, s1)"
    and "deliver sod s1 c = (s2, c2)" and "session_up paired cpk spk c2 s2"
proof -
  have f: "ctx_state c = STATE_AUTH" "ctx_state s = STATE_AUTH" "ctx_hs c = HS_DONE" "ctx_hs s = HS_DONE"
      "ctx_role c = ROLE_CLIENT" "ctx_role s = ROLE_SERVER" "ctx_in_buf c = []" "ctx_in_buf s = []"
      "out_pending c = []" "out_pending s = []" "ctx_ss_key_c2s c = ctx_ss_key_c2s s"
      "ctx_ss_key_s2c c = ctx_ss_key_s2c s" "ctx_ss_push_ready c" "ctx_ss_push_ready s"
      "ctx_ss_pull_ready c" "ctx_ss_pull_ready s" "paired (ctx_ss_push c) (ctx_ss_pull s)"
      "paired (ctx_ss_push s) (ctx_ss_pull c)" "ctx_t_hello c = ctx_t_hello s" "ctx_peer_id_pk c = spk"
      "ctx_peer_id_pk s = cpk" "ctx_auth_awaiting_decide s" "\<not> ctx_auth_decided s" "roomy c" "roomy s"
    using dk unfolding device_known_def by simp_all
  obtain pst ct rst where ct: "crypto_secretstream_push sod (ctx_ss_push s) (auth_ok_enc claims) TAG_MESSAGE
        = Some (pst, ct)" "length ct = length (auth_ok_enc claims) + 17"
      "crypto_secretstream_pull sod (ctx_ss_pull c) ct = Some (rst, auth_ok_enc claims, TAG_MESSAGE)"
      "paired pst rst"
    by (rule stream_law_send [OF law f(18), of "auth_ok_enc claims" TAG_MESSAGE])
      (use len in \<open>simp_all add: SODCHAN_SS_ABYTES_def auth_ok_enc_def sodchan_wire_auth_ok_encode_def auth_const_defs\<close>)
  obtain es n where dec: "sodchan_auth_decide_ex sod True (Some claims) s = (SODCHAN_OK,
     s\<lparr> ctx_auth_awaiting_decide := False, ctx_auth_decided := True, ctx_ss_push := pst,
        ctx_out_buf := on_wire ct, ctx_out_off := 0, ctx_auth_complete := True, ctx_state := STATE_READY,
        ctx_events := es, ctx_event_count := n \<rparr>)"
    using server_accepts [OF f(6,2,10,22,23) len f(14,25) ct(1)] by blast
  let ?c = "c\<lparr> ctx_in_buf := on_wire ct \<rparr>"
  have "\<exists>es n. handle_encrypted_pdu sod ct ?c = (0, ?c\<lparr> ctx_ss_pull := rst, ctx_auth_complete := True,
     ctx_state := STATE_READY, ctx_events := es, ctx_event_count := n \<rparr>)"
    by (rule client_accepted) (use f len ct in \<open>simp_all add: roomy_def\<close>)
  then obtain es' n' where rd: "handle_encrypted_pdu sod ct ?c = (0, ?c\<lparr> ctx_ss_pull := rst,
     ctx_auth_complete := True, ctx_state := STATE_READY, ctx_events := es', ctx_event_count := n' \<rparr>)" by blast
  have "length (auth_ok_enc claims) = 3 + length claims"
    using len by (simp add: auth_ok_enc_def sodchan_wire_auth_ok_encode_def)
  then have fok: "frame_ok (body_limit c) ct"
    using roomy_limit [OF f(24,3)] ct(2) len by (simp add: frame_ok_def auth_const_defs)
  let ?s = "s\<lparr> ctx_auth_awaiting_decide := False, ctx_auth_decided := True, ctx_ss_push := pst,
      ctx_out_buf := on_wire ct, ctx_out_off := 0, ctx_auth_complete := True, ctx_state := STATE_READY,
      ctx_events := es, ctx_event_count := n \<rparr>"
  define s2 where "s2 = ?s\<lparr> ctx_out_off := 0, ctx_out_buf := [] \<rparr>"
  define c2 where "c2 = snd (handle_encrypted_pdu sod ct ?c)\<lparr> ctx_in_buf := [] \<rparr>"
  have d: "deliver sod ?s c = (s2, c2)"
    unfolding s2_def c2_def
    by (rule deliver_one_frame [OF _ _ _ _ _ fok]) (use rd f in \<open>simp_all add: dispatch_frame_def\<close>)
  have "session_up paired cpk spk c2 s2"
    using f ct rd by (simp add: session_up_def c2_def s2_def out_pending_def)
  from that [OF dec d this] show thesis .
qed

lemma session_establishes:
  assumes "sign_law sod spk ssk" "sign_law sod cpk csk" "kx_law sod" "hash_law sod"
    and "stream_law sod paired" "memory_law sod"
    and "matching ccfg scfg cpk csk spk ssk" and "length claims \<le> SODCHAN_CLAIMS_MAX"
    and "sodchan_create sod lab m1 m2 z dc 1 (Some ccfg) = Some c"
    and "sodchan_create sod lab' m1' m2' z' ds 0 (Some scfg) = Some s"
  shows "\<exists>c' s'. establish sod claims c s = (SODCHAN_OK, c', s') \<and> session_up paired cpk spk c' s'"
proof -
  obtain c1 s1 c2 s2 where h: "deliver sod c s = (c1, s1)" "deliver sod s1 c1 = (s2, c2)"
      "hellos_done sod paired cpk csk spk c2 s2"
    by (rule hellos_exchanged [OF assms(1,3-7,9,10)])
  have len: "length cpk = 32" using assms(7) by (simp add: matching_def)
  obtain c3 s3 c4 s4 c5 s5 where a: "deliver sod c2 s2 = (c3, s3)" "deliver sod s3 c3 = (s4, c4)"
      "deliver sod c4 s4 = (c5, s5)" "device_known paired cpk spk c5 s5"
    by (rule device_announced [OF assms(2,5) len h(3)])
  obtain s6 s7 c7 where d: "sodchan_auth_decide_ex sod True (Some claims) s5 = (SODCHAN_OK, s6)"
      "deliver sod s6 c5 = (s7, c7)" "session_up paired cpk spk c7 s7"
    by (rule decision_taken [OF assms(5,8) a(4)])
  show ?thesis
    using d(3) by (simp add: establish_def h a d)
qed

text \<open>A pair of configurations for the witnesses.\<close>

definition sample_client :: sodchan_config where
  "sample_client = zero_config\<lparr> cfg_client_id_pk := Some (replicate 32 3),
     cfg_client_id_sk := Some (replicate 64 3), cfg_server_id_pk := Some (replicate 32 2) \<rparr>"

definition sample_server :: sodchan_config where
  "sample_server = zero_config\<lparr> cfg_server_id_pk := Some (replicate 32 2),
     cfg_server_id_sk := Some (replicate 64 2) \<rparr>"

lemma sample_client_created:
  "\<exists>c. sodchan_create sample_sodium False True True ([] :: bytes) 5 1 (Some sample_client) = Some c"
  by (rule create_succeeds [OF _ sample_kx_keypair_law])
    (simp_all add: create_allowed_def sample_client_def zero_config_def sample_sodium_def config_ok_def)

lemma sample_server_created:
  "\<exists>s. sodchan_create sample_sodium False True True ([] :: bytes) 7 0 (Some sample_server) = Some s"
  by (rule create_succeeds [OF _ sample_kx_keypair_law])
    (simp_all add: create_allowed_def sample_server_def zero_config_def sample_sodium_def config_ok_def)

lemma sample_matching:
  "matching sample_client sample_server (replicate 32 3) (replicate 64 3) (replicate 32 2) (replicate 64 2)"
  by (simp add: matching_def sample_client_def sample_server_def zero_config_def)

section \<open>Properties\<close>

text \<open>
  C2. The handshake completes. A client and a server created with configurations
  that fit, over a libsodium that satisfies its documented laws, reach READY when
  each one's output is fed to the other and the host accepts: both sides then hold
  the same transcript and the same two keys, each knows the other's identity key,
  and each send stream is in step with the peer's receive stream.
\<close>

theorem session_established:
  assumes "sign_law sod spk ssk" "sign_law sod cpk csk" "kx_law sod" "hash_law sod"
    and "stream_law sod paired" "memory_law sod"
    and "matching ccfg scfg cpk csk spk ssk" and "length claims \<le> SODCHAN_CLAIMS_MAX"
    and "sodchan_create sod lab m1 m2 z dc 1 (Some ccfg) = Some c"
    and "sodchan_create sod lab' m1' m2' z' ds 0 (Some scfg) = Some s"
  shows "\<exists>c' s'. establish sod claims c s = (SODCHAN_OK, c', s') \<and> session_up paired cpk spk c' s'"
  by (rule session_establishes [OF assms])

theorem session_established_witness:
  "\<exists>c s c' s'. sodchan_create sample_sodium False True True ([] :: bytes) 5 1 (Some sample_client) = Some c
     \<and> sodchan_create sample_sodium False True True ([] :: bytes) 7 0 (Some sample_server) = Some s
     \<and> establish sample_sodium [9] c s = (SODCHAN_OK, c', s') \<and> ctx_state c' = STATE_READY
     \<and> ctx_state s' = STATE_READY"
proof -
  obtain c where c: "sodchan_create sample_sodium False True True ([] :: bytes) 5 1 (Some sample_client) = Some c"
    using sample_client_created by blast
  obtain s where s: "sodchan_create sample_sodium False True True ([] :: bytes) 7 0 (Some sample_server) = Some s"
    using sample_server_created by blast
  have "\<exists>c' s'. establish sample_sodium [9] c s = (SODCHAN_OK, c', s')
      \<and> session_up (=) (replicate 32 3) (replicate 32 2) c' s'"
    by (rule session_established [OF _ _ sample_kx_law sample_hash_law sample_stream_law sample_memory_law
          sample_matching _ c s]) (simp_all add: sample_sign_law auth_const_defs)
  with c s show ?thesis unfolding session_up_def by blast
qed

end
