(* ===== verification/Security.thy ===== *)
theory Security
  imports Establish
begin

text \<open>
  What holds in every context that a program can reach: the invariant, the
  authentication of the server by the client, the authorisation of the client by
  the server's host, and the finality of the dead states.
\<close>

section \<open>The invariant of reachable contexts\<close>

lemma exec_inv:
  assumes "push_len_law sod" and "kx_keypair_law sod" and "ctx_inv sod ctx"
  shows "ctx_inv sod (exec sod call ctx)"
  using assms
  by (cases call)
    (simp_all add: feed_input_inv get_output_inv next_event_inv auth_decide_inv disconnect_inv reset_inv
      ctx_inv_api [OF channel_open_step] ctx_inv_api [OF channel_accept_step] ctx_inv_api [OF channel_send_step]
      ctx_inv_api [OF channel_eof_step] ctx_inv_api [OF channel_close_step]
      ctx_inv_api [OF channel_window_adjust_step])

lemma reachable_inv:
  assumes "reachable sod cfg ctx" and "config_ok cfg" and "push_len_law sod" and "kx_keypair_law sod"
  shows "ctx_inv sod ctx"
  using assms(1)
proof induction
  case (created lab m1 m2 z draws role ctx)
  then show ?case by (rule create_inv [OF _ assms(2,3)])
next
  case (called ctx call)
  then show ?case by (intro exec_inv assms(3,4))
qed

lemma deliver_reachable:
  assumes "deliver sod a b = (a', b')" and "reachable sod x a" and "reachable sod y b"
  shows "reachable sod x a'" and "reachable sod y b'"
proof -
  from assms(1) obtain out where "a' = exec sod (Get_Output (Some SODCHAN_OUT_BUF_SIZE)) a"
      "b' = exec sod (Feed_Input (Some out)) b"
    by (auto simp: deliver_def split: prod.splits)
  then show "reachable sod x a'" "reachable sod y b'"
    using reachable.called assms(2,3) by metis+
qed

lemma establish_reachable:
  assumes "establish sod cl c s = (r, c', s')" and "reachable sod x c" and "reachable sod y s"
  shows "reachable sod x c' \<and> reachable sod y s'"
proof -
  have dec: "reachable sod y t \<Longrightarrow> sodchan_auth_decide_ex sod True (Some cl) t = (e, t') \<Longrightarrow> reachable sod y t'" for t e t'
    using reachable.called [of sod y t "Auth_Decide True (Some cl)"] by simp
  from assms(1) obtain c1 s1 c2 s2 c3 s3 c4 s4 c5 s5 s6 where
    d: "deliver sod c s = (c1, s1)" "deliver sod s1 c1 = (s2, c2)" "deliver sod c2 s2 = (c3, s3)"
      "deliver sod s3 c3 = (s4, c4)" "deliver sod c4 s4 = (c5, s5)"
      "sodchan_auth_decide_ex sod True (Some cl) s5 = (r, s6)" "deliver sod s6 c5 = (s', c')"
    unfolding establish_def by (auto split: prod.splits)
  note r1 = deliver_reachable [OF d(1) assms(2,3)]
  note r2 = deliver_reachable [OF d(2) r1(2,1)]
  note r3 = deliver_reachable [OF d(3) r2(2,1)]
  note r4 = deliver_reachable [OF d(4) r3(2,1)]
  note r5 = deliver_reachable [OF d(5) r4(2,1)]
  note r6 = dec [OF r5(2) d(6)]
  show ?thesis using deliver_reachable [OF d(7) r6 r5(1)] by simp
qed

section \<open>Rules for the input loop\<close>

text \<open>What each dispatched frame, the removal of input and an error keep, the loop keeps.\<close>

lemma process_input_preserves:
  assumes step: "\<And>b ctx r c. P ctx \<Longrightarrow> ctx_state ctx \<noteq> STATE_ERROR \<Longrightarrow> ctx_state ctx \<noteq> STATE_CLOSED \<Longrightarrow>
      dispatch_frame sod b ctx = (r, c) \<Longrightarrow> P c"
    and buf: "\<And>ctx d. P ctx \<Longrightarrow> P (ctx\<lparr> ctx_in_buf := d \<rparr>)"
    and err: "\<And>ctx. P ctx \<Longrightarrow> ctx_state ctx \<noteq> STATE_ERROR \<Longrightarrow> ctx_state ctx \<noteq> STATE_CLOSED \<Longrightarrow>
      P (sodchan_i_set_error SODCHAN_ERR_PROTOCOL ''frame parse error'' ctx)"
  shows "P ctx \<Longrightarrow> P (process_input sod ctx)"
  using step
proof (induction sod ctx rule: process_input.induct)
  case (1 sod ctx)
  show ?case
  proof (cases "ctx_state ctx = STATE_ERROR \<or> ctx_state ctx = STATE_CLOSED \<or> length (ctx_in_buf ctx) < 4")
    case True
    then show ?thesis using 1(2) by (subst process_input.simps) auto
  next
    case False
    show ?thesis
    proof (cases "parse_frame ctx")
      case (Inl e)
      with False 1(2) err show ?thesis by (subst process_input.simps) simp
    next
      case (Inr bn)
      obtain body n where parse: "parse_frame ctx = Inr (body, n)" using Inr by (cases bn) simp
      obtain r c where disp: "dispatch_frame sod body ctx = (r, c)"
        by (cases "dispatch_frame sod body ctx")
      have c: "P c" using False by (intro 1(3) [OF 1(2) _ _ disp]) auto
      have "P (process_input sod (c\<lparr> ctx_in_buf := drop n (ctx_in_buf c) \<rparr>))" if "r = 0"
        by (rule 1(1) [OF _ _ parse refl disp [symmetric] _ buf [OF c] 1(3)]) (use that False in auto)
      with False parse disp c show ?thesis
        by (subst process_input.simps) simp
    qed
  qed
qed

lemma feed_input_preserves:
  assumes "\<And>b ctx r c. P ctx \<Longrightarrow> ctx_state ctx \<noteq> STATE_ERROR \<Longrightarrow> ctx_state ctx \<noteq> STATE_CLOSED \<Longrightarrow>
      dispatch_frame sod b ctx = (r, c) \<Longrightarrow> P c"
    and "\<And>ctx d. P ctx \<Longrightarrow> P (ctx\<lparr> ctx_in_buf := d \<rparr>)"
    and "\<And>ctx. P ctx \<Longrightarrow> ctx_state ctx \<noteq> STATE_ERROR \<Longrightarrow> ctx_state ctx \<noteq> STATE_CLOSED \<Longrightarrow>
      P (sodchan_i_set_error SODCHAN_ERR_PROTOCOL ''frame parse error'' ctx)"
    and "P ctx"
  shows "P (snd (sodchan_feed_input sod d ctx))"
proof -
  have "P (process_input sod (ctx\<lparr> ctx_in_buf := b \<rparr>))" for b
    by (rule process_input_preserves [of P sod, OF assms(1-3) assms(2) [OF assms(4)]])
  with assms(4) show ?thesis
    by (simp add: sodchan_feed_input_def Let_def split: option.split)
qed

section \<open>How a server becomes READY\<close>

lemma dispatch_role: "dispatch_frame sod b ctx = (r, c) \<Longrightarrow> ctx_role c = ctx_role ctx"
  using dispatch_frame_fixed [of sod b ctx r c] fixed_part_fields(1) [of c ctx] by blast

lemma handle_peer_hello_state:
  assumes "handle_peer_hello sod b ctx = (r, c)"
  shows "ctx_state c = STATE_SS_HEADER \<or> ctx_state c = STATE_ERROR"
proof (cases "r = 0")
  case True
  from assms True obtain h where
    "if ctx_role ctx = ROLE_CLIENT then handle_server_hello sod h ctx = (0, c)
     else handle_client_hello sod h ctx = (0, c)"
    by (auto simp: handle_peer_hello_def split: sum.splits if_splits)
  then show ?thesis
    using handle_server_hello_ok(2) [of sod h ctx c] handle_client_hello_ok(2) [of sod h ctx c]
    by (cases "ctx_role ctx") simp_all
next
  case False
  then show ?thesis using handle_peer_hello_error [OF assms] by simp
qed

lemma handle_peer_ss_header_state:
  assumes "handle_peer_ss_header sod b ctx = (r, c)"
  shows "ctx_state c = STATE_AUTH \<or> ctx_state c = STATE_ERROR"
  using assms handle_peer_ss_header_ok(2) [of sod b ctx c] handle_peer_ss_header_error [OF assms]
  by (cases "r = 0") simp_all

lemma handle_auth_device_pdu_state:
  assumes "handle_auth_device_pdu sod p ctx = (r, c)"
  shows "ctx_state c = ctx_state ctx \<or> ctx_state c = STATE_ERROR"
  using assms unfolding handle_auth_device_pdu_def Let_def
  by (auto split: if_splits sum.splits prod.splits)

lemma handle_encrypted_pdu_server:
  assumes "handle_encrypted_pdu sod ct ctx = (r, c)" and "ctx_role ctx = ROLE_SERVER"
    and "ctx_state ctx \<noteq> STATE_READY"
  shows "ctx_state c \<noteq> STATE_READY"
proof -
  have mux: "ctx_state d \<noteq> STATE_READY" if "handle_mux_pdu sod p (ctx\<lparr> ctx_ss_pull := st \<rparr>) = (x, d)" for p st x d
    using mux_step_state [of sod "ctx\<lparr> ctx_ss_pull := st \<rparr>" x d]
      handle_mux_pdu_step [of sod "ctx\<lparr> ctx_ss_pull := st \<rparr>" p] that assms(3) by auto
  have dev: "ctx_state d \<noteq> STATE_READY"
    if "handle_auth_device_pdu sod p (ctx\<lparr> ctx_ss_pull := st \<rparr>) = (x, d)" for p st x d
    using handle_auth_device_pdu_state [OF that] assms(3) by auto
  have ok: "ctx_state d \<noteq> STATE_READY" if "handle_auth_ok_pdu p (ctx\<lparr> ctx_ss_pull := st \<rparr>) = (x, d)" for p st x d
    using that assms(2) by (auto simp: handle_auth_ok_pdu_def)
  have fail: "ctx_state d \<noteq> STATE_READY" if "handle_auth_fail_pdu p (ctx\<lparr> ctx_ss_pull := st \<rparr>) = (x, d)" for p st x d
    using handle_auth_error(3) [OF that] by simp
  from assms(1,3) show ?thesis
    unfolding handle_encrypted_pdu_def Let_def
    by (auto split: if_splits option.splits sum.splits prod.splits dest: mux dev ok fail)
qed

lemma feed_server_not_ready:
  assumes "ctx_role ctx = ROLE_SERVER" and "ctx_state ctx \<noteq> STATE_READY"
  shows "ctx_state (snd (sodchan_feed_input sod d ctx)) \<noteq> STATE_READY"
proof -
  let ?P = "\<lambda>ctx. ctx_role ctx = ROLE_SERVER \<and> ctx_state ctx \<noteq> STATE_READY"
  have "?P (snd (sodchan_feed_input sod d ctx))"
  proof (rule feed_input_preserves [where P = ?P])
    fix b and ctx :: "'a sodchan_ctx" and r c
    assume P: "?P ctx" and disp: "dispatch_frame sod b ctx = (r, c)"
    have "ctx_state c \<noteq> STATE_READY"
    proof (cases "ctx_hs ctx")
      case HS_DONE
      with disp P show ?thesis
        by (intro handle_encrypted_pdu_server [of sod b ctx r c]) (simp_all add: dispatch_frame_def)
    qed (use disp handle_peer_hello_state [of sod b ctx r c] handle_peer_ss_header_state [of sod b ctx r c]
        in \<open>auto simp: dispatch_frame_def\<close>)
    with dispatch_role [OF disp] P show "?P c" by simp
  qed (use assms in \<open>simp_all add: sodchan_i_set_error_def Let_def\<close>)
  then show ?thesis by simp
qed

text \<open>The other calls.\<close>

lemma handshake_start_state:
  "handshake_start sod ctx = (r, c) \<Longrightarrow> ctx_state c = STATE_HELLO \<or> ctx_state c = ctx_state ctx"
  unfolding handshake_start_def Let_def
  by (auto split: option.splits prod.splits if_splits dest: queue_local_hello_frame(1))

lemma reset_state: "ctx_state (sodchan_reset sod ctx) = STATE_HELLO \<or> ctx_state (sodchan_reset sod ctx) = ctx_state ctx"
proof -
  have "\<exists>d. sodchan_reset sod ctx = snd (handshake_start sod d) \<and> ctx_state d = ctx_state ctx"
    by (auto simp: sodchan_reset_def Let_def)
  then show ?thesis using handshake_start_state by (metis prod.collapse)
qed

lemma disconnect_state: "ctx_state (snd (sodchan_disconnect sod r m ctx)) \<in> {ctx_state ctx, STATE_DRAINING, STATE_CLOSED}"
  by (simp add: sodchan_disconnect_def Let_def)

lemma auth_reject_state:
  "ctx_state (snd (sodchan_auth_decide_ex sod False cl ctx)) \<in> {ctx_state ctx, STATE_ERROR}"
  by (cases rule: auth_decide_ex_cases [of sod False cl ctx]) simp_all

lemma server_becomes_ready:
  assumes "ctx_role ctx = ROLE_SERVER" and "ctx_state ctx \<noteq> STATE_READY"
    and "ctx_state (exec sod call ctx) = STATE_READY"
  obtains claims where "call = Auth_Decide True (Some claims)" and "ctx_state ctx = STATE_AUTH"
    and "ctx_auth_awaiting_decide ctx" and "\<not> ctx_auth_decided ctx"
proof (cases call)
  case (Auth_Decide acc cl)
  show thesis
  proof (cases rule: auth_decide_ex_cases [of sod acc cl ctx])
    case (accepted claims c)
    then show thesis using that [of claims] Auth_Decide by simp
  qed (use assms Auth_Decide in simp_all)
next
  case (Feed_Input d)
  then show thesis using feed_server_not_ready [OF assms(1,2), of sod d] assms(3) by simp
next
  case (Disconnect_Call r m)
  then show thesis using disconnect_state [of sod r m ctx] assms(2,3) by auto
next
  case Reset
  then show thesis using reset_state [of sod ctx] assms(2,3) by auto
qed (use assms api_step_state [OF channel_open_step, of sod _ ctx] api_step_state [OF channel_accept_step, of sod _ _ ctx]
  api_step_state [OF channel_send_step, of sod _ _ _ ctx] api_step_state [OF channel_eof_step, of sod _ ctx]
  api_step_state [OF channel_close_step, of sod _ ctx] api_step_state [OF channel_window_adjust_step, of sod _ _ ctx]
  in simp_all)

section \<open>The pin\<close>

text \<open>The pinned server key of a client that does not accept any key.\<close>

definition pin_part :: "'ss sodchan_ctx \<Rightarrow> bool \<times> bool \<times> bytes" where
  "pin_part ctx = (ctx_accept_any_server_pk ctx, ctx_have_server_id_pk ctx, ctx_server_id_pk ctx)"

lemma pin_part_upd [simp]:
  "pin_part (ctx_role_update f_role ctx) = pin_part ctx"
  "pin_part (ctx_state_update f_state ctx) = pin_part ctx"
  "pin_part (ctx_hs_update f_hs ctx) = pin_part ctx"
  "pin_part (ctx_error_update f_error ctx) = pin_part ctx"
  "pin_part (ctx_error_msg_update f_error_msg ctx) = pin_part ctx"
  "pin_part (ctx_event_queue_size_update f_event_queue_size ctx) = pin_part ctx"
  "pin_part (ctx_max_record_size_update f_max_record_size ctx) = pin_part ctx"
  "pin_part (ctx_max_channel_data_update f_max_channel_data ctx) = pin_part ctx"
  "pin_part (ctx_max_channels_update f_max_channels ctx) = pin_part ctx"
  "pin_part (ctx_initial_window_update f_initial_window ctx) = pin_part ctx"
  "pin_part (ctx_max_packet_update f_max_packet ctx) = pin_part ctx"
  "pin_part (ctx_lab_mode_update f_lab_mode ctx) = pin_part ctx"
  "pin_part (ctx_client_id_pk_update f_client_id_pk ctx) = pin_part ctx"
  "pin_part (ctx_client_id_sk_update f_client_id_sk ctx) = pin_part ctx"
  "pin_part (ctx_server_id_sk_update f_server_id_sk ctx) = pin_part ctx"
  "pin_part (ctx_have_client_id_pk_update f_have_client_id_pk ctx) = pin_part ctx"
  "pin_part (ctx_have_client_id_sk_update f_have_client_id_sk ctx) = pin_part ctx"
  "pin_part (ctx_have_server_id_sk_update f_have_server_id_sk ctx) = pin_part ctx"
  "pin_part (ctx_eph_pk_update f_eph_pk ctx) = pin_part ctx"
  "pin_part (ctx_eph_sk_update f_eph_sk ctx) = pin_part ctx"
  "pin_part (ctx_peer_eph_pk_update f_peer_eph_pk ctx) = pin_part ctx"
  "pin_part (ctx_peer_id_pk_update f_peer_id_pk ctx) = pin_part ctx"
  "pin_part (ctx_have_peer_eph_update f_have_peer_eph ctx) = pin_part ctx"
  "pin_part (ctx_have_peer_id_update f_have_peer_id ctx) = pin_part ctx"
  "pin_part (ctx_ss_key_c2s_update f_ss_key_c2s ctx) = pin_part ctx"
  "pin_part (ctx_ss_key_s2c_update f_ss_key_s2c ctx) = pin_part ctx"
  "pin_part (ctx_ss_push_update f_ss_push ctx) = pin_part ctx"
  "pin_part (ctx_ss_pull_update f_ss_pull ctx) = pin_part ctx"
  "pin_part (ctx_ss_push_ready_update f_ss_push_ready ctx) = pin_part ctx"
  "pin_part (ctx_ss_pull_ready_update f_ss_pull_ready ctx) = pin_part ctx"
  "pin_part (ctx_t_hello_update f_t_hello ctx) = pin_part ctx"
  "pin_part (ctx_have_t_hello_update f_have_t_hello ctx) = pin_part ctx"
  "pin_part (ctx_auth_sent_update f_auth_sent ctx) = pin_part ctx"
  "pin_part (ctx_auth_awaiting_decide_update f_auth_awaiting_decide ctx) = pin_part ctx"
  "pin_part (ctx_auth_decided_update f_auth_decided ctx) = pin_part ctx"
  "pin_part (ctx_auth_complete_update f_auth_complete ctx) = pin_part ctx"
  "pin_part (ctx_channels_update f_channels ctx) = pin_part ctx"
  "pin_part (ctx_next_local_channel_id_update f_next_local_channel_id ctx) = pin_part ctx"
  "pin_part (ctx_active_channels_update f_active_channels ctx) = pin_part ctx"
  "pin_part (ctx_cfg_store_used_update f_cfg_store_used ctx) = pin_part ctx"
  "pin_part (ctx_allowed_channels_update f_allowed_channels ctx) = pin_part ctx"
  "pin_part (ctx_client_username_update f_client_username ctx) = pin_part ctx"
  "pin_part (ctx_client_device_id_update f_client_device_id ctx) = pin_part ctx"
  "pin_part (ctx_out_buf_update f_out_buf ctx) = pin_part ctx"
  "pin_part (ctx_out_off_update f_out_off ctx) = pin_part ctx"
  "pin_part (ctx_in_buf_update f_in_buf ctx) = pin_part ctx"
  "pin_part (ctx_events_update f_events ctx) = pin_part ctx"
  "pin_part (ctx_event_cap_update f_event_cap ctx) = pin_part ctx"
  "pin_part (ctx_event_head_update f_event_head ctx) = pin_part ctx"
  "pin_part (ctx_event_count_update f_event_count ctx) = pin_part ctx"
  "pin_part (ctx_draws_update f_draws ctx) = pin_part ctx"
  by (simp_all add: pin_part_def)

lemma pin_part_ops [simp]:
  "pin_part (emit ev ctx) = pin_part ctx" "pin_part (sodchan_i_set_error code msg ctx) = pin_part ctx"
  "pin_part (emit_hello_received ctx) = pin_part ctx" "pin_part (emit_kx_complete ctx) = pin_part ctx"
  "pin_part (emit_authenticated ctx) = pin_part ctx" "pin_part (emit_auth_failed r m ctx) = pin_part ctx"
  by (simp_all add: pin_part_def sodchan_i_set_error_def Let_def emit_hello_received_def emit_kx_complete_def
      emit_authenticated_def emit_auth_failed_def)

lemma pin_part_auth: "auth_part c = auth_part ctx \<Longrightarrow> pin_part c = pin_part ctx"
  by (simp add: pin_part_def auth_part_fields [of c ctx])

lemma pin_part_session: "session_part c = session_part ctx \<Longrightarrow> pin_part c = pin_part ctx"
  by (rule pin_part_auth [OF auth_part_session])

lemma pin_part_sends [simp]:
  "pin_part (snd (ss_send_pdu sod pl ctx)) = pin_part ctx"
  "pin_part (snd (server_send_auth_fail sod ctx)) = pin_part ctx"
  "pin_part (snd (server_send_auth_ok sod cl ctx)) = pin_part ctx"
  by (rule pin_part_auth; simp)+

lemma pin_part_pairs:
  "ss_send_pdu sod pl ctx = (r, c) \<Longrightarrow> pin_part c = pin_part ctx"
  "out_append_frame b ctx = (r, c) \<Longrightarrow> pin_part c = pin_part ctx"
  "derive_ss_keys_client sod ctx = (r, c) \<Longrightarrow> pin_part c = pin_part ctx"
  "derive_ss_keys_server sod ctx = (r, c) \<Longrightarrow> pin_part c = pin_part ctx"
  "client_send_ss_header_c2s sod ctx = (r, c) \<Longrightarrow> pin_part c = pin_part ctx"
  "server_send_ss_header_s2c sod ctx = (r, c) \<Longrightarrow> pin_part c = pin_part ctx"
  "client_send_auth_device sod ctx = (r, c) \<Longrightarrow> pin_part c = pin_part ctx"
  by (blast intro: pin_part_auth auth_part_pairs derive_ss_keys_auth send_ss_header_auth
      client_send_auth_device_auth)+

lemma queue_local_hello_pin: "queue_local_hello sod ctx = (r, c) \<Longrightarrow> pin_part c = pin_part ctx"
  unfolding queue_local_hello_def Let_def
  by (auto split: if_splits sum.splits option.splits dest: pin_part_pairs(2))

lemma handle_client_hello_pin: "handle_client_hello sod h ctx = (r, c) \<Longrightarrow> pin_part c = pin_part ctx"
  unfolding handle_client_hello_def Let_def
  by (auto split: if_splits prod.splits dest!: pin_part_pairs queue_local_hello_pin)

lemma handle_server_hello_pin:
  "handle_server_hello sod h ctx = (r, c) \<Longrightarrow> \<not> ctx_accept_any_server_pk ctx \<Longrightarrow> pin_part c = pin_part ctx"
  unfolding handle_server_hello_def Let_def
  by (auto split: if_splits prod.splits sum.splits dest!: pin_part_pairs)

lemma handle_peer_ss_header_pin: "handle_peer_ss_header sod b ctx = (r, c) \<Longrightarrow> pin_part c = pin_part ctx"
  unfolding handle_peer_ss_header_def
  by (auto split: if_splits prod.splits option.splits dest!: pin_part_pairs)

lemma handle_auth_pin:
  "handle_auth_device_pdu sod p ctx = (r, c) \<Longrightarrow> pin_part c = pin_part ctx"
  "handle_auth_ok_pdu p ctx = (r, c) \<Longrightarrow> pin_part c = pin_part ctx"
  "handle_auth_fail_pdu p ctx = (r, c) \<Longrightarrow> pin_part c = pin_part ctx"
  by (auto simp: handle_auth_device_pdu_def handle_auth_ok_pdu_def handle_auth_fail_pdu_def Let_def
      split: if_splits sum.splits prod.splits)

lemma handle_mux_pdu_pin: "handle_mux_pdu sod p ctx = (r, c) \<Longrightarrow> pin_part c = pin_part ctx"
  using mux_step_session_part [of sod ctx r c] handle_mux_pdu_step [of sod ctx p] pin_part_session [of c ctx]
  by auto

lemma handle_encrypted_pdu_pin: "handle_encrypted_pdu sod ct ctx = (r, c) \<Longrightarrow> pin_part c = pin_part ctx"
  unfolding handle_encrypted_pdu_def Let_def
  by (auto split: if_splits option.splits sum.splits prod.splits dest!: handle_auth_pin handle_mux_pdu_pin)

lemma dispatch_frame_pin:
  "dispatch_frame sod b ctx = (r, c) \<Longrightarrow> \<not> ctx_accept_any_server_pk ctx \<Longrightarrow> pin_part c = pin_part ctx"
  unfolding dispatch_frame_def handle_peer_hello_def
  by (auto split: if_splits sum.splits dest: handle_server_hello_pin handle_client_hello_pin
      handle_peer_ss_header_pin handle_encrypted_pdu_pin)

lemma exec_pin:
  assumes "\<not> ctx_accept_any_server_pk ctx"
  shows "pin_part (exec sod call ctx) = pin_part ctx"
proof (cases call)
  case (Feed_Input d)
  let ?P = "\<lambda>c. pin_part c = pin_part ctx"
  have any: "?P c \<Longrightarrow> \<not> ctx_accept_any_server_pk c" for c using assms by (simp add: pin_part_def)
  have "?P (snd (sodchan_feed_input sod d ctx))"
  proof (rule feed_input_preserves [where P = ?P])
    fix b c1 r c
    assume p: "?P c1" and d: "dispatch_frame sod b c1 = (r, c)"
    show "?P c" using dispatch_frame_pin [OF d any [OF p]] p by simp
  qed simp_all
  with Feed_Input show ?thesis by simp
next
  case (Auth_Decide acc cl)
  have "pin_part (snd (sodchan_auth_decide_ex sod acc cl ctx)) = pin_part ctx"
    by (auto simp: sodchan_auth_decide_ex_def server_send_auth_ok_def server_send_auth_fail_def Let_def
        split: option.split sum.split prod.split dest!: pin_part_pairs(1))
  with Auth_Decide show ?thesis by simp
next
  case (Disconnect_Call r m)
  then show ?thesis by (simp add: sodchan_disconnect_def Let_def split: sum.split)
next
  case Reset
  have "\<exists>d. sodchan_reset sod ctx = snd (handshake_start sod d) \<and> pin_part d = pin_part ctx"
    by (auto simp: sodchan_reset_def Let_def)
  moreover have "pin_part (snd (handshake_start sod d)) = pin_part d" for d
    unfolding handshake_start_def Let_def
    by (auto split: option.split prod.split dest: queue_local_hello_pin)
  ultimately show ?thesis using Reset by auto
next
  case Next_Event
  then show ?thesis by (simp add: pin_part_def)
qed (simp_all add: pin_part_def [of "snd (sodchan_get_output _ _)"] pin_part_def [of ctx]
    pin_part_session [OF api_step_session_part [OF channel_open_step]]
    pin_part_session [OF api_step_session_part [OF channel_accept_step]]
    pin_part_session [OF api_step_session_part [OF channel_send_step]]
    pin_part_session [OF api_step_session_part [OF channel_eof_step]]
    pin_part_session [OF api_step_session_part [OF channel_close_step]]
    pin_part_session [OF api_step_session_part [OF channel_window_adjust_step]])

lemma create_pin:
  assumes "sodchan_create sod lab m1 m2 z draws role (Some cfg) = Some ctx"
    and "\<not> cfg_accept_any_server_pk cfg" and "cfg_server_id_pk cfg = Some pin" and "length pin = 32"
  shows "pin_part ctx = (False, True, pin)"
proof -
  from assms(1) obtain d where hs: "handshake_start sod d = (SODCHAN_OK, ctx)"
    and d: "d = (let c = apply_config_defaults (case Some cfg of None \<Rightarrow> zero_config | Some x \<Rightarrow> x)
            ((zero_ctx z (if role = 0 then ROLE_SERVER else ROLE_CLIENT))\<lparr> ctx_draws := draws \<rparr>) in
          c\<lparr> ctx_event_cap := ctx_event_queue_size c, ctx_events := replicate (ctx_event_queue_size c) EVENT_NONE \<rparr>)"
    by (rule sodchan_create_Some)
  have "pin_part d = (False, True, pin)"
    using assms(2-4) by (simp add: d Let_def pin_part_def apply_config_defaults_fields copy_key_def)
  moreover have "pin_part ctx = pin_part d"
    using hs unfolding handshake_start_def Let_def
    by (auto split: option.splits prod.splits if_splits dest: queue_local_hello_pin)
  ultimately show ?thesis by simp
qed

lemma reachable_pin:
  assumes "reachable sod (Some cfg) ctx" and "\<not> cfg_accept_any_server_pk cfg"
    and "cfg_server_id_pk cfg = Some pin" and "length pin = 32"
  shows "pin_part ctx = (False, True, pin)"
  using assms(1)
proof induction
  case (created lab m1 m2 z draws role ctx)
  then show ?case by (rule create_pin [OF _ assms(2-4)])
next
  case (called ctx call)
  then show ?case using exec_pin [of ctx sod call] by (simp add: pin_part_def)
qed

section \<open>Properties\<close>

text \<open>Two ends that went through the handshake, for the witnesses.\<close>

lemma sample_session:
  obtains c s where "reachable sample_sodium (Some sample_client) c"
    and "reachable sample_sodium (Some sample_server) s"
    and "session_up (=) (replicate 32 3) (replicate 32 2) c s"
proof -
  obtain c where c: "sodchan_create sample_sodium False True True ([] :: bytes) 5 1 (Some sample_client) = Some c"
    using sample_client_created by blast
  obtain s where s: "sodchan_create sample_sodium False True True ([] :: bytes) 7 0 (Some sample_server) = Some s"
    using sample_server_created by blast
  have "\<exists>c' s'. establish sample_sodium [9] c s = (SODCHAN_OK, c', s')
      \<and> session_up (=) (replicate 32 3) (replicate 32 2) c' s'"
    by (rule session_establishes [OF _ _ sample_kx_law sample_hash_law sample_stream_law sample_memory_law
          sample_matching _ c s]) (simp_all add: sample_sign_law auth_const_defs)
  with establish_reachable [OF _ reachable.created [OF c] reachable.created [OF s]] that show thesis by blast
qed

lemma sample_config_ok: "config_ok (Some sample_client)" "config_ok (Some sample_server)"
  by (simp_all add: config_ok_def sample_client_def sample_server_def zero_config_def)

text \<open>
  C1. In every context that a program can reach, whatever it calls and whatever
  bytes arrive, the invariant holds: the buffers and the event ring are within
  bounds, the channel table and its count agree, and the public state fits the
  handshake progress, the secretstreams and the authentication flags.
\<close>

theorem reachable_invariant:
  assumes "reachable sod cfg ctx" and "config_ok cfg" and "push_len_law sod" and "kx_keypair_law sod"
  shows "ctx_inv sod ctx"
  by (rule reachable_inv [OF assms])

theorem reachable_invariant_witness:
  "\<exists>ctx. reachable sample_sodium (Some sample_server) ctx \<and> ctx_state ctx = STATE_READY
     \<and> ctx_inv sample_sodium ctx"
proof -
  obtain c s where "reachable sample_sodium (Some sample_server) s"
    "session_up (=) (replicate 32 3) (replicate 32 2) c s" by (rule sample_session)
  then show ?thesis
    using reachable_invariant [OF _ sample_config_ok(2) sample_push_len_law sample_kx_keypair_law]
    by (auto simp: session_up_def)
qed

text \<open>
  C3. The client authenticates the server. A client created with a pinned server
  key gets past HELLO only with a peer that has exactly this key and that signed,
  with it, the transcript of the client's and its own ephemeral keys; this holds
  in every later live state, and no call changes the pin.
\<close>

theorem client_authenticates_server:
  assumes "reachable sod (Some cfg) ctx" and "config_ok (Some cfg)"
    and "push_len_law sod" and "kx_keypair_law sod" and "memory_law sod"
    and "\<not> cfg_accept_any_server_pk cfg" and "cfg_server_id_pk cfg = Some pin"
    and "ctx_role ctx = ROLE_CLIENT"
    and "ctx_state ctx \<in> {STATE_SS_HEADER, STATE_AUTH, STATE_READY, STATE_DRAINING}"
  shows "ctx_peer_id_pk ctx = pin
    \<and> ctx_t_hello ctx = transcript (ctx_eph_pk ctx) (ctx_peer_eph_pk ctx) pin
    \<and> (\<exists>sig. crypto_sign_verify_detached sod sig
         (transcript (ctx_eph_pk ctx) (ctx_peer_eph_pk ctx) pin) pin)"
proof -
  have "length pin = 32" using assms(2,7) by (simp add: config_ok_def)
  then have "ctx_server_id_pk ctx = pin" "\<not> ctx_accept_any_server_pk ctx"
    using reachable_pin [OF assms(1,6,7)] by (simp_all add: pin_part_def)
  moreover have "server_verified sod ctx"
    using reachable_inv [OF assms(1-4)] assms(8,9) by (auto simp: ctx_inv_def live_ok_def peer_checked_def)
  ultimately show ?thesis
    using assms(5) by (auto simp: server_verified_def memory_law_def build_transcript)
qed

theorem client_authenticates_server_witness:
  "\<exists>ctx. reachable sample_sodium (Some sample_client) ctx \<and> ctx_state ctx = STATE_READY
     \<and> ctx_peer_id_pk ctx = replicate 32 2
     \<and> ctx_t_hello ctx = transcript (ctx_eph_pk ctx) (ctx_peer_eph_pk ctx) (replicate 32 2)"
proof -
  obtain c s where r: "reachable sample_sodium (Some sample_client) c"
    and "session_up (=) (replicate 32 3) (replicate 32 2) c s" by (rule sample_session)
  then have st: "ctx_role c = ROLE_CLIENT" "ctx_state c = STATE_READY" by (simp_all add: session_up_def)
  have "ctx_peer_id_pk c = replicate 32 2
    \<and> ctx_t_hello c = transcript (ctx_eph_pk c) (ctx_peer_eph_pk c) (replicate 32 2)"
    using client_authenticates_server [OF r sample_config_ok(1) sample_push_len_law sample_kx_keypair_law
        sample_memory_law _ _ st(1), of "replicate 32 2"] st(2)
    by (simp add: sample_client_def zero_config_def)
  with r st show ?thesis by blast
qed

text \<open>
  C4. The server lets nobody in by itself. The only call that brings a server to
  READY is the host's accepting decision, in state AUTH, at most once, and only
  after the device's signature over the session transcript verified under the key
  that the server reports.
\<close>

theorem server_ready_by_decision:
  assumes "reachable sod cfg ctx" and "config_ok cfg" and "push_len_law sod" and "kx_keypair_law sod"
    and "ctx_role ctx = ROLE_SERVER" and "ctx_state ctx \<noteq> STATE_READY"
    and "ctx_state (exec sod call ctx) = STATE_READY"
  shows "(\<exists>claims. call = Auth_Decide True (Some claims)) \<and> ctx_state ctx = STATE_AUTH
    \<and> \<not> ctx_auth_decided ctx
    \<and> ctx_t_hello ctx = transcript (ctx_peer_eph_pk ctx) (ctx_eph_pk ctx) (ctx_server_id_pk ctx)
    \<and> (\<exists>user dev t sig. sodchan_wire_build_t_auth (ctx_t_hello ctx) (ctx_peer_id_pk ctx) (Some user)
            (Some dev) (Some 512) = Inr t
         \<and> crypto_sign_verify_detached sod sig t (ctx_peer_id_pk ctx))"
proof -
  obtain claims where d: "call = Auth_Decide True (Some claims)" "ctx_state ctx = STATE_AUTH"
      "ctx_auth_awaiting_decide ctx" "\<not> ctx_auth_decided ctx"
    by (rule server_becomes_ready [OF assms(5-7)])
  have "device_verified sod ctx" "transcript_built ctx"
    using reachable_inv [OF assms(1-4)] d assms(5) by (auto simp: ctx_inv_def live_ok_def peer_checked_def)
  with d show ?thesis by (simp add: device_verified_def transcript_built_def build_transcript)
qed

lemma deliver_sender_state: "deliver sod a b = (a', b') \<Longrightarrow> ctx_state a' = ctx_state a"
  by (auto simp: deliver_def split: prod.splits dest!: arg_cong [where f = "\<lambda>x. ctx_state (snd x)"])

lemma sample_awaiting:
  obtains s s' where "reachable sample_sodium (Some sample_server) s" and "ctx_state s = STATE_AUTH"
    and "ctx_role s = ROLE_SERVER"
    and "sodchan_auth_decide_ex sample_sodium True (Some [9]) s = (SODCHAN_OK, s')" and "ctx_state s' = STATE_READY"
proof -
  obtain c where c: "sodchan_create sample_sodium False True True ([] :: bytes) 5 1 (Some sample_client) = Some c"
    using sample_client_created by blast
  obtain s where s: "sodchan_create sample_sodium False True True ([] :: bytes) 7 0 (Some sample_server) = Some s"
    using sample_server_created by blast
  have claims: "length [9 :: byte] \<le> SODCHAN_CLAIMS_MAX" by (simp add: auth_const_defs)
  note sl = sample_sign_law [of "replicate 64 2" "replicate 32 2"] sample_sign_law [of "replicate 64 3" "replicate 32 3"]
  obtain c1 s1 c2 s2 where h: "deliver sample_sodium c s = (c1, s1)" "deliver sample_sodium s1 c1 = (s2, c2)"
      "hellos_done sample_sodium (=) (replicate 32 3) (replicate 64 3) (replicate 32 2) c2 s2"
    by (rule hellos_exchanged [OF _ sample_kx_law sample_hash_law sample_stream_law sample_memory_law
          sample_matching c s]) (use sl in simp_all)
  obtain c3 s3 c4 s4 c5 s5 where a: "deliver sample_sodium c2 s2 = (c3, s3)" "deliver sample_sodium s3 c3 = (s4, c4)"
      "deliver sample_sodium c4 s4 = (c5, s5)" "device_known (=) (replicate 32 3) (replicate 32 2) c5 s5"
    by (rule device_announced [OF _ sample_stream_law _ h(3)]) (use sl in simp_all)
  obtain s6 s7 c7 where d: "sodchan_auth_decide_ex sample_sodium True (Some [9]) s5 = (SODCHAN_OK, s6)"
      "deliver sample_sodium s6 c5 = (s7, c7)" "session_up (=) (replicate 32 3) (replicate 32 2) c7 s7"
    by (rule decision_taken [OF sample_stream_law claims a(4)])
  note r1 = deliver_reachable [OF h(1) reachable.created [OF c] reachable.created [OF s]]
  note r2 = deliver_reachable [OF h(2) r1(2,1)]
  note r3 = deliver_reachable [OF a(1) r2(2,1)]
  note r4 = deliver_reachable [OF a(2) r3(2,1)]
  note r5 = deliver_reachable [OF a(3) r4(2,1)]
  show thesis
    by (rule that [OF r5(2) _ _ d(1)])
      (use a(4) d(3) deliver_sender_state [OF d(2)] in \<open>simp_all add: device_known_def session_up_def\<close>)
qed

theorem server_ready_by_decision_witness:
  "\<exists>s. reachable sample_sodium (Some sample_server) s
     \<and> ctx_state (exec sample_sodium (Auth_Decide True (Some [9])) s) = STATE_READY
     \<and> ctx_state s = STATE_AUTH \<and> \<not> ctx_auth_decided s
     \<and> ctx_t_hello s = transcript (ctx_peer_eph_pk s) (ctx_eph_pk s) (ctx_server_id_pk s)"
proof -
  obtain s s' where s: "reachable sample_sodium (Some sample_server) s" "ctx_state s = STATE_AUTH"
      "ctx_role s = ROLE_SERVER"
      "sodchan_auth_decide_ex sample_sodium True (Some [9]) s = (SODCHAN_OK, s')" "ctx_state s' = STATE_READY"
    by (rule sample_awaiting)
  then have ready: "ctx_state (exec sample_sodium (Auth_Decide True (Some [9])) s) = STATE_READY" by simp
  show ?thesis
    using server_ready_by_decision [OF s(1) sample_config_ok(2) sample_push_len_law sample_kx_keypair_law s(3) _ ready]
      s(1,2) ready by auto
qed

text \<open>
  C30. Creation fails closed. \<^verbatim>\<open>sodchan_create\<close> yields a context exactly when the role
  is one of the two, a server brings both halves of its identity key, a client
  brings a pinned key or asks to accept any, lab mode is compiled in if requested,
  libsodium initialises and memory is found; the context then starts in HELLO.
\<close>

theorem create_fails_closed:
  assumes "config_ok cfg" and "kx_keypair_law sod"
  shows "(\<exists>ctx. sodchan_create sod lab m1 m2 z draws role cfg = Some ctx \<and> ctx_state ctx = STATE_HELLO)
      = create_allowed sod lab m1 m2 role cfg"
    (is "?L = ?R")
proof
  show "?L \<Longrightarrow> ?R" by (auto dest: create_needs)
  assume r: ?R
  obtain ctx where c: "sodchan_create sod lab m1 m2 z draws role cfg = Some ctx"
    using create_succeeds [OF r assms(2,1), of z draws] by auto
  then have "ctx_state ctx = STATE_HELLO"
    by (rule sodchan_create_Some) (rule handshake_start_ok(1))
  with c show ?L by blast
qed

theorem create_fails_closed_witness:
  "sodchan_create sample_sodium False True True ([] :: bytes) 3 1 None = None
   \<and> (\<exists>c. sodchan_create sample_sodium False True True ([] :: bytes) 3 1 (Some sample_client) = Some c
        \<and> ctx_state c = STATE_HELLO)"
proof
  have "\<not> create_allowed sample_sodium False True True 1 None"
    by (simp add: create_allowed_def zero_config_def)
  then show "sodchan_create sample_sodium False True True ([] :: bytes) 3 1 None = None"
    using create_needs by (metis not_None_eq)
  show "\<exists>c. sodchan_create sample_sodium False True True ([] :: bytes) 3 1 (Some sample_client) = Some c
        \<and> ctx_state c = STATE_HELLO"
    unfolding create_fails_closed [OF sample_config_ok(1) sample_kx_keypair_law]
    by (simp add: create_allowed_def sample_client_def zero_config_def sample_sodium_def)
qed

lemma dead_call:
  assumes "ctx_state ctx = STATE_ERROR \<or> ctx_state ctx = STATE_CLOSED" and "call \<noteq> Reset"
  shows "(ctx_state (exec sod call ctx) = STATE_ERROR \<or> ctx_state (exec sod call ctx) = STATE_CLOSED)
    \<and> sodchan_feed_input sod d ctx = (0, ctx)
    \<and> (call \<notin> {Next_Event} \<union> range Get_Output \<longrightarrow>
         exec sod call ctx \<in> {ctx, ctx\<lparr> ctx_state := STATE_CLOSED \<rparr>})"
proof -
  have feed: "sodchan_feed_input sod d ctx = (0, ctx)" for d
    using assms(1) by (auto simp: sodchan_feed_input_def split: option.split)
  have st: "ctx_state ctx \<noteq> STATE_READY" "ctx_state ctx \<noteq> STATE_AUTH" "ctx_state ctx \<noteq> STATE_DRAINING"
    using assms(1) by auto
  have calls: "snd (sodchan_auth_decide_ex sod a cl ctx) = ctx" "snd (snd (sodchan_channel_open sod n ctx)) = ctx"
    "snd (sodchan_channel_accept sod k a ctx) = ctx" "snd (sodchan_channel_send sod m k dat ctx) = ctx"
    "snd (sodchan_channel_eof sod k ctx) = ctx" "snd (sodchan_channel_close sod k ctx) = ctx"
    "snd (sodchan_channel_window_adjust sod k w ctx) = ctx" for a cl n k m dat w
    using st by (simp_all add: sodchan_auth_decide_ex_def sodchan_channel_open_def sodchan_channel_accept_def
        sodchan_channel_send_def sodchan_channel_eof_def sodchan_channel_close_def
        sodchan_channel_window_adjust_def split: option.split)
  have disc: "snd (sodchan_disconnect sod r m ctx) \<in> {ctx, ctx\<lparr> ctx_state := STATE_CLOSED \<rparr>}" for r m
    using st by (simp add: sodchan_disconnect_def Let_def)
  have upd: "exec sod call ctx \<in> {ctx, ctx\<lparr> ctx_state := STATE_CLOSED \<rparr>}"
    if "call \<notin> {Next_Event} \<union> range Get_Output"
  proof (cases call)
    case (Disconnect_Call r m)
    show ?thesis unfolding Disconnect_Call exec.simps by (rule disc)
  next
    case (Get_Output b)
    with that show ?thesis by blast
  next
    case Next_Event
    with that show ?thesis by blast
  next
    case Reset
    with assms(2) show ?thesis by blast
  qed (simp_all only: exec.simps feed calls snd_conv insertI1)
  have "ctx_state (exec sod call ctx) = STATE_ERROR \<or> ctx_state (exec sod call ctx) = STATE_CLOSED"
  proof (cases "call \<in> {Next_Event} \<union> range Get_Output")
    case True
    then have "ctx_state (exec sod call ctx) = ctx_state ctx" by auto
    with assms(1) show ?thesis by simp
  next
    case False
    from upd [OF this] show ?thesis using assms(1) by (elim insertE) simp_all
  qed
  with feed upd show ?thesis by (intro conjI impI)
qed

lemmas dead_stays = dead_call [THEN conjunct1]

text \<open>
  C31. A dead session stays dead and silent. In ERROR and CLOSED no call but a
  reset leads back to a live state, no input is taken, and nothing new is queued:
  apart from reading what is queued, a call changes nothing but, for a disconnect,
  the state to CLOSED.
\<close>

theorem dead_session_silent:
  assumes "ctx_state ctx = STATE_ERROR \<or> ctx_state ctx = STATE_CLOSED" and "call \<noteq> Reset"
  shows "(ctx_state (exec sod call ctx) = STATE_ERROR \<or> ctx_state (exec sod call ctx) = STATE_CLOSED)
    \<and> sodchan_feed_input sod d ctx = (0, ctx)
    \<and> (call \<notin> {Next_Event} \<union> range Get_Output \<longrightarrow>
         exec sod call ctx \<in> {ctx, ctx\<lparr> ctx_state := STATE_CLOSED \<rparr>})"
  by (rule dead_call [OF assms])

theorem dead_session_silent_witness:
  "let c = (zero_ctx ([] :: bytes) ROLE_SERVER)\<lparr> ctx_state := STATE_ERROR \<rparr> in
   sodchan_feed_input sample_sodium (Some [2, 3]) c = (0, c)
     \<and> ctx_state (exec sample_sodium (Channel_Open (Some [97])) c) \<in> {STATE_ERROR, STATE_CLOSED}"
  using dead_session_silent [of "(zero_ctx ([] :: bytes) ROLE_SERVER)\<lparr> ctx_state := STATE_ERROR \<rparr>"
      "Channel_Open (Some [97])" sample_sodium "Some [2, 3]"]
  by (simp add: Let_def del: exec.simps)

end
