(* ===== verification/Input.thy ===== *)
theory Input
  imports Security
begin

text \<open>
  The input side as a stream: the loop never stalls while the session lives, and
  how the network cuts the stream into pieces makes no difference.
\<close>

section \<open>The loop stops only for want of input or at the end of the session\<close>

lemma dispatch_frame_error:
  assumes "dispatch_frame sod b ctx = (r, c)" and "r \<noteq> 0"
  shows "ctx_state c = STATE_ERROR"
proof -
  have mux: "ctx_state d = STATE_ERROR" if "handle_mux_pdu sod p x = (r, d)" for p d and x :: "'a sodchan_ctx"
    using mux_step_state [of sod x r d] handle_mux_pdu_step [of sod x p] that assms(2) by auto
  have enc: "ctx_state c = STATE_ERROR" if "handle_encrypted_pdu sod b ctx = (r, c)"
    using that assms(2) unfolding handle_encrypted_pdu_def Let_def
    by (auto split: if_splits option.splits sum.splits prod.splits dest: mux handle_auth_error)
  show ?thesis
    using assms(1) handle_peer_hello_error [of sod b ctx r c] handle_peer_ss_header_error [of sod b ctx r c]
      enc assms(2)
    by (auto simp: dispatch_frame_def split: if_splits)
qed

definition waiting :: "'ss sodchan_ctx \<Rightarrow> bool" where
  "waiting ctx \<longleftrightarrow> length (ctx_in_buf ctx) < 4 \<or> parse_frame ctx = Inl SODCHAN_ERR_FULL"

lemma process_input_waiting:
  "ctx_state (process_input sod ctx) \<noteq> STATE_ERROR \<Longrightarrow> ctx_state (process_input sod ctx) \<noteq> STATE_CLOSED \<Longrightarrow>
     waiting (process_input sod ctx)"
proof (induction sod ctx rule: process_input.induct)
  case (1 sod ctx)
  show ?case
  proof (cases "ctx_state ctx = STATE_ERROR \<or> ctx_state ctx = STATE_CLOSED \<or> length (ctx_in_buf ctx) < 4")
    case True
    then have "process_input sod ctx = ctx" by (subst process_input.simps) auto
    with True 1(2,3) show ?thesis by (auto simp: waiting_def)
  next
    case live: False
    show ?thesis
    proof (cases "parse_frame ctx")
      case (Inl e)
      with live have "process_input sod ctx = (if e = SODCHAN_ERR_FULL then ctx
          else sodchan_i_set_error SODCHAN_ERR_PROTOCOL ''frame parse error'' ctx)"
        by (subst process_input.simps) simp
      with Inl 1(2) show ?thesis by (auto simp: waiting_def split: if_splits)
    next
      case (Inr bn)
      obtain body n where parse: "parse_frame ctx = Inr (body, n)" using Inr by (cases bn) simp
      obtain r c where disp: "dispatch_frame sod body ctx = (r, c)" by (cases "dispatch_frame sod body ctx")
      have eq: "process_input sod ctx = (if r \<noteq> 0 then c
          else process_input sod (c\<lparr> ctx_in_buf := drop n (ctx_in_buf c) \<rparr>))"
        using live parse disp by (subst process_input.simps) simp
      have "r = 0" using 1(2) eq dispatch_frame_error [OF disp] by (auto split: if_splits)
      with eq 1(2,3) show ?thesis
        using 1(1) [OF _ _ parse refl disp [symmetric]] live by simp
    qed
  qed
qed

lemma waiting_room:
  assumes "waiting ctx"
  shows "length (ctx_in_buf ctx) < SODCHAN_IN_BUF_SIZE"
proof -
  have lim: "length d < SODCHAN_IN_BUF_SIZE"
    if "sodchan_wire_frame_parse_max (Some d) m = Inl SODCHAN_ERR_FULL" "4 + unat m \<le> SODCHAN_IN_BUF_SIZE"
    for d and m :: u32
  proof (cases "length d < 4")
    case True
    then show ?thesis by (simp add: SODCHAN_IN_BUF_SIZE_def)
  next
    case False
    with that(1) have "sodchan_wire_get_u32 d \<le> m" "length d < 4 + unat (sodchan_wire_get_u32 d)"
      by (auto simp: sodchan_wire_frame_parse_max_def Let_def split: if_splits)
    with that(2) show ?thesis by (simp add: word_le_nat_alt)
  qed
  have "4 + unat (ss_frame_max_body ctx) \<le> SODCHAN_IN_BUF_SIZE"
    using ss_frame_max_body_bound [of ctx] by (simp add: SODCHAN_IN_BUF_SIZE_def)
  moreover have "4 + unat SODCHAN_MAX_CLEAR_FRAME \<le> SODCHAN_IN_BUF_SIZE"
    by (simp add: SODCHAN_MAX_CLEAR_FRAME_def SODCHAN_IN_BUF_SIZE_def)
  ultimately show ?thesis
    using assms lim
    by (auto simp: waiting_def parse_frame_def sodchan_wire_frame_parse_def SODCHAN_IN_BUF_SIZE_def
        split: if_splits)
qed

section \<open>Between two feeds\<close>

definition live :: "'ss sodchan_ctx \<Rightarrow> bool" where
  "live ctx \<longleftrightarrow> ctx_state ctx \<noteq> STATE_ERROR \<and> ctx_state ctx \<noteq> STATE_CLOSED"

lemma waiting_cong:
  assumes "ctx_in_buf c = ctx_in_buf ctx" and "ctx_hs c = ctx_hs ctx"
    and "ctx_max_record_size c = ctx_max_record_size ctx"
  shows "waiting c = waiting ctx"
  using ss_frame_max_body_cong [OF assms(3)] by (simp add: waiting_def parse_frame_def assms)

lemma waiting_session: "session_part c = session_part ctx \<Longrightarrow> waiting c = waiting ctx"
  by (rule waiting_cong) (simp_all add: session_part_fields [of c ctx])

lemma feed_waiting:
  assumes "waiting ctx" and "live (snd (sodchan_feed_input sod d ctx))"
  shows "waiting (snd (sodchan_feed_input sod d ctx))"
  using assms process_input_waiting [of sod]
  by (auto simp: sodchan_feed_input_def Let_def live_def split: option.splits if_splits)

lemma decide_waiting:
  assumes "waiting ctx" and "live (snd (sodchan_auth_decide_ex sod acc cl ctx))"
  shows "waiting (snd (sodchan_auth_decide_ex sod acc cl ctx))"
proof (cases rule: auth_decide_ex_cases [of sod acc cl ctx])
  case (refused e)
  with assms show ?thesis by simp
next
  case (failed e c)
  with assms show ?thesis by (simp add: live_def)
next
  case (accepted claims c)
  let ?ctx = "ctx\<lparr> ctx_auth_awaiting_decide := False, ctx_auth_decided := True \<rparr>"
  have "session_part c = session_part ?ctx"
    using auth_sends_session_part(2) [of sod cl ?ctx] accepted(8) by simp
  then have "waiting c = waiting ?ctx" by (rule waiting_session)
  moreover have "waiting ?ctx = waiting ctx" by (rule waiting_cong) simp_all
  moreover have "waiting (snd (sodchan_auth_decide_ex sod acc cl ctx)) = waiting c"
    unfolding accepted(9) by (rule waiting_cong) simp_all
  ultimately show ?thesis using assms(1) by simp
qed

lemma reset_in_buf: "ctx_in_buf (sodchan_reset sod ctx) = []"
proof -
  have "\<exists>d. sodchan_reset sod ctx = snd (handshake_start sod d) \<and> ctx_in_buf d = []"
    by (auto simp: sodchan_reset_def Let_def)
  moreover have "ctx_in_buf (snd (handshake_start sod d)) = ctx_in_buf d" for d
    by (rule in_buf_fixed [OF keeps_fixed
          [OF handshake_start_keeps [OF surjective_pairing [of "handshake_start sod d"] keeps_refl]]])
  ultimately show ?thesis by auto
qed

lemma exec_waiting:
  assumes "waiting ctx" and "live (exec sod call ctx)"
  shows "waiting (exec sod call ctx)"
proof (cases call)
  case (Feed_Input d)
  with assms feed_waiting show ?thesis by simp
next
  case (Auth_Decide acc cl)
  with assms decide_waiting show ?thesis by simp
next
  case (Disconnect_Call r m)
  have "waiting (snd (sodchan_disconnect sod r m ctx)) = waiting ctx"
    by (rule waiting_cong) (simp_all add: sodchan_disconnect_def Let_def split: sum.split)
  with assms Disconnect_Call show ?thesis by simp
next
  case Reset
  then show ?thesis by (simp add: waiting_def reset_in_buf)
next
  case (Get_Output b)
  have "waiting (snd (sodchan_get_output b ctx)) = waiting ctx" by (rule waiting_cong) simp_all
  with assms Get_Output show ?thesis by simp
next
  case Next_Event
  have "waiting (snd (sodchan_next_event ctx)) = waiting ctx" by (rule waiting_cong) simp_all
  with assms Next_Event show ?thesis by simp
qed (use assms(1) in \<open>simp_all add: waiting_session [OF api_step_session_part [OF channel_open_step]]
    waiting_session [OF api_step_session_part [OF channel_accept_step]]
    waiting_session [OF api_step_session_part [OF channel_send_step]]
    waiting_session [OF api_step_session_part [OF channel_eof_step]]
    waiting_session [OF api_step_session_part [OF channel_close_step]]
    waiting_session [OF api_step_session_part [OF channel_window_adjust_step]]\<close>)

lemma exec_live: "live (exec sod call ctx) \<Longrightarrow> call = Reset \<or> live ctx"
proof (rule ccontr)
  assume l: "live (exec sod call ctx)" and "\<not> (call = Reset \<or> live ctx)"
  then have d: "ctx_state ctx = STATE_ERROR \<or> ctx_state ctx = STATE_CLOSED" and "call \<noteq> Reset"
    by (auto simp: live_def)
  from dead_stays [OF this] l show False by (auto simp: live_def)
qed

lemma create_in_buf:
  assumes "sodchan_create sod lab m1 m2 z draws role cfg = Some ctx"
  shows "ctx_in_buf ctx = []"
proof -
  from assms obtain d where hs: "handshake_start sod d = (SODCHAN_OK, ctx)"
    and d: "d = (let c = apply_config_defaults (case cfg of None \<Rightarrow> zero_config | Some x \<Rightarrow> x)
            ((zero_ctx z (if role = 0 then ROLE_SERVER else ROLE_CLIENT))\<lparr> ctx_draws := draws \<rparr>) in
          c\<lparr> ctx_event_cap := ctx_event_queue_size c, ctx_events := replicate (ctx_event_queue_size c) EVENT_NONE \<rparr>)"
    by (rule sodchan_create_Some)
  have "ctx_in_buf d = []" by (simp add: d Let_def apply_config_defaults_fields)
  then show ?thesis
    using in_buf_fixed [OF keeps_fixed [OF handshake_start_keeps [OF hs keeps_refl]]] by simp
qed

lemma reachable_waiting:
  assumes "reachable sod cfg ctx"
  shows "live ctx \<Longrightarrow> waiting ctx"
  using assms
proof induction
  case (created lab m1 m2 z draws role ctx)
  then show ?case by (simp add: waiting_def create_in_buf [OF created(1)])
next
  case (called ctx call)
  show ?case
  proof (cases "call = Reset")
    case True
    then show ?thesis by (simp add: waiting_def reset_in_buf)
  next
    case False
    with called exec_live exec_waiting show ?thesis by blast
  qed
qed

end
