(* ===== verification/Input_Frame.thy ===== *)
theory Input_Frame
  imports Session
begin

text \<open>
  The handlers neither read nor write the input buffer: replacing its contents
  commutes with every one of them. \<open>with_in d\<close> replaces the contents; the simp
  rules move it outwards through updates and operations.
\<close>

definition with_in :: "bytes \<Rightarrow> 'ss sodchan_ctx \<Rightarrow> 'ss sodchan_ctx" where
  "with_in d ctx = ctx\<lparr> ctx_in_buf := d \<rparr>"

lemma with_in_fields [simp]:
  "ctx_role (with_in d ctx) = ctx_role ctx" "ctx_state (with_in d ctx) = ctx_state ctx"
  "ctx_hs (with_in d ctx) = ctx_hs ctx" "ctx_error (with_in d ctx) = ctx_error ctx"
  "ctx_error_msg (with_in d ctx) = ctx_error_msg ctx"
  "ctx_event_queue_size (with_in d ctx) = ctx_event_queue_size ctx"
  "ctx_max_record_size (with_in d ctx) = ctx_max_record_size ctx"
  "ctx_max_channel_data (with_in d ctx) = ctx_max_channel_data ctx"
  "ctx_max_channels (with_in d ctx) = ctx_max_channels ctx"
  "ctx_initial_window (with_in d ctx) = ctx_initial_window ctx"
  "ctx_max_packet (with_in d ctx) = ctx_max_packet ctx"
  "ctx_accept_any_server_pk (with_in d ctx) = ctx_accept_any_server_pk ctx"
  "ctx_lab_mode (with_in d ctx) = ctx_lab_mode ctx"
  "ctx_client_id_pk (with_in d ctx) = ctx_client_id_pk ctx"
  "ctx_client_id_sk (with_in d ctx) = ctx_client_id_sk ctx"
  "ctx_server_id_pk (with_in d ctx) = ctx_server_id_pk ctx"
  "ctx_server_id_sk (with_in d ctx) = ctx_server_id_sk ctx"
  "ctx_have_client_id_pk (with_in d ctx) = ctx_have_client_id_pk ctx"
  "ctx_have_client_id_sk (with_in d ctx) = ctx_have_client_id_sk ctx"
  "ctx_have_server_id_pk (with_in d ctx) = ctx_have_server_id_pk ctx"
  "ctx_have_server_id_sk (with_in d ctx) = ctx_have_server_id_sk ctx"
  "ctx_eph_pk (with_in d ctx) = ctx_eph_pk ctx" "ctx_eph_sk (with_in d ctx) = ctx_eph_sk ctx"
  "ctx_peer_eph_pk (with_in d ctx) = ctx_peer_eph_pk ctx"
  "ctx_peer_id_pk (with_in d ctx) = ctx_peer_id_pk ctx"
  "ctx_have_peer_eph (with_in d ctx) = ctx_have_peer_eph ctx"
  "ctx_have_peer_id (with_in d ctx) = ctx_have_peer_id ctx"
  "ctx_ss_key_c2s (with_in d ctx) = ctx_ss_key_c2s ctx"
  "ctx_ss_key_s2c (with_in d ctx) = ctx_ss_key_s2c ctx"
  "ctx_ss_push (with_in d ctx) = ctx_ss_push ctx" "ctx_ss_pull (with_in d ctx) = ctx_ss_pull ctx"
  "ctx_ss_push_ready (with_in d ctx) = ctx_ss_push_ready ctx"
  "ctx_ss_pull_ready (with_in d ctx) = ctx_ss_pull_ready ctx"
  "ctx_t_hello (with_in d ctx) = ctx_t_hello ctx"
  "ctx_have_t_hello (with_in d ctx) = ctx_have_t_hello ctx"
  "ctx_auth_sent (with_in d ctx) = ctx_auth_sent ctx"
  "ctx_auth_awaiting_decide (with_in d ctx) = ctx_auth_awaiting_decide ctx"
  "ctx_auth_decided (with_in d ctx) = ctx_auth_decided ctx"
  "ctx_auth_complete (with_in d ctx) = ctx_auth_complete ctx"
  "ctx_channels (with_in d ctx) = ctx_channels ctx"
  "ctx_next_local_channel_id (with_in d ctx) = ctx_next_local_channel_id ctx"
  "ctx_active_channels (with_in d ctx) = ctx_active_channels ctx"
  "ctx_cfg_store_used (with_in d ctx) = ctx_cfg_store_used ctx"
  "ctx_allowed_channels (with_in d ctx) = ctx_allowed_channels ctx"
  "ctx_client_username (with_in d ctx) = ctx_client_username ctx"
  "ctx_client_device_id (with_in d ctx) = ctx_client_device_id ctx"
  "ctx_out_buf (with_in d ctx) = ctx_out_buf ctx" "ctx_out_off (with_in d ctx) = ctx_out_off ctx"
  "ctx_events (with_in d ctx) = ctx_events ctx" "ctx_event_cap (with_in d ctx) = ctx_event_cap ctx"
  "ctx_event_head (with_in d ctx) = ctx_event_head ctx"
  "ctx_event_count (with_in d ctx) = ctx_event_count ctx"
  "ctx_draws (with_in d ctx) = ctx_draws ctx"
  by (simp_all add: with_in_def)

lemma with_in_buf [simp]: "ctx_in_buf (with_in d ctx) = d" "with_in d (with_in e ctx) = with_in d ctx"
  by (simp_all add: with_in_def)

lemma with_in_upd [simp]:
  "ctx_role_update f_role (with_in d ctx) = with_in d (ctx_role_update f_role ctx)"
  "ctx_state_update f_state (with_in d ctx) = with_in d (ctx_state_update f_state ctx)"
  "ctx_hs_update f_hs (with_in d ctx) = with_in d (ctx_hs_update f_hs ctx)"
  "ctx_error_update f_error (with_in d ctx) = with_in d (ctx_error_update f_error ctx)"
  "ctx_error_msg_update f_error_msg (with_in d ctx) = with_in d (ctx_error_msg_update f_error_msg ctx)"
  "ctx_event_queue_size_update f_event_queue_size (with_in d ctx) = with_in d (ctx_event_queue_size_update f_event_queue_size ctx)"
  "ctx_max_record_size_update f_max_record_size (with_in d ctx) = with_in d (ctx_max_record_size_update f_max_record_size ctx)"
  "ctx_max_channel_data_update f_max_channel_data (with_in d ctx) = with_in d (ctx_max_channel_data_update f_max_channel_data ctx)"
  "ctx_max_channels_update f_max_channels (with_in d ctx) = with_in d (ctx_max_channels_update f_max_channels ctx)"
  "ctx_initial_window_update f_initial_window (with_in d ctx) = with_in d (ctx_initial_window_update f_initial_window ctx)"
  "ctx_max_packet_update f_max_packet (with_in d ctx) = with_in d (ctx_max_packet_update f_max_packet ctx)"
  "ctx_accept_any_server_pk_update f_accept_any_server_pk (with_in d ctx) = with_in d (ctx_accept_any_server_pk_update f_accept_any_server_pk ctx)"
  "ctx_lab_mode_update f_lab_mode (with_in d ctx) = with_in d (ctx_lab_mode_update f_lab_mode ctx)"
  "ctx_client_id_pk_update f_client_id_pk (with_in d ctx) = with_in d (ctx_client_id_pk_update f_client_id_pk ctx)"
  "ctx_client_id_sk_update f_client_id_sk (with_in d ctx) = with_in d (ctx_client_id_sk_update f_client_id_sk ctx)"
  "ctx_server_id_pk_update f_server_id_pk (with_in d ctx) = with_in d (ctx_server_id_pk_update f_server_id_pk ctx)"
  "ctx_server_id_sk_update f_server_id_sk (with_in d ctx) = with_in d (ctx_server_id_sk_update f_server_id_sk ctx)"
  "ctx_have_client_id_pk_update f_have_client_id_pk (with_in d ctx) = with_in d (ctx_have_client_id_pk_update f_have_client_id_pk ctx)"
  "ctx_have_client_id_sk_update f_have_client_id_sk (with_in d ctx) = with_in d (ctx_have_client_id_sk_update f_have_client_id_sk ctx)"
  "ctx_have_server_id_pk_update f_have_server_id_pk (with_in d ctx) = with_in d (ctx_have_server_id_pk_update f_have_server_id_pk ctx)"
  "ctx_have_server_id_sk_update f_have_server_id_sk (with_in d ctx) = with_in d (ctx_have_server_id_sk_update f_have_server_id_sk ctx)"
  "ctx_eph_pk_update f_eph_pk (with_in d ctx) = with_in d (ctx_eph_pk_update f_eph_pk ctx)"
  "ctx_eph_sk_update f_eph_sk (with_in d ctx) = with_in d (ctx_eph_sk_update f_eph_sk ctx)"
  "ctx_peer_eph_pk_update f_peer_eph_pk (with_in d ctx) = with_in d (ctx_peer_eph_pk_update f_peer_eph_pk ctx)"
  "ctx_peer_id_pk_update f_peer_id_pk (with_in d ctx) = with_in d (ctx_peer_id_pk_update f_peer_id_pk ctx)"
  "ctx_have_peer_eph_update f_have_peer_eph (with_in d ctx) = with_in d (ctx_have_peer_eph_update f_have_peer_eph ctx)"
  "ctx_have_peer_id_update f_have_peer_id (with_in d ctx) = with_in d (ctx_have_peer_id_update f_have_peer_id ctx)"
  "ctx_ss_key_c2s_update f_ss_key_c2s (with_in d ctx) = with_in d (ctx_ss_key_c2s_update f_ss_key_c2s ctx)"
  "ctx_ss_key_s2c_update f_ss_key_s2c (with_in d ctx) = with_in d (ctx_ss_key_s2c_update f_ss_key_s2c ctx)"
  "ctx_ss_push_update f_ss_push (with_in d ctx) = with_in d (ctx_ss_push_update f_ss_push ctx)"
  "ctx_ss_pull_update f_ss_pull (with_in d ctx) = with_in d (ctx_ss_pull_update f_ss_pull ctx)"
  "ctx_ss_push_ready_update f_ss_push_ready (with_in d ctx) = with_in d (ctx_ss_push_ready_update f_ss_push_ready ctx)"
  "ctx_ss_pull_ready_update f_ss_pull_ready (with_in d ctx) = with_in d (ctx_ss_pull_ready_update f_ss_pull_ready ctx)"
  "ctx_t_hello_update f_t_hello (with_in d ctx) = with_in d (ctx_t_hello_update f_t_hello ctx)"
  "ctx_have_t_hello_update f_have_t_hello (with_in d ctx) = with_in d (ctx_have_t_hello_update f_have_t_hello ctx)"
  "ctx_auth_sent_update f_auth_sent (with_in d ctx) = with_in d (ctx_auth_sent_update f_auth_sent ctx)"
  "ctx_auth_awaiting_decide_update f_auth_awaiting_decide (with_in d ctx) = with_in d (ctx_auth_awaiting_decide_update f_auth_awaiting_decide ctx)"
  "ctx_auth_decided_update f_auth_decided (with_in d ctx) = with_in d (ctx_auth_decided_update f_auth_decided ctx)"
  "ctx_auth_complete_update f_auth_complete (with_in d ctx) = with_in d (ctx_auth_complete_update f_auth_complete ctx)"
  "ctx_channels_update f_channels (with_in d ctx) = with_in d (ctx_channels_update f_channels ctx)"
  "ctx_next_local_channel_id_update f_next_local_channel_id (with_in d ctx) = with_in d (ctx_next_local_channel_id_update f_next_local_channel_id ctx)"
  "ctx_active_channels_update f_active_channels (with_in d ctx) = with_in d (ctx_active_channels_update f_active_channels ctx)"
  "ctx_cfg_store_used_update f_cfg_store_used (with_in d ctx) = with_in d (ctx_cfg_store_used_update f_cfg_store_used ctx)"
  "ctx_allowed_channels_update f_allowed_channels (with_in d ctx) = with_in d (ctx_allowed_channels_update f_allowed_channels ctx)"
  "ctx_client_username_update f_client_username (with_in d ctx) = with_in d (ctx_client_username_update f_client_username ctx)"
  "ctx_client_device_id_update f_client_device_id (with_in d ctx) = with_in d (ctx_client_device_id_update f_client_device_id ctx)"
  "ctx_out_buf_update f_out_buf (with_in d ctx) = with_in d (ctx_out_buf_update f_out_buf ctx)"
  "ctx_out_off_update f_out_off (with_in d ctx) = with_in d (ctx_out_off_update f_out_off ctx)"
  "ctx_events_update f_events (with_in d ctx) = with_in d (ctx_events_update f_events ctx)"
  "ctx_event_cap_update f_event_cap (with_in d ctx) = with_in d (ctx_event_cap_update f_event_cap ctx)"
  "ctx_event_head_update f_event_head (with_in d ctx) = with_in d (ctx_event_head_update f_event_head ctx)"
  "ctx_event_count_update f_event_count (with_in d ctx) = with_in d (ctx_event_count_update f_event_count ctx)"
  "ctx_draws_update f_draws (with_in d ctx) = with_in d (ctx_draws_update f_draws ctx)"
  by (simp_all add: with_in_def)

section \<open>Buffers and records\<close>

lemma with_in_emit [simp]: "emit ev (with_in d ctx) = with_in d (emit ev ctx)"
  by (simp add: emit_def sodchan_i_queue_event_def Let_def)

lemma with_in_set_error [simp]: "sodchan_i_set_error c m (with_in d ctx) = with_in d (sodchan_i_set_error c m ctx)"
  by (simp add: sodchan_i_set_error_def Let_def)

lemma with_in_compact [simp]: "out_compact (with_in d ctx) = with_in d (out_compact ctx)"
  by (simp add: out_compact_def)

lemma with_in_append [simp]: "out_append p (with_in d ctx) = map_prod id (with_in d) (out_append p ctx)"
  by (simp add: out_append_def Let_def)

lemma with_in_append_frame [simp]:
  "out_append_frame p (with_in d ctx) = map_prod id (with_in d) (out_append_frame p ctx)"
  by (simp add: out_append_frame_def split: sum.split)

lemma with_in_max_body [simp]: "ss_frame_max_body (with_in d ctx) = ss_frame_max_body ctx"
  by (simp add: ss_frame_max_body_def)

lemma with_in_send [simp]: "ss_send_pdu sod p (with_in d ctx) = map_prod id (with_in d) (ss_send_pdu sod p ctx)"
  by (simp add: ss_send_pdu_def Let_def split: option.split)

section \<open>Channels\<close>

lemma with_in_channels [simp]:
  "ch_by_local k (with_in d ctx) = ch_by_local k ctx"
  "ch_set i c (with_in d ctx) = with_in d (ch_set i c ctx)"
  "ch_free i (with_in d ctx) = with_in d (ch_free i ctx)"
  "ch_alloc (with_in d ctx) = map_prod id (with_in d) (ch_alloc ctx)"
  "channel_name_allowed n (with_in d ctx) = channel_name_allowed n ctx"
  by (simp_all add: ch_by_local_def ch_set_def ch_free_def ch_alloc_def channel_name_allowed_def Let_def
      split: option.split)

lemma with_in_mux_handlers [simp]:
  "handle_channel_open_confirm p (with_in d ctx) = map_prod id (with_in d) (handle_channel_open_confirm p ctx)"
  "handle_channel_open_fail p (with_in d ctx) = map_prod id (with_in d) (handle_channel_open_fail p ctx)"
  "handle_channel_data p (with_in d ctx) = map_prod id (with_in d) (handle_channel_data p ctx)"
  "handle_channel_window p (with_in d ctx) = map_prod id (with_in d) (handle_channel_window p ctx)"
  "handle_channel_eof p (with_in d ctx) = map_prod id (with_in d) (handle_channel_eof p ctx)"
  "handle_channel_close p (with_in d ctx) = map_prod id (with_in d) (handle_channel_close p ctx)"
  "handle_ping sod p (with_in d ctx) = map_prod id (with_in d) (handle_ping sod p ctx)"
  "handle_disconnect p (with_in d ctx) = map_prod id (with_in d) (handle_disconnect p ctx)"
  by (simp_all add: mux_handler_defs Let_def split: sum.split option.split prod.split)

lemma with_in_channel_open [simp]:
  "handle_channel_open sod p (with_in d ctx) = map_prod id (with_in d) (handle_channel_open sod p ctx)"
  by (cases "ch_alloc ctx") (auto simp: handle_channel_open_def Let_def split: sum.split option.split)

lemma with_in_mux [simp]: "handle_mux_pdu sod p (with_in d ctx) = map_prod id (with_in d) (handle_mux_pdu sod p ctx)"
  by (simp add: handle_mux_pdu_def Let_def)

section \<open>Authentication and handshake\<close>

lemma with_in_auth [simp]:
  "client_send_auth_device sod (with_in d ctx) = map_prod id (with_in d) (client_send_auth_device sod ctx)"
  "server_send_auth_fail sod (with_in d ctx) = map_prod id (with_in d) (server_send_auth_fail sod ctx)"
  "handle_auth_ok_pdu p (with_in d ctx) = map_prod id (with_in d) (handle_auth_ok_pdu p ctx)"
  "handle_auth_fail_pdu p (with_in d ctx) = map_prod id (with_in d) (handle_auth_fail_pdu p ctx)"
  by (simp_all add: client_send_auth_device_def server_send_auth_fail_def handle_auth_ok_pdu_def
      handle_auth_fail_pdu_def emit_authenticated_def emit_auth_failed_def Let_def case_prod_unfold
      split: sum.split option.split)

lemma with_in_auth_device [simp]:
  "handle_auth_device_pdu sod p (with_in d ctx) = map_prod id (with_in d) (handle_auth_device_pdu sod p ctx)"
  by (simp add: handle_auth_device_pdu_def emit_auth_failed_def Let_def split: sum.split)

lemma with_in_keys [simp]:
  "derive_ss_keys_client sod (with_in d ctx) = map_prod id (with_in d) (derive_ss_keys_client sod ctx)"
  "derive_ss_keys_server sod (with_in d ctx) = map_prod id (with_in d) (derive_ss_keys_server sod ctx)"
  "client_send_ss_header_c2s sod (with_in d ctx) = map_prod id (with_in d) (client_send_ss_header_c2s sod ctx)"
  "server_send_ss_header_s2c sod (with_in d ctx) = map_prod id (with_in d) (server_send_ss_header_s2c sod ctx)"
  "emit_hello_received (with_in d ctx) = with_in d (emit_hello_received ctx)"
  "emit_kx_complete (with_in d ctx) = with_in d (emit_kx_complete ctx)"
  by (simp_all add: derive_ss_keys_client_def derive_ss_keys_server_def client_send_ss_header_c2s_def
      server_send_ss_header_s2c_def emit_hello_received_def emit_kx_complete_def Let_def case_prod_unfold
      split: sum.split option.split)

lemma with_in_queue_hello [simp]:
  "queue_local_hello sod (with_in d ctx) = map_prod id (with_in d) (queue_local_hello sod ctx)"
  by (simp add: queue_local_hello_def Let_def split: sum.split option.split)

lemma with_in_hello [simp]:
  "handle_client_hello sod h (with_in d ctx) = map_prod id (with_in d) (handle_client_hello sod h ctx)"
  "handle_server_hello sod h (with_in d ctx) = map_prod id (with_in d) (handle_server_hello sod h ctx)"
  by (simp_all add: handle_client_hello_def handle_server_hello_def Let_def case_prod_unfold split: sum.split)

lemma with_in_handshake [simp]:
  "handle_peer_hello sod b (with_in d ctx) = map_prod id (with_in d) (handle_peer_hello sod b ctx)"
  "handle_peer_ss_header sod b (with_in d ctx) = map_prod id (with_in d) (handle_peer_ss_header sod b ctx)"
  by (simp_all add: handle_peer_hello_def handle_peer_ss_header_def case_prod_unfold split: sum.split option.split)

section \<open>Dispatch\<close>

lemma with_in_encrypted [simp]:
  "handle_encrypted_pdu sod ct (with_in d ctx) = map_prod id (with_in d) (handle_encrypted_pdu sod ct ctx)"
  by (simp add: handle_encrypted_pdu_def Let_def split: sum.split option.split)

lemma with_in_dispatch [simp]:
  "dispatch_frame sod b (with_in d ctx) = map_prod id (with_in d) (dispatch_frame sod b ctx)"
  by (simp add: dispatch_frame_def)

end
