(* ===== verification/Input_Stream.thy ===== *)
theory Input_Stream
  imports Input Input_Frame
begin

text \<open>
  The input as one stream. Appending bytes commutes with processing what is there
  already, so the way the network cuts the stream into pieces makes no
  difference to the session; \<open>feed_all\<close> is the host's loop that offers again
  what a call did not take.
\<close>

section \<open>Appending to the input buffer\<close>

definition add_in :: "bytes \<Rightarrow> 'ss sodchan_ctx \<Rightarrow> 'ss sodchan_ctx" where
  "add_in e ctx = with_in (ctx_in_buf ctx @ e) ctx"

lemma add_in_fields [simp]:
  "ctx_state (add_in e ctx) = ctx_state ctx" "ctx_hs (add_in e ctx) = ctx_hs ctx"
  "ctx_in_buf (add_in e ctx) = ctx_in_buf ctx @ e" "live (add_in e ctx) = live ctx"
  by (simp_all add: add_in_def live_def)

lemma add_in_add_in [simp]: "add_in e (add_in d ctx) = add_in (d @ e) ctx"
  by (simp add: add_in_def)

lemma with_in_add_in [simp]: "with_in d (add_in e ctx) = with_in d ctx"
  by (simp add: add_in_def)

lemma add_in_Nil [simp]: "add_in [] ctx = ctx"
  by (simp add: add_in_def with_in_def)

lemma parse_frame_add_in:
  assumes "parse_frame ctx \<noteq> Inl SODCHAN_ERR_FULL"
  shows "parse_frame (add_in e ctx) = parse_frame ctx"
  using assms frame_parse_stable
  by (auto simp: parse_frame_def sodchan_wire_frame_parse_def add_in_def split: if_splits)

lemma dispatch_frame_add_in:
  assumes "dispatch_frame sod b ctx = (r, c)"
  shows "dispatch_frame sod b (add_in e ctx) = (r, add_in e c)"
  using assms in_buf_fixed [OF dispatch_frame_fixed [OF assms]] by (simp add: add_in_def)

lemma process_input_dead: "\<not> live ctx \<Longrightarrow> process_input sod ctx = ctx"
  by (subst process_input.simps) (auto simp: live_def)

lemma process_input_idle: "waiting ctx \<Longrightarrow> process_input sod ctx = ctx"
  by (subst process_input.simps) (auto simp: waiting_def)

lemma process_input_step:
  assumes "live ctx" "4 \<le> length (ctx_in_buf ctx)" "parse_frame ctx = Inr (body, n)"
    and "dispatch_frame sod body ctx = (r, c)"
  shows "process_input sod ctx
    = (if r \<noteq> 0 then c else process_input sod (c\<lparr> ctx_in_buf := drop n (ctx_in_buf c) \<rparr>))"
  using assms by (subst process_input.simps) (auto simp: live_def)

lemma process_input_garbled:
  assumes "live ctx" "4 \<le> length (ctx_in_buf ctx)" "parse_frame ctx = Inl e" "e \<noteq> SODCHAN_ERR_FULL"
  shows "process_input sod ctx = sodchan_i_set_error SODCHAN_ERR_PROTOCOL ''frame parse error'' ctx"
  using assms by (subst process_input.simps) (auto simp: live_def)

text \<open>The central fact: processing a prefix first changes nothing.\<close>

lemma process_input_append:
  "process_input sod (add_in e ctx) = process_input sod (add_in e (process_input sod ctx))"
proof (induction sod ctx rule: process_input.induct)
  case (1 sod ctx)
  show ?case
  proof (cases "live ctx \<and> \<not> waiting ctx")
    case False
    then have "process_input sod ctx = ctx" using process_input_dead process_input_idle by blast
    then show ?thesis by simp
  next
    case True
    then have l: "live ctx" "4 \<le> length (ctx_in_buf ctx)" and full: "parse_frame ctx \<noteq> Inl SODCHAN_ERR_FULL"
      by (auto simp: waiting_def)
    have l': "live (add_in e ctx)" "4 \<le> length (ctx_in_buf (add_in e ctx))" using l by simp_all
    note parse' = parse_frame_add_in [OF full, of e]
    show ?thesis
    proof (cases "parse_frame ctx")
      case (Inl err)
      with full have err: "err \<noteq> SODCHAN_ERR_FULL" by simp
      let ?d = "sodchan_i_set_error SODCHAN_ERR_PROTOCOL ''frame parse error'' ctx"
      have "process_input sod (add_in e ctx) = add_in e ?d"
        using process_input_garbled [OF l' _ err, of sod] parse' Inl by (simp add: add_in_def)
      moreover have "process_input sod (add_in e ?d) = add_in e ?d"
        by (rule process_input_dead) (simp add: live_def)
      ultimately show ?thesis using process_input_garbled [OF l Inl err, of sod] by simp
    next
      case (Inr bn)
      obtain body n where parse: "parse_frame ctx = Inr (body, n)" using Inr by (cases bn) simp
      obtain r c where disp: "dispatch_frame sod body ctx = (r, c)" by (cases "dispatch_frame sod body ctx")
      note step = process_input_step [OF l parse disp]
      note step' = process_input_step [OF l' parse' [unfolded parse] dispatch_frame_add_in [OF disp]]
      show ?thesis
      proof (cases "r = 0")
        case False
        then have "\<not> live (add_in e c)" using dispatch_frame_error [OF disp] by (simp add: live_def)
        with False step step' show ?thesis by (simp add: process_input_dead)
      next
        case r: True
        let ?c = "c\<lparr> ctx_in_buf := drop n (ctx_in_buf c) \<rparr>"
        have "n \<le> length (ctx_in_buf c)"
          using parse_frame_consumes [OF parse] in_buf_fixed [OF dispatch_frame_fixed [OF disp]] by simp
        then have "(add_in e c)\<lparr> ctx_in_buf := drop n (ctx_in_buf (add_in e c)) \<rparr> = add_in e ?c"
          by (simp add: add_in_def with_in_def)
        moreover have "process_input sod (add_in e ?c) = process_input sod (add_in e (process_input sod ?c))"
          using 1 [OF _ _ parse refl disp [symmetric]] l r by (simp add: live_def)
        ultimately show ?thesis using r step step' by simp
      qed
    qed
  qed
qed

section \<open>One call\<close>

text \<open>
  C12. Input never stalls. In every reachable context whose session lives, a call
  with at least one byte takes at least one, as many as the buffer has room for,
  and afterwards either the session has ended or every complete frame has been
  dealt with: what is left is less than one frame.
\<close>

theorem input_never_stalls:
  assumes "reachable sod cfg ctx" and "live ctx" and "d \<noteq> []"
    and "sodchan_feed_input sod (Some d) ctx = (n, ctx')"
  shows "n = min (length d) (SODCHAN_IN_BUF_SIZE - length (ctx_in_buf ctx)) \<and> 0 < n
    \<and> (live ctx' \<longrightarrow> length (ctx_in_buf ctx') < 4 \<or> parse_frame ctx' = Inl SODCHAN_ERR_FULL)"
proof -
  have w: "waiting ctx" by (rule reachable_waiting [OF assms(1,2)])
  from assms(2-4) waiting_room [OF w]
  have "n = min (length d) (SODCHAN_IN_BUF_SIZE - length (ctx_in_buf ctx)) \<and> 0 < n"
    by (auto simp: sodchan_feed_input_def live_def Let_def split: if_splits)
  moreover have "live ctx' \<longrightarrow> waiting ctx'"
    using feed_waiting [OF w, of sod "Some d"] assms(4) by simp
  ultimately show ?thesis unfolding waiting_def by blast
qed

theorem input_never_stalls_witness:
  "\<exists>ctx n. reachable sample_sodium (Some sample_server) ctx
     \<and> sodchan_feed_input sample_sodium (Some [0, 0]) ctx = (n, snd (sodchan_feed_input sample_sodium (Some [0, 0]) ctx))
     \<and> 0 < n"
proof -
  obtain c s where r: "reachable sample_sodium (Some sample_server) s"
    and u: "session_up (=) (replicate 32 3) (replicate 32 2) c s" by (rule sample_session)
  from u have "live s" by (simp add: session_up_def live_def)
  from input_never_stalls [OF r this, of "[0, 0]" _ "snd (sodchan_feed_input sample_sodium (Some [0, 0]) s)"] r
  show ?thesis by (metis list.distinct(1) prod.collapse)
qed

section \<open>The stream\<close>

text \<open>The host offers \<open>d\<close>, and what was not taken again, until nothing is taken.\<close>

function feed_all :: "('ss, 'gh) sodium \<Rightarrow> bytes \<Rightarrow> 'ss sodchan_ctx \<Rightarrow> 'ss sodchan_ctx" where
  "feed_all sod d ctx =
     (if d = [] then ctx
      else case sodchan_feed_input sod (Some d) ctx of (n, c) \<Rightarrow>
        if n = 0 then c else feed_all sod (drop n d) c)"
  by pat_completeness auto
termination by (relation "measure (\<lambda>(sod, d, ctx). length d)") auto

declare feed_all.simps [simp del]

text \<open>Alike: equal, except that the input left unread by an ended session may differ.\<close>

definition alike :: "'ss sodchan_ctx \<Rightarrow> 'ss sodchan_ctx \<Rightarrow> bool" where
  "alike a b \<longleftrightarrow> (if live a then a = b else with_in [] a = with_in [] b)"

lemma with_in_live: "with_in d a = with_in d b \<Longrightarrow> live a = live b"
  by (metis live_def with_in_fields(2))

lemma alike_trans: "alike a b \<Longrightarrow> alike b c \<Longrightarrow> alike a c"
  by (auto simp: alike_def dest: with_in_live split: if_splits)

lemma alike_sym: "alike a b \<Longrightarrow> alike b a"
  by (auto simp: alike_def dest: with_in_live split: if_splits)

definition settled :: "'ss sodchan_ctx \<Rightarrow> bool" where
  "settled ctx \<longleftrightarrow> (live ctx \<longrightarrow> waiting ctx)"

lemma process_input_settled: "settled (process_input sod ctx)"
  using process_input_waiting [of sod ctx] by (auto simp: settled_def live_def)

lemma feed_settled:
  assumes "settled ctx" "live ctx" "d \<noteq> []" "sodchan_feed_input sod (Some d) ctx = (n, c)"
  shows "0 < n" and "c = process_input sod (add_in (take n d) ctx)"
proof -
  from assms(1,2) have "length (ctx_in_buf ctx) < SODCHAN_IN_BUF_SIZE" by (simp add: settled_def waiting_room)
  with assms(2-4) show "0 < n" "c = process_input sod (add_in (take n d) ctx)"
    by (auto simp: sodchan_feed_input_def live_def Let_def add_in_def with_in_def split: if_splits)
qed

lemma feed_all_stream:
  "settled ctx \<Longrightarrow> alike (feed_all sod d ctx) (process_input sod (add_in d ctx)) \<and> settled (feed_all sod d ctx)"
proof (induction sod d ctx rule: feed_all.induct)
  case (1 sod d ctx)
  obtain n c where f: "sodchan_feed_input sod (Some d) ctx = (n, c)" by (cases "sodchan_feed_input sod (Some d) ctx")
  show ?case
  proof (cases "d = [] \<or> \<not> live ctx")
    case True
    then have "feed_all sod d ctx = ctx"
      by (subst feed_all.simps) (auto simp: sodchan_feed_input_def live_def split: prod.split)
    moreover have "alike ctx (process_input sod (add_in d ctx))"
    proof (cases "live ctx")
      case False
      then show ?thesis by (simp add: process_input_dead alike_def)
    next
      case live: True
      with True 1(2) have "process_input sod (add_in d ctx) = ctx"
        by (simp add: settled_def process_input_idle)
      then show ?thesis by (simp add: alike_def)
    qed
    ultimately show ?thesis using 1(2) by simp
  next
    case False
    then have d: "d \<noteq> []" and l: "live ctx" by auto
    note n = feed_settled [OF 1(2) l d f]
    have "feed_all sod d ctx = feed_all sod (drop n d) c"
      using n(1) d by (subst feed_all.simps) (simp add: f)
    moreover have "process_input sod (add_in d ctx) = process_input sod (add_in (drop n d) c)"
      unfolding n(2) by (subst process_input_append [symmetric]) simp
    moreover have "settled c" unfolding n(2) by (rule process_input_settled)
    ultimately show ?thesis using 1(1) [OF d f [symmetric]] n(1) by simp
  qed
qed

lemma alike_add_in: "alike a b \<Longrightarrow> alike (process_input sod (add_in d a)) (process_input sod (add_in d b))"
  by (cases "live a") (auto simp: alike_def process_input_dead dest: with_in_live)

lemma feed_chunks_stream:
  "settled ctx \<Longrightarrow> alike (foldl (\<lambda>c d. feed_all sod d c) ctx ds) (process_input sod (add_in (concat ds) ctx))"
proof (induction ds arbitrary: ctx)
  case Nil
  then show ?case
    using feed_all_stream [of ctx sod "[]"] by (simp add: feed_all.simps)
next
  case (Cons d ds)
  note s = feed_all_stream [OF Cons.prems, of sod d]
  have "alike (process_input sod (add_in (concat ds) (feed_all sod d ctx)))
      (process_input sod (add_in (concat ds) (process_input sod (add_in d ctx))))"
    using s by (simp add: alike_add_in)
  then have "alike (process_input sod (add_in (concat ds) (feed_all sod d ctx)))
      (process_input sod (add_in (d @ concat ds) ctx))"
    by (simp flip: process_input_append)
  with Cons.IH [of "feed_all sod d ctx"] s show ?case by (auto intro: alike_trans)
qed

text \<open>
  C11. The cut of the input stream does not matter. Whatever pieces a stream
  arrives in, and however often the host has to offer bytes again, the session
  ends in the same context: the same state, keys, channels, events and output.
  Only the unread bytes that an ended session ignores can differ.
\<close>

theorem input_chunking_irrelevant:
  assumes "reachable sod cfg ctx" and "concat ds = concat es"
    and "a = foldl (\<lambda>c d. feed_all sod d c) ctx ds" and "b = foldl (\<lambda>c d. feed_all sod d c) ctx es"
  shows "with_in [] a = with_in [] b
    \<and> (ctx_state a \<noteq> STATE_ERROR \<and> ctx_state a \<noteq> STATE_CLOSED \<longrightarrow> a = b)"
proof -
  have s: "settled ctx" using reachable_waiting [OF assms(1)] by (simp add: settled_def)
  have al: "alike a b"
    unfolding assms(3,4)
    by (rule alike_trans [OF feed_chunks_stream [OF s] alike_sym [OF feed_chunks_stream [OF s, of sod es,
            folded assms(2)]]])
  show ?thesis
  proof (cases "live a")
    case True
    with al have "a = b" by (simp add: alike_def)
    then show ?thesis by simp
  next
    case False
    with al show ?thesis by (simp add: alike_def live_def)
  qed
qed

theorem input_chunking_irrelevant_witness:
  "\<exists>s. reachable sample_sodium (Some sample_server) s
     \<and> with_in [] (feed_all sample_sodium [3] (feed_all sample_sodium [0, 0, 0] s))
       = with_in [] (feed_all sample_sodium [0, 0, 0, 3] s)"
proof -
  obtain c s where r: "reachable sample_sodium (Some sample_server) s"
    and "session_up (=) (replicate 32 3) (replicate 32 2) c s" by (rule sample_session)
  with input_chunking_irrelevant [OF r, of "[[0, 0, 0], [3]]" "[[0, 0, 0, 3]]"] show ?thesis by auto
qed

section \<open>How long the loop runs\<close>

text \<open>The loop of \<^verbatim>\<open>process_input\<close> with its passes counted: \<open>None\<close> when they do not suffice.\<close>

primrec process_passes :: "('ss, 'gh) sodium \<Rightarrow> nat \<Rightarrow> 'ss sodchan_ctx \<Rightarrow> 'ss sodchan_ctx option" where
  "process_passes sod 0 ctx = None"
| "process_passes sod (Suc n) ctx =
     (if ctx_state ctx = STATE_ERROR \<or> ctx_state ctx = STATE_CLOSED then Some ctx
      else if length (ctx_in_buf ctx) < 4 then Some ctx
      else
        (case parse_frame ctx of
           Inl e \<Rightarrow>
             if e = SODCHAN_ERR_FULL then Some ctx
             else Some (sodchan_i_set_error SODCHAN_ERR_PROTOCOL ''frame parse error'' ctx)
         | Inr (body, consumed) \<Rightarrow>
             (case dispatch_frame sod body ctx of
                (r, ctx') \<Rightarrow>
                  if r \<noteq> 0 then Some ctx'
                  else process_passes sod n (ctx'\<lparr> ctx_in_buf := drop consumed (ctx_in_buf ctx') \<rparr>))))"

lemma parse_frame_five:
  assumes "parse_frame ctx = Inr (body, n)"
  shows "5 \<le> n" and "n \<le> length (ctx_in_buf ctx)"
proof -
  from assms obtain m where "sodchan_wire_frame_parse_max (Some (ctx_in_buf ctx)) m = Inr (body, n)"
    by (cases "ctx_hs ctx = HS_DONE") (auto simp: parse_frame_def sodchan_wire_frame_parse_def)
  from frame_parse_Inr [OF this] show "5 \<le> n" "n \<le> length (ctx_in_buf ctx)"
    by (auto simp: frame_ok_def Suc_le_eq)
qed

text \<open>
  C33. The input loop is short. Every pass takes at least five bytes off the input
  buffer, so one more pass than a fifth of the buffered bytes always suffices; with
  a full buffer these are 26215 passes.
\<close>

theorem input_loop_bound:
  assumes "length (ctx_in_buf ctx) < 5 * n"
  shows "process_passes sod n ctx = Some (process_input sod ctx)"
  using assms
proof (induction n arbitrary: ctx)
  case (Suc n)
  have "process_passes sod n (c\<lparr> ctx_in_buf := drop m (ctx_in_buf c) \<rparr>)
      = Some (process_input sod (c\<lparr> ctx_in_buf := drop m (ctx_in_buf c) \<rparr>))"
    if "parse_frame ctx = Inr (b, m)" "dispatch_frame sod b ctx = (r, c)" for b m r c
  proof (rule Suc.IH)
    have "length (ctx_in_buf ctx) - m < 5 * n" using Suc.prems parse_frame_five [OF that(1)] by simp
    then show "length (ctx_in_buf (c\<lparr> ctx_in_buf := drop m (ctx_in_buf c) \<rparr>)) < 5 * n"
      using in_buf_fixed [OF dispatch_frame_fixed [OF that(2)]] by simp
  qed
  then show ?case
    by (subst process_input.simps) (simp split: sum.split prod.split)
qed simp

theorem input_loop_bound_witness:
  "process_passes sample_sodium 1 ((zero_ctx ([] :: bytes) ROLE_SERVER)\<lparr> ctx_state := STATE_HELLO, ctx_in_buf := [0, 0, 0] \<rparr>)
   = Some (process_input sample_sodium
       ((zero_ctx ([] :: bytes) ROLE_SERVER)\<lparr> ctx_state := STATE_HELLO, ctx_in_buf := [0, 0, 0] \<rparr>))"
  by (rule input_loop_bound) simp

end
