(* ===== verification/Auth_Failure.thy ===== *)
theory Auth_Failure
  imports Security
begin

text \<open>
  What a client that is turned away can learn: the server's answer to a bad
  device signature and its answer to a key that the host rejects are the same.
\<close>

section \<open>The answer on the wire\<close>

definition auth_fail_bytes :: bytes where
  "auth_fail_bytes = [SODCHAN_PDU_AUTH_FAIL, SODCHAN_AUTH_FAIL_UNSPEC, 0]"

lemma server_send_auth_fail_eq: "server_send_auth_fail sod ctx = ss_send_pdu sod (Some auth_fail_bytes) ctx"
  by (simp add: server_send_auth_fail_def sodchan_wire_auth_fail_encode_def auth_fail_bytes_def)

text \<open>The three ways an AUTH_DEVICE message can end.\<close>

lemma handle_auth_device_pdu_cases:
  obtains (refused) code msg where "handle_auth_device_pdu sod p ctx = err_ret code msg ctx"
      "code \<in> {SODCHAN_ERR_PROTOCOL, SODCHAN_ERR_STATE}"
  | (bad) "handle_auth_device_pdu sod p ctx = err_ret SODCHAN_ERR_CRYPTO ''AUTH_DEVICE bad signature''
      (emit_auth_failed SODCHAN_AUTH_REASON_BAD_SIG ''bad device sig''
        (snd (ss_send_pdu sod (Some auth_fail_bytes) ctx)))"
  | (good) pk ev where "handle_auth_device_pdu sod p ctx = (0, (emit ev (ctx\<lparr> ctx_peer_id_pk := pk,
      ctx_have_peer_id := True \<rparr>))\<lparr> ctx_auth_awaiting_decide := True \<rparr>)"
proof -
  let ?dec = "sodchan_wire_auth_device_decode (Some p) (SODCHAN_USER_MAX + 1) (SODCHAN_DEVICE_ID_MAX + 1)"
  show thesis
  proof (cases "ctx_role ctx = ROLE_SERVER \<and> ctx_have_t_hello ctx \<and> \<not> (ctx_auth_awaiting_decide ctx
      \<or> ctx_auth_complete ctx \<or> ctx_auth_decided ctx) \<and> (\<exists>x. ?dec = Inr x)")
    case False
    then have "\<exists>code msg. handle_auth_device_pdu sod p ctx = err_ret code msg ctx
        \<and> code \<in> {SODCHAN_ERR_PROTOCOL, SODCHAN_ERR_STATE}"
      by (auto simp: handle_auth_device_pdu_def split: sum.split)
    then show thesis using refused by blast
  next
    case True
    then obtain pk sig ub ul db dl where dec: "?dec = Inr (pk, sig, ub, ul, db, dl)" by auto
    let ?t = "sodchan_wire_build_t_auth (ctx_t_hello ctx) pk (Some (take ul ub)) (Some (take dl db)) (Some 512)"
    show thesis
    proof (cases ?t)
      case (Inl e)
      with True dec have "handle_auth_device_pdu sod p ctx = err_ret SODCHAN_ERR_PROTOCOL ''t_auth build'' ctx"
        by (simp add: handle_auth_device_pdu_def)
      then show thesis using refused by blast
    next
      case (Inr t)
      show thesis
      proof (cases "crypto_sign_verify_detached sod sig t pk")
        case False
        with True dec Inr show thesis
          by (intro bad) (simp add: handle_auth_device_pdu_def Let_def server_send_auth_fail_eq)
      next
        case ok: True
        show thesis
          by (rule good) (use True dec Inr ok in \<open>simp add: handle_auth_device_pdu_def Let_def\<close>)
      qed
    qed
  qed
qed

lemma decide_reject_sends:
  assumes "sodchan_auth_decide_ex sod False cl ctx = (q, c)" and "q \<in> {SODCHAN_OK, SODCHAN_ERR_FULL}"
  shows "out_pending c = out_pending (snd (ss_send_pdu sod (Some auth_fail_bytes) ctx))"
    and "ctx_ss_push c = ctx_ss_push (snd (ss_send_pdu sod (Some auth_fail_bytes) ctx))"
    and "ctx_state c = STATE_ERROR"
proof -
  let ?d = "ctx\<lparr> ctx_auth_awaiting_decide := False, ctx_auth_decided := True \<rparr>"
  obtain rc d where send: "ss_send_pdu sod (Some auth_fail_bytes) ?d = (rc, d)"
    by (cases "ss_send_pdu sod (Some auth_fail_bytes) ?d")
  have "out_pending c = out_pending d \<and> ctx_ss_push c = ctx_ss_push d \<and> ctx_state c = STATE_ERROR"
    using assms send
    by (auto simp: sodchan_auth_decide_ex_def Let_def server_send_auth_fail_eq emit_auth_failed_def
        split: if_splits option.splits)
  moreover have "out_pending d = out_pending (snd (ss_send_pdu sod (Some auth_fail_bytes) ctx))
      \<and> ctx_ss_push d = ctx_ss_push (snd (ss_send_pdu sod (Some auth_fail_bytes) ctx))"
    using ss_send_out_cong [of ?d ctx sod "Some auth_fail_bytes"] send by simp
  ultimately show "out_pending c = out_pending (snd (ss_send_pdu sod (Some auth_fail_bytes) ctx))"
    "ctx_ss_push c = ctx_ss_push (snd (ss_send_pdu sod (Some auth_fail_bytes) ctx))" "ctx_state c = STATE_ERROR"
    by simp_all
qed

section \<open>The property\<close>

text \<open>
  C14. A rejected client learns nothing about the reason. From the same context, a
  server that finds the device signature bad and a server that verifies it and is
  then told to reject queue the same bytes, namely one AUTH_FAIL record with the
  unspecific reason that does not depend on the message, leave the send stream in
  the same state, and both end in ERROR.
\<close>

theorem auth_failure_opaque:
  assumes "handle_auth_device_pdu sod bad ctx = (r, c)" and "ctx_error ctx = 0"
    and "ctx_error c = rc_code SODCHAN_ERR_CRYPTO"
    and "handle_auth_device_pdu sod good ctx = (0, d)"
    and "sodchan_auth_decide_ex sod False cl d = (q, e)" and "q \<in> {SODCHAN_OK, SODCHAN_ERR_FULL}"
  shows "out_pending c = out_pending e \<and> ctx_ss_push c = ctx_ss_push e
    \<and> out_pending c = out_pending (snd (ss_send_pdu sod
        (Some [SODCHAN_PDU_AUTH_FAIL, SODCHAN_AUTH_FAIL_UNSPEC, 0]) ctx))
    \<and> ctx_state c = STATE_ERROR \<and> ctx_state e = STATE_ERROR"
proof -
  let ?f = "snd (ss_send_pdu sod (Some auth_fail_bytes) ctx)"
  have c: "out_pending c = out_pending ?f \<and> ctx_ss_push c = ctx_ss_push ?f \<and> ctx_state c = STATE_ERROR"
  proof (cases rule: handle_auth_device_pdu_cases [of sod bad ctx])
    case (refused code msg)
    then have "ctx_error c = rc_code code" using assms(1) by (auto simp: set_error_code)
    with refused(2) assms(3) show ?thesis by auto
  next
    case bad
    with assms(1) show ?thesis by (auto simp: emit_auth_failed_def)
  next
    case (good pk ev)
    with assms(1-3) show ?thesis by auto
  qed
  have d: "out_pending (snd (ss_send_pdu sod (Some auth_fail_bytes) d)) = out_pending ?f
      \<and> ctx_ss_push (snd (ss_send_pdu sod (Some auth_fail_bytes) d)) = ctx_ss_push ?f"
  proof (cases rule: handle_auth_device_pdu_cases [of sod good ctx])
    case (good pk ev)
    with assms(4) have "d = (emit ev (ctx\<lparr> ctx_peer_id_pk := pk, ctx_have_peer_id := True \<rparr>))
        \<lparr> ctx_auth_awaiting_decide := True \<rparr>" by simp
    then show ?thesis by (intro ss_send_out_cong) simp_all
  qed (use assms(4) in simp_all)
  show ?thesis
    using c d decide_reject_sends [OF assms(5,6)] by (simp add: auth_fail_bytes_def)
qed


text \<open>A verifier that accepts one signature only, for the sample run.\<close>

definition strict_sodium :: "(bytes, bytes) sodium" where
  "strict_sodium = sample_sodium\<lparr> crypto_sign_verify_detached := (\<lambda>s m pk. s = replicate 64 8) \<rparr>"

definition waiting_server :: "bytes sodchan_ctx" where
  "waiting_server = (zero_ctx [] ROLE_SERVER)\<lparr> ctx_state := STATE_AUTH, ctx_have_t_hello := True,
     ctx_t_hello := replicate 123 0, ctx_ss_push_ready := True, ctx_max_record_size := 1000 \<rparr>"

lemma auth_device_checked:
  assumes "length pk = 32" "length sig = 64"
  shows "\<exists>c ev. handle_auth_device_pdu strict_sodium (auth_device_enc (pk, sig, [], [])) waiting_server
    = (if sig = replicate 64 8 then (0, (emit ev (waiting_server\<lparr> ctx_peer_id_pk := pk, ctx_have_peer_id := True \<rparr>))
         \<lparr> ctx_auth_awaiting_decide := True \<rparr>) else (-1, c))
    \<and> (sig \<noteq> replicate 64 8 \<longrightarrow> ctx_error c = rc_code SODCHAN_ERR_CRYPTO)"
proof -
  have "auth_device_dec (auth_device_enc (pk, sig, [], [])) = Inr (pk, sig, [], [])"
    using assms by (intro auth_device_dec_enc) (simp add: auth_device_ok_def auth_const_defs)
  then obtain ub ul db dl where dec: "sodchan_wire_auth_device_decode (Some (auth_device_enc (pk, sig, [], [])))
      (SODCHAN_USER_MAX + 1) (SODCHAN_DEVICE_ID_MAX + 1) = Inr (pk, sig, ub, ul, db, dl)"
      "take ul ub = []" "take dl db = []"
    by (auto simp: auth_device_dec_def map_sum_def split: sum.splits)
  have t: "sodchan_wire_build_t_auth (replicate 123 0) pk (Some []) (Some []) (Some 512)
      = Inr (t_auth_of (replicate 123 0) pk [] [])"
    by (rule build_t_auth_of) simp_all
  show ?thesis
    using dec t by (auto simp: handle_auth_device_pdu_def waiting_server_def strict_sodium_def zero_ctx_def
        Let_def set_error_code)
qed

lemma decide_reject_taken:
  assumes "ctx_role ctx = ROLE_SERVER" "ctx_auth_awaiting_decide ctx" "\<not> ctx_auth_decided ctx"
    and "ctx_state ctx = STATE_AUTH"
  shows "fst (sodchan_auth_decide_ex sod False (Some []) ctx) \<in> {SODCHAN_OK, SODCHAN_ERR_FULL}"
  using assms by (auto simp: sodchan_auth_decide_ex_def Let_def split: prod.split)

theorem auth_failure_opaque_witness:
  "\<exists>c d e. handle_auth_device_pdu strict_sodium (auth_device_enc (replicate 32 9, replicate 64 7, [], []))
        waiting_server = (-1, c)
     \<and> handle_auth_device_pdu strict_sodium (auth_device_enc (replicate 32 9, replicate 64 8, [], []))
        waiting_server = (0, d)
     \<and> e = snd (sodchan_auth_decide_ex strict_sodium False (Some []) d)
     \<and> out_pending c = out_pending e \<and> ctx_state c = STATE_ERROR"
proof -
  obtain c where c: "handle_auth_device_pdu strict_sodium
      (auth_device_enc (replicate 32 9, replicate 64 7, [], [])) waiting_server = (-1, c)"
      "ctx_error c = rc_code SODCHAN_ERR_CRYPTO"
    using auth_device_checked [of "replicate 32 9" "replicate 64 7"] by auto
  obtain d ev where d: "handle_auth_device_pdu strict_sodium
      (auth_device_enc (replicate 32 9, replicate 64 8, [], [])) waiting_server = (0, d)"
      "d = (emit ev (waiting_server\<lparr> ctx_peer_id_pk := replicate 32 9, ctx_have_peer_id := True \<rparr>))
         \<lparr> ctx_auth_awaiting_decide := True \<rparr>"
    using auth_device_checked [of "replicate 32 9" "replicate 64 8"] by auto
  obtain q e where e: "sodchan_auth_decide_ex strict_sodium False (Some []) d = (q, e)"
    by (cases "sodchan_auth_decide_ex strict_sodium False (Some []) d")
  have "q \<in> {SODCHAN_OK, SODCHAN_ERR_FULL}"
    using decide_reject_taken [of d strict_sodium] e d(2) by (simp add: waiting_server_def zero_ctx_def)
  moreover have "ctx_error waiting_server = 0" by (simp add: waiting_server_def zero_ctx_def)
  ultimately show ?thesis
    using auth_failure_opaque [OF c(1) _ c(2) d(1) e] c(1) d(1) e by auto
qed

end
