(* ===== verification/Decision.thy ===== *)
theory Decision
  imports Auth_Failure
begin

text \<open>
  The host's decision is taken once per handshake: the flag that records it is set
  by \<^verbatim>\<open>sodchan_auth_decide_ex\<close> and cleared by \<^verbatim>\<open>sodchan_reset\<close> alone.
\<close>

section \<open>Who writes the flag\<close>

lemma decided_auth: "auth_part c = auth_part ctx \<Longrightarrow> ctx_auth_decided c = ctx_auth_decided ctx"
  by (rule auth_part_fields(14))

lemma decided_session: "session_part c = session_part ctx \<Longrightarrow> ctx_auth_decided c = ctx_auth_decided ctx"
  by (rule decided_auth [OF auth_part_session])

lemma decided_pairs:
  "ss_send_pdu sod pl ctx = (r, c) \<Longrightarrow> ctx_auth_decided c = ctx_auth_decided ctx"
  "out_append_frame b ctx = (r, c) \<Longrightarrow> ctx_auth_decided c = ctx_auth_decided ctx"
  "derive_ss_keys_client sod ctx = (r, c) \<Longrightarrow> ctx_auth_decided c = ctx_auth_decided ctx"
  "derive_ss_keys_server sod ctx = (r, c) \<Longrightarrow> ctx_auth_decided c = ctx_auth_decided ctx"
  "client_send_ss_header_c2s sod ctx = (r, c) \<Longrightarrow> ctx_auth_decided c = ctx_auth_decided ctx"
  "server_send_ss_header_s2c sod ctx = (r, c) \<Longrightarrow> ctx_auth_decided c = ctx_auth_decided ctx"
  "client_send_auth_device sod ctx = (r, c) \<Longrightarrow> ctx_auth_decided c = ctx_auth_decided ctx"
  by (rule decided_auth, erule auth_part_pairs derive_ss_keys_auth send_ss_header_auth
      client_send_auth_device_auth)+

lemma decided_events [simp]:
  "ctx_auth_decided (emit_hello_received ctx) = ctx_auth_decided ctx"
  "ctx_auth_decided (emit_kx_complete ctx) = ctx_auth_decided ctx"
  "ctx_auth_decided (emit_authenticated ctx) = ctx_auth_decided ctx"
  "ctx_auth_decided (emit_auth_failed r m ctx) = ctx_auth_decided ctx"
  by (simp_all add: emit_hello_received_def emit_kx_complete_def emit_authenticated_def emit_auth_failed_def)

lemma queue_local_hello_decided:
  "queue_local_hello sod ctx = (r, c) \<Longrightarrow> ctx_auth_decided c = ctx_auth_decided ctx"
  unfolding queue_local_hello_def Let_def
  by (auto split: if_splits sum.splits option.splits dest: decided_pairs(2))

lemma handle_peer_hello_decided:
  "handle_peer_hello sod b ctx = (r, c) \<Longrightarrow> ctx_auth_decided c = ctx_auth_decided ctx"
  unfolding handle_peer_hello_def handle_client_hello_def handle_server_hello_def Let_def
  by (auto split: if_splits prod.splits sum.splits dest!: decided_pairs queue_local_hello_decided)

lemma handle_peer_ss_header_decided:
  "handle_peer_ss_header sod b ctx = (r, c) \<Longrightarrow> ctx_auth_decided c = ctx_auth_decided ctx"
  unfolding handle_peer_ss_header_def
  by (auto split: if_splits prod.splits option.splits dest!: decided_pairs)

lemma auth_sends_decided [simp]:
  "ctx_auth_decided (snd (server_send_auth_fail sod ctx)) = ctx_auth_decided ctx"
  "ctx_auth_decided (snd (server_send_auth_ok sod cl ctx)) = ctx_auth_decided ctx"
  by (rule decided_session; simp)+

lemma handle_auth_decided:
  "handle_auth_device_pdu sod p ctx = (r, c) \<Longrightarrow> ctx_auth_decided c = ctx_auth_decided ctx"
  "handle_auth_ok_pdu p ctx = (r, c) \<Longrightarrow> ctx_auth_decided c = ctx_auth_decided ctx"
  "handle_auth_fail_pdu p ctx = (r, c) \<Longrightarrow> ctx_auth_decided c = ctx_auth_decided ctx"
  by (auto simp: handle_auth_device_pdu_def handle_auth_ok_pdu_def handle_auth_fail_pdu_def Let_def
      split: if_splits sum.splits prod.splits)

lemma handle_encrypted_pdu_decided:
  assumes "handle_encrypted_pdu sod ct ctx = (r, c)"
  shows "ctx_auth_decided c = ctx_auth_decided ctx"
proof -
  have mux: "ctx_auth_decided d = ctx_auth_decided e" if "handle_mux_pdu sod p e = (x, d)" for p e x d
    using mux_step_session_part [of sod e x d] handle_mux_pdu_step [of sod e p] that decided_session [of d e] by auto
  from assms show ?thesis
    unfolding handle_encrypted_pdu_def Let_def
    by (auto split: if_splits option.splits sum.splits prod.splits dest!: handle_auth_decided mux)
qed

lemma dispatch_frame_decided:
  "dispatch_frame sod b ctx = (r, c) \<Longrightarrow> ctx_auth_decided c = ctx_auth_decided ctx"
  unfolding dispatch_frame_def
  by (auto split: if_splits dest: handle_peer_hello_decided handle_peer_ss_header_decided
      handle_encrypted_pdu_decided)

lemma exec_decided:
  assumes "call \<noteq> Reset" and "ctx_auth_decided ctx"
  shows "ctx_auth_decided (exec sod call ctx)"
proof (cases call)
  case (Feed_Input d)
  have "ctx_auth_decided (snd (sodchan_feed_input sod d ctx))"
    by (rule feed_input_preserves [where P = ctx_auth_decided])
      (use assms(2) in \<open>simp_all add: dispatch_frame_decided sodchan_i_set_error_def Let_def\<close>)
  with Feed_Input show ?thesis by simp
next
  case (Auth_Decide acc cl)
  with assms(2) show ?thesis by (simp add: sodchan_auth_decide_ex_def)
next
  case (Disconnect_Call r m)
  with assms(2) show ?thesis by (simp add: sodchan_disconnect_def Let_def split: sum.split)
qed (use assms in \<open>simp_all add: decided_session [OF api_step_session_part [OF channel_open_step]]
    decided_session [OF api_step_session_part [OF channel_accept_step]]
    decided_session [OF api_step_session_part [OF channel_send_step]]
    decided_session [OF api_step_session_part [OF channel_eof_step]]
    decided_session [OF api_step_session_part [OF channel_close_step]]
    decided_session [OF api_step_session_part [OF channel_window_adjust_step]]\<close>)

lemma calls_decided:
  "Reset \<notin> set calls \<Longrightarrow> ctx_auth_decided ctx \<Longrightarrow>
     ctx_auth_decided (foldl (\<lambda>c call. exec sod call c) ctx calls)"
proof (induction calls arbitrary: ctx)
  case (Cons call calls)
  then have "call \<noteq> Reset" by auto
  then show ?case using Cons.IH [OF _ exec_decided [OF _ Cons.prems(2)]] Cons.prems(1) by simp
qed simp

lemma decide_takes_effect:
  assumes "sodchan_auth_decide_ex sod acc cl ctx = (r, c)" and "r \<noteq> SODCHAN_ERR_STATE" "r \<noteq> SODCHAN_ERR_PARAM"
  shows "ctx_auth_decided c"
  using assms unfolding sodchan_auth_decide_ex_def Let_def
  by (auto split: if_splits option.splits prod.splits simp: server_send_auth_ok_def server_send_auth_fail_def
      dest!: decided_pairs(1) split: sum.splits)

text \<open>
  C15. The decision is final. Once a call of \<^verbatim>\<open>sodchan_auth_decide_ex\<close> has got past its checks,
  whether it accepted or rejected and whether its answer could be queued, every
  later call of it, after any other calls except a reset and any input, is refused
  with the state error and changes nothing.
\<close>

theorem decision_final:
  assumes "sodchan_auth_decide_ex sod acc cl ctx = (r, c)" and "r \<noteq> SODCHAN_ERR_STATE" "r \<noteq> SODCHAN_ERR_PARAM"
    and "Reset \<notin> set calls" and "d = foldl (\<lambda>c call. exec sod call c) c calls"
  shows "sodchan_auth_decide_ex sod acc' cl' d = (SODCHAN_ERR_STATE, d)"
  using calls_decided [OF assms(4) decide_takes_effect [OF assms(1-3)], of sod] assms(5)
  by (simp add: sodchan_auth_decide_ex_def)

theorem decision_final_witness:
  "\<exists>ctx r c. sodchan_auth_decide_ex sample_sodium False (Some []) ctx = (r, c) \<and> r \<noteq> SODCHAN_ERR_STATE
     \<and> sodchan_auth_decide_ex sample_sodium True (Some [])
          (exec sample_sodium (Feed_Input (Some [1])) (exec sample_sodium Next_Event c))
        = (SODCHAN_ERR_STATE, exec sample_sodium (Feed_Input (Some [1])) (exec sample_sodium Next_Event c))"
proof -
  let ?s = "(zero_ctx ([] :: bytes) ROLE_SERVER)\<lparr> ctx_state := STATE_AUTH, ctx_auth_awaiting_decide := True \<rparr>"
  obtain r c where c: "sodchan_auth_decide_ex sample_sodium False (Some []) ?s = (r, c)"
    by (cases "sodchan_auth_decide_ex sample_sodium False (Some []) ?s")
  have "r \<in> {SODCHAN_OK, SODCHAN_ERR_FULL}"
    using decide_reject_taken [of ?s sample_sodium] c by (simp add: zero_ctx_def)
  then have "r \<noteq> SODCHAN_ERR_STATE" "r \<noteq> SODCHAN_ERR_PARAM" by auto
  from decision_final [OF c this _ refl, of "[Next_Event, Feed_Input (Some [1])]" True "Some []"] c this
  show ?thesis by auto
qed

end
