(* ===== verification/Fresh_Reset.thy ===== *)
theory Fresh_Reset
  imports Security
begin

text \<open>
  \<^verbatim>\<open>sodchan_reset\<close> against \<^verbatim>\<open>sodchan_create\<close>: a reset context behaves like one created
  anew with the same configuration, and the secrets of the old session are gone.
\<close>

section \<open>The first step of the handshake, written out\<close>

definition first_hello :: "'ss sodchan_ctx \<Rightarrow> bytes \<Rightarrow> bytes" where
  "first_hello ctx eph = hello_enc (hello_msg ROLE_CLIENT eph
     (if ctx_have_client_id_pk ctx then ctx_client_id_pk ctx else replicate 32 0) (replicate 64 0))"

lemma handshake_start_eq:
  assumes "crypto_kx_keypair sod (ctx_draws ctx) = Some (pk, sk)" and "length pk = 32"
    and "length (ctx_client_id_pk ctx) = 32" and "ctx_out_buf ctx = []" and "ctx_out_off ctx = 0"
  shows "handshake_start sod ctx = (SODCHAN_OK, ctx\<lparr> ctx_eph_pk := pk, ctx_eph_sk := sk,
     ctx_draws := ctx_draws ctx + 1,
     ctx_out_buf := (if ctx_role ctx = ROLE_CLIENT then on_wire (first_hello ctx pk) else []),
     ctx_state := STATE_HELLO, ctx_hs := HS_WAIT_PEER_HELLO \<rparr>)"
proof (cases "ctx_role ctx = ROLE_CLIENT")
  case True
  let ?c = "ctx\<lparr> ctx_eph_pk := pk, ctx_eph_sk := sk, ctx_draws := ctx_draws ctx + 1 \<rparr>"
  have "length (first_hello ctx pk) = 140"
    using assms(2,3) by (simp add: first_hello_def length_hello_enc hello_msg_arrays)
  then have "out_append_frame (first_hello ctx pk) ?c
      = (SODCHAN_OK, ?c\<lparr> ctx_out_buf := on_wire (first_hello ctx pk), ctx_out_off := 0 \<rparr>)"
    using assms(4) by (intro out_append_frame_now) (simp_all add: out_pending_def)
  then have "queue_local_hello sod ?c
      = (SODCHAN_OK, ?c\<lparr> ctx_out_buf := on_wire (first_hello ctx pk), ctx_out_off := 0 \<rparr>)"
    using True by (cases "ctx_have_client_id_pk ctx")
      (simp_all add: queue_local_hello_def Let_def hello_encodes first_hello_def hello_msg_def)
  then have "handshake_start sod ctx = (SODCHAN_OK, ?c\<lparr> ctx_out_buf := on_wire (first_hello ctx pk),
      ctx_out_off := 0, ctx_state := STATE_HELLO, ctx_hs := HS_WAIT_PEER_HELLO \<rparr>)"
    using True assms(1) by (simp add: handshake_start_def)
  with True assms(5) show ?thesis by simp
next
  case False
  then have "handshake_start sod ctx = (SODCHAN_OK, ctx\<lparr> ctx_eph_pk := pk, ctx_eph_sk := sk,
      ctx_draws := ctx_draws ctx + 1, ctx_state := STATE_HELLO, ctx_hs := HS_WAIT_PEER_HELLO \<rparr>)"
    using assms(1) by (simp add: handshake_start_def)
  with False assms(4) show ?thesis by simp
qed

section \<open>The configuration never changes\<close>

lemma conf_fixed: "fixed_part c = fixed_part ctx \<Longrightarrow> fixed_part (c\<lparr> ctx_in_buf := d \<rparr>) = fixed_part (ctx\<lparr> ctx_in_buf := d \<rparr>)"
  by (simp add: fixed_part_def)

lemma handshake_start_conf: "fixed_part (snd (handshake_start sod ctx)) = fixed_part ctx"
  using keeps_fixed [OF handshake_start_keeps [OF surjective_pairing [of "handshake_start sod ctx"] keeps_refl]]
  by simp

text \<open>A reset up to its last step.\<close>

definition wiped :: "('ss, 'gh) sodium \<Rightarrow> 'ss sodchan_ctx \<Rightarrow> 'ss sodchan_ctx" where
  "wiped sod ctx =
     (let ctx = ctx\<lparr> ctx_eph_sk := sodium_memzero sod (ctx_eph_sk ctx),
            ctx_ss_key_c2s := sodium_memzero sod (ctx_ss_key_c2s ctx),
            ctx_ss_key_s2c := sodium_memzero sod (ctx_ss_key_s2c ctx),
            ctx_have_peer_eph := False, ctx_have_peer_id := False, ctx_have_t_hello := False,
            ctx_ss_push_ready := False, ctx_ss_pull_ready := False, ctx_auth_sent := False,
            ctx_auth_awaiting_decide := False, ctx_auth_decided := False, ctx_auth_complete := False,
            ctx_channels := replicate SODCHAN_MAX_CHANNELS zero_channel,
            ctx_next_local_channel_id := 0, ctx_active_channels := 0,
            ctx_error := 0, ctx_error_msg := [], ctx_event_head := 0, ctx_event_count := 0,
            ctx_out_buf := [], ctx_out_off := 0, ctx_in_buf := [] \<rparr> in
      if ctx_events ctx = [] then ctx
      else ctx\<lparr> ctx_events := replicate (ctx_event_cap ctx) EVENT_NONE \<rparr>)"

lemma reset_wiped: "sodchan_reset sod ctx = snd (handshake_start sod (wiped sod ctx))"
  by (simp add: sodchan_reset_def wiped_def Let_def)

lemma wiped_conf: "fixed_part (wiped sod ctx) = fixed_part (ctx\<lparr> ctx_in_buf := [] \<rparr>)"
  by (simp add: wiped_def Let_def fixed_part_def)

lemma exec_fixed:
  fixes ctx :: "'ss sodchan_ctx"
  shows "fixed_part ((exec sod call ctx)\<lparr> ctx_in_buf := [] \<rparr>) = fixed_part (ctx\<lparr> ctx_in_buf := [] \<rparr>)"
proof (cases call)
  case (Feed_Input d)
  let ?P = "\<lambda>c :: 'ss sodchan_ctx. fixed_part (c\<lparr> ctx_in_buf := [] \<rparr>) = fixed_part (ctx\<lparr> ctx_in_buf := [] \<rparr>)"
  have "?P (snd (sodchan_feed_input sod d ctx))"
  proof (rule feed_input_preserves [where P = ?P])
    fix b c1 r c
    assume p: "?P c1" and d: "dispatch_frame sod b c1 = (r, c)"
    show "?P c" using conf_fixed [OF dispatch_frame_fixed [OF d], of "[]"] p by simp
  next
    fix c assume "?P c"
    then show "?P (sodchan_i_set_error SODCHAN_ERR_PROTOCOL ''frame parse error'' c)"
      using conf_fixed [of "sodchan_i_set_error SODCHAN_ERR_PROTOCOL ''frame parse error'' c" c "[]"] by simp
  qed simp_all
  with Feed_Input show ?thesis by simp
next
  case (Auth_Decide acc cl)
  have "keeps sod ctx (snd (sodchan_auth_decide_ex sod acc cl ctx))"
    by (rule auth_decide_ex_keeps [OF surjective_pairing keeps_refl])
  then show ?thesis unfolding Auth_Decide exec.simps by (intro conf_fixed keeps_fixed)
next
  case (Disconnect_Call r m)
  have "fixed_part (snd (sodchan_disconnect sod r m ctx)) = fixed_part ctx"
    by (simp add: sodchan_disconnect_def Let_def split: sum.split)
  then show ?thesis unfolding Disconnect_Call exec.simps by (rule conf_fixed)
next
  case Reset
  then show ?thesis using conf_fixed [OF handshake_start_conf [of sod "wiped sod ctx"], of "[]"]
      conf_fixed [OF wiped_conf [of sod ctx], of "[]"] by (simp add: reset_wiped)
next
  case (Get_Output b)
  have "fixed_part (snd (sodchan_get_output b ctx)) = fixed_part ctx" by (simp add: fixed_part_def)
  then show ?thesis unfolding Get_Output exec.simps by (rule conf_fixed)
next
  case Next_Event
  have "fixed_part (snd (sodchan_next_event ctx)) = fixed_part ctx" by (simp add: fixed_part_def)
  then show ?thesis unfolding Next_Event exec.simps by (rule conf_fixed)
qed (simp_all add:
    conf_fixed [OF fixed_part_session [OF api_step_session_part [OF channel_open_step]]]
    conf_fixed [OF fixed_part_session [OF api_step_session_part [OF channel_accept_step]]]
    conf_fixed [OF fixed_part_session [OF api_step_session_part [OF channel_send_step]]]
    conf_fixed [OF fixed_part_session [OF api_step_session_part [OF channel_eof_step]]]
    conf_fixed [OF fixed_part_session [OF api_step_session_part [OF channel_close_step]]]
    conf_fixed [OF fixed_part_session [OF api_step_session_part [OF channel_window_adjust_step]]])


section \<open>The created context before the handshake starts\<close>

definition raw_ctx :: "'ss \<Rightarrow> sodchan_role \<Rightarrow> nat \<Rightarrow> sodchan_config \<Rightarrow> 'ss sodchan_ctx" where
  "raw_ctx z role draws cfg =
     (let c = apply_config_defaults cfg ((zero_ctx z role)\<lparr> ctx_draws := draws \<rparr>) in
      c\<lparr> ctx_event_cap := ctx_event_queue_size c, ctx_events := replicate (ctx_event_queue_size c) EVENT_NONE \<rparr>)"

lemma create_raw:
  assumes "sodchan_create sod lab m1 m2 z draws role (Some cfg) = Some ctx"
  shows "handshake_start sod (raw_ctx z (if role = 0 then ROLE_SERVER else ROLE_CLIENT) draws cfg) = (SODCHAN_OK, ctx)"
  using assms by (rule sodchan_create_Some) (simp add: raw_ctx_def)

text \<open>Apart from the role nothing in the configuration depends on \<open>z\<close> and \<open>draws\<close>.\<close>

definition dup_text :: "span \<Rightarrow> nat \<Rightarrow> span \<times> nat" where
  "dup_text s used = (case s of None \<Rightarrow> (None, used)
     | Some t \<Rightarrow> if used + (c_strlen t + 1) > SODCHAN_CFG_STORE_SIZE then (None, used)
                else (Some (cstr t), used + (c_strlen t + 1)))"

lemma cfg_dup_text [simp]:
  "fst (cfg_dup s ctx) = fst (dup_text s (ctx_cfg_store_used ctx))"
  "ctx_cfg_store_used (snd (cfg_dup s ctx)) = snd (dup_text s (ctx_cfg_store_used ctx))"
  by (simp_all add: cfg_dup_def dup_text_def Let_def split: option.split)

lemma raw_ctx_conf: "fixed_part (raw_ctx (z :: 'a) role n cfg) = fixed_part (raw_ctx (y :: 'a) role m cfg)"
  unfolding raw_ctx_def Let_def apply_config_defaults_def fixed_part_def
  by (simp add: case_prod_unfold)

lemma raw_ctx_fields:
  fixes z role n cfg
  defines "c \<equiv> raw_ctx z role n cfg"
  shows "ctx_role c = role" "ctx_draws c = n" "ctx_error c = 0" "ctx_error_msg c = []"
    "\<not> ctx_have_peer_eph c" "\<not> ctx_have_peer_id c" "\<not> ctx_have_t_hello c" "\<not> ctx_ss_push_ready c"
    "\<not> ctx_ss_pull_ready c" "\<not> ctx_auth_sent c" "\<not> ctx_auth_awaiting_decide c" "\<not> ctx_auth_decided c"
    "\<not> ctx_auth_complete c" "ctx_channels c = replicate SODCHAN_MAX_CHANNELS zero_channel"
    "ctx_next_local_channel_id c = 0" "ctx_active_channels c = 0" "ctx_out_buf c = []" "ctx_out_off c = 0"
    "ctx_in_buf c = []" "ctx_events c = replicate (ctx_event_cap c) EVENT_NONE" "ctx_event_head c = 0"
    "ctx_event_count c = 0"
  unfolding c_def raw_ctx_def Let_def apply_config_defaults_def
  by (simp_all add: case_prod_unfold)

lemma raw_ctx_pin:
  assumes "\<not> cfg_accept_any_server_pk cfg" and "cfg_server_id_pk cfg = Some pin" and "length pin = 32"
  shows "pin_part (raw_ctx z role n cfg) = (False, True, pin)"
  using assms unfolding raw_ctx_def Let_def
  by (simp add: pin_part_def apply_config_defaults_fields copy_key_def)

lemma wiped_fields:
  fixes sod ctx
  defines "c \<equiv> wiped sod ctx"
  assumes "ctx_events ctx \<noteq> []"
  shows "ctx_draws c = ctx_draws ctx" "ctx_error c = 0" "ctx_error_msg c = []"
    "\<not> ctx_have_peer_eph c" "\<not> ctx_have_peer_id c" "\<not> ctx_have_t_hello c" "\<not> ctx_ss_push_ready c"
    "\<not> ctx_ss_pull_ready c" "\<not> ctx_auth_sent c" "\<not> ctx_auth_awaiting_decide c" "\<not> ctx_auth_decided c"
    "\<not> ctx_auth_complete c" "ctx_channels c = replicate SODCHAN_MAX_CHANNELS zero_channel"
    "ctx_next_local_channel_id c = 0" "ctx_active_channels c = 0" "ctx_out_buf c = []" "ctx_out_off c = 0"
    "ctx_in_buf c = []" "ctx_events c = replicate (ctx_event_cap c) EVENT_NONE" "ctx_event_head c = 0"
    "ctx_event_count c = 0" "pin_part c = pin_part ctx"
    "ctx_ss_key_c2s c = sodium_memzero sod (ctx_ss_key_c2s ctx)"
    "ctx_ss_key_s2c c = sodium_memzero sod (ctx_ss_key_s2c ctx)"
    "ctx_peer_eph_pk c = ctx_peer_eph_pk ctx" "ctx_peer_id_pk c = ctx_peer_id_pk ctx"
    "ctx_t_hello c = ctx_t_hello ctx" "ctx_ss_push c = ctx_ss_push ctx" "ctx_ss_pull c = ctx_ss_pull ctx"
  using assms(2) unfolding c_def wiped_def Let_def by simp_all

lemma reachable_conf:
  fixes ctx :: "'ss sodchan_ctx" and z :: 'ss
  assumes "reachable sod (Some cfg) ctx"
  shows "\<exists>role. fixed_part (ctx\<lparr> ctx_in_buf := [] \<rparr>)
      = fixed_part (raw_ctx z (if role = 0 then ROLE_SERVER else ROLE_CLIENT) n cfg)
    \<and> create_allowed sod True True True role (Some cfg)"
  using assms
proof induction
  case (created lab m1 m2 y draws role ctx)
  let ?r = "if role = 0 then ROLE_SERVER else ROLE_CLIENT"
  have "fixed_part ctx = fixed_part (raw_ctx y ?r draws cfg)"
    using handshake_start_conf [of sod "raw_ctx y ?r draws cfg"] create_raw [OF created] by simp
  moreover have "(raw_ctx y ?r draws cfg)\<lparr> ctx_in_buf := [] \<rparr> = raw_ctx y ?r draws cfg"
    using raw_ctx_fields(19) [of y ?r draws cfg] by simp
  ultimately have "fixed_part (ctx\<lparr> ctx_in_buf := [] \<rparr>) = fixed_part (raw_ctx y ?r draws cfg)"
    using conf_fixed [of ctx "raw_ctx y ?r draws cfg" "[]"] by simp
  then have "fixed_part (ctx\<lparr> ctx_in_buf := [] \<rparr>) = fixed_part (raw_ctx z ?r n cfg)"
    using raw_ctx_conf [of y ?r draws cfg z n] by simp
  moreover have "create_allowed sod True True True role (Some cfg)"
    using create_needs [OF created] by (auto simp: create_allowed_def Let_def)
  ultimately show ?case by blast
next
  case (called ctx call)
  then show ?case using exec_fixed [of sod call ctx] by simp
qed

section \<open>The property\<close>

text \<open>The handshake starts alike in two contexts that differ only in what the old session left.\<close>

lemma start_same:
  assumes "fixed_part a = fixed_part b" and "pin_part a = pin_part b" and "ctx_events a = ctx_events b"
    and "ctx_draws a = ctx_draws b" "ctx_error a = ctx_error b" "ctx_error_msg a = ctx_error_msg b"
    and "ctx_have_peer_eph a = ctx_have_peer_eph b" "ctx_have_peer_id a = ctx_have_peer_id b"
      "ctx_have_t_hello a = ctx_have_t_hello b" "ctx_ss_push_ready a = ctx_ss_push_ready b"
      "ctx_ss_pull_ready a = ctx_ss_pull_ready b" "ctx_auth_sent a = ctx_auth_sent b"
      "ctx_auth_awaiting_decide a = ctx_auth_awaiting_decide b" "ctx_auth_decided a = ctx_auth_decided b"
      "ctx_auth_complete a = ctx_auth_complete b" "ctx_channels a = ctx_channels b"
      "ctx_next_local_channel_id a = ctx_next_local_channel_id b"
      "ctx_active_channels a = ctx_active_channels b" "ctx_event_head a = ctx_event_head b"
      "ctx_event_count a = ctx_event_count b"
    and out: "ctx_out_buf a = []" "ctx_out_off a = 0" "ctx_out_buf b = []" "ctx_out_off b = 0"
    and kp: "crypto_kx_keypair sod (ctx_draws b) = Some (pk, sk)" "length pk = 32"
      "length (ctx_client_id_pk b) = 32"
  shows "snd (handshake_start sod a) = (snd (handshake_start sod b))\<lparr>
     ctx_peer_eph_pk := ctx_peer_eph_pk a, ctx_peer_id_pk := ctx_peer_id_pk a, ctx_t_hello := ctx_t_hello a,
     ctx_ss_key_c2s := ctx_ss_key_c2s a, ctx_ss_key_s2c := ctx_ss_key_s2c a,
     ctx_ss_push := ctx_ss_push a, ctx_ss_pull := ctx_ss_pull a \<rparr>"
proof -
  note f = fixed_part_fields [OF assms(1)]
  have h: "first_hello a pk = first_hello b pk" by (simp add: first_hello_def f)
  have a: "crypto_kx_keypair sod (ctx_draws a) = Some (pk, sk)" "length (ctx_client_id_pk a) = 32"
    using kp assms(4) f by simp_all
  show ?thesis
    unfolding handshake_start_eq [OF a(1) kp(2) a(2) out(1,2)] handshake_start_eq [OF kp out(3,4)] snd_conv h
    by (rule sodchan_ctx.equality) (use assms(2) in \<open>simp_all add: f assms(3-20) out pin_part_def\<close>)
qed

text \<open>
  C16. A reset starts the handshake over. With a pinned server key (not with
  accept-any, which keeps the key it has learned), resetting any reachable context
  gives exactly the context that creating one with the same configuration gives,
  in every field but seven: the two derived session keys are overwritten with
  zeros, and the peer's two public keys, the old HELLO transcript and the two
  secretstream states still hold what the old session left there; their
  have/ready flags are down. The secretstream states are not wiped, so the
  traffic keys they contain stay in memory.
\<close>

theorem reset_like_create:
  assumes "reachable sod (Some cfg) ctx" and "config_ok (Some cfg)" and "push_len_law sod"
    and "kx_keypair_law sod" and "memory_law sod" and "\<not> cfg_accept_any_server_pk cfg"
    and "cfg_server_id_pk cfg = Some pin"
  shows "\<exists>c. sodchan_create sod True True True z (ctx_draws ctx)
        (if ctx_role ctx = ROLE_SERVER then 0 else 1) (Some cfg) = Some c
      \<and> sodchan_reset sod ctx = c\<lparr>
          ctx_peer_eph_pk := ctx_peer_eph_pk ctx, ctx_peer_id_pk := ctx_peer_id_pk ctx,
          ctx_t_hello := ctx_t_hello ctx,
          ctx_ss_key_c2s := replicate (length (ctx_ss_key_c2s ctx)) 0,
          ctx_ss_key_s2c := replicate (length (ctx_ss_key_s2c ctx)) 0,
          ctx_ss_push := ctx_ss_push ctx, ctx_ss_pull := ctx_ss_pull ctx \<rparr>
      \<and> \<not> ctx_have_peer_eph c \<and> \<not> ctx_have_peer_id c \<and> \<not> ctx_have_t_hello c
      \<and> \<not> ctx_ss_push_ready c \<and> \<not> ctx_ss_pull_ready c"
proof -
  let ?n = "ctx_draws ctx"
  have inv: "ctx_inv sod ctx" by (rule reachable_inv [OF assms(1-4)])
  then have ev: "ctx_events ctx \<noteq> []" by (auto simp: ctx_inv_def base_inv_def ring_wf_def)
  have pinlen: "length pin = 32" using assms(2,7) by (simp add: config_ok_def)
  obtain role where fp: "fixed_part (ctx\<lparr> ctx_in_buf := [] \<rparr>)
      = fixed_part (raw_ctx z (if role = 0 then ROLE_SERVER else ROLE_CLIENT) ?n cfg)"
    and al: "create_allowed sod True True True role (Some cfg)"
    using reachable_conf [OF assms(1), of z ?n] by blast
  have "ctx_role ctx = (if role = 0 then ROLE_SERVER else ROLE_CLIENT)"
    using fixed_part_fields(1) [OF fp] by (simp add: raw_ctx_fields)
  moreover have "role = 0 \<or> role = 1" using al by (auto simp: create_allowed_def Let_def)
  ultimately have role: "(if ctx_role ctx = ROLE_SERVER then 0 else 1) = role" by auto
  obtain c where c: "sodchan_create sod True True True z ?n role (Some cfg) = Some c"
    using create_succeeds [OF al assms(4,2)] by blast
  let ?d = "raw_ctx z (if role = 0 then ROLE_SERVER else ROLE_CLIENT) ?n cfg"
  have fw: "fixed_part (wiped sod ctx) = fixed_part ?d" using fp by (simp add: wiped_conf)
  obtain pk sk where kp: "crypto_kx_keypair sod ?n = Some (pk, sk)" "length pk = 32"
    using assms(4) unfolding kx_keypair_law_def by metis
  have len: "length (ctx_client_id_pk ?d) = 32"
    using fixed_part_fields(10) [OF fp] inv by (simp add: ctx_inv_def base_inv_def)
  note w = wiped_fields [OF ev, of sod]
  note r = raw_ctx_fields [of z "if role = 0 then ROLE_SERVER else ROLE_CLIENT" ?n cfg]
  have pin: "pin_part (wiped sod ctx) = pin_part ?d"
    using reachable_pin [OF assms(1,6,7) pinlen] w(22)
      raw_ctx_pin [OF assms(6,7) pinlen, of z "if role = 0 then ROLE_SERVER else ROLE_CLIENT" ?n] by simp
  have evs: "ctx_events (wiped sod ctx) = ctx_events ?d"
    using w(19) r(20) fixed_part_fields(21) [OF fw] by simp
  have "sodchan_reset sod ctx = (snd (handshake_start sod ?d))\<lparr>
     ctx_peer_eph_pk := ctx_peer_eph_pk ctx, ctx_peer_id_pk := ctx_peer_id_pk ctx, ctx_t_hello := ctx_t_hello ctx,
     ctx_ss_key_c2s := sodium_memzero sod (ctx_ss_key_c2s ctx), ctx_ss_key_s2c := sodium_memzero sod (ctx_ss_key_s2c ctx),
     ctx_ss_push := ctx_ss_push ctx, ctx_ss_pull := ctx_ss_pull ctx \<rparr>"
    unfolding reset_wiped w(23-29) [symmetric] using kp len
    by (intro start_same [OF fw pin evs, where pk = pk and sk = sk]) (simp_all add: w r)
  moreover have "snd (handshake_start sod ?d) = c" using create_raw [OF c] by simp
  moreover have "\<not> ctx_have_peer_eph c \<and> \<not> ctx_have_peer_id c \<and> \<not> ctx_have_t_hello c
      \<and> \<not> ctx_ss_push_ready c \<and> \<not> ctx_ss_pull_ready c"
    using create_raw [OF c] handshake_start_eq [of sod ?d pk sk] kp len r by auto
  ultimately show ?thesis using c assms(5) by (simp add: role memory_law_def)
qed

theorem reset_like_create_witness:
  "\<exists>s c. reachable sample_sodium (Some sample_server) s \<and> ctx_state s = STATE_READY
     \<and> sodchan_create sample_sodium True True True [] (ctx_draws s) 0 (Some sample_server) = Some c
     \<and> ctx_state (sodchan_reset sample_sodium s) = ctx_state c
     \<and> ctx_out_buf (sodchan_reset sample_sodium s) = ctx_out_buf c
     \<and> ctx_ss_push (sodchan_reset sample_sodium s) = ctx_ss_push s \<and> \<not> ctx_ss_push_ready c"
proof -
  obtain c s where r: "reachable sample_sodium (Some sample_server) s"
    and u: "session_up (=) (replicate 32 3) (replicate 32 2) c s" by (rule sample_session)
  then have "ctx_role s = ROLE_SERVER" "ctx_state s = STATE_READY" by (simp_all add: session_up_def)
  then show ?thesis
    using reset_like_create [OF r sample_config_ok(2) sample_push_len_law sample_kx_keypair_law
        sample_memory_law, of "replicate 32 2" "[]"] r
    by (auto simp: sample_server_def zero_config_def)
qed

end
