(* ===== verification/Allowlist.thy ===== *)
theory Allowlist
  imports Fresh_Reset
begin

text \<open>
  Which channel names a context allows, from its creation on: the configured list
  as it was copied into the context, through every sequence of calls.
\<close>

section \<open>The list of a new context\<close>

lemma raw_ctx_allowed:
  "ctx_allowed_channels (raw_ctx z role n cfg) =
     (case cfg_allowed_channels cfg of None \<Rightarrow> None
      | Some l \<Rightarrow> if c_strlen l < SODCHAN_CFG_STORE_SIZE then Some (cstr l) else None)"
  unfolding raw_ctx_def Let_def apply_config_defaults_def
  by (simp add: case_prod_unfold dup_text_def Suc_le_eq split: option.split)

lemma reachable_allowed:
  fixes ctx :: "'ss sodchan_ctx"
  assumes "reachable sod (Some cfg) ctx"
  shows "ctx_allowed_channels ctx =
     (case cfg_allowed_channels cfg of None \<Rightarrow> None
      | Some l \<Rightarrow> if c_strlen l < SODCHAN_CFG_STORE_SIZE then Some (cstr l) else None)"
proof -
  obtain role :: int where "fixed_part (ctx\<lparr> ctx_in_buf := [] \<rparr>)
      = fixed_part (raw_ctx (ctx_ss_push ctx) (if role = 0 then ROLE_SERVER else ROLE_CLIENT) 0 cfg)"
    using reachable_conf [OF assms] by blast
  from fixed_part_fields(17) [OF this] show ?thesis unfolding raw_ctx_allowed by simp
qed

lemma allowed_split:
  "channel_name_allowed (Some s) ctx \<longleftrightarrow> cstr s \<noteq> [] \<and>
     cstr s \<in> set (split_on 44 (cstr (case ctx_allowed_channels ctx of
       None \<Rightarrow> SODCHAN_DEFAULT_ALLOWED_CHANNELS | Some l \<Rightarrow> l)))"
  by (auto simp: channel_name_allowed_def name_scan_split split: option.splits)

section \<open>The property\<close>

text \<open>
  C29. The allowlist in force. In every context that any sequence of calls leads to,
  the names that are allowed are exactly the items of the configured list, provided
  that it fits into the context's 2048-byte store with its NUL; without a list, and
  also with one that is too long, they are the items of the built-in default list.
\<close>

theorem allowlist_in_force:
  assumes "reachable sod (Some cfg) ctx"
  shows "channel_name_allowed (Some s) ctx \<longleftrightarrow> cstr s \<noteq> [] \<and> cstr s \<in> set (split_on 44
     (case cfg_allowed_channels cfg of
        Some l \<Rightarrow> if c_strlen l < SODCHAN_CFG_STORE_SIZE then cstr l
                  else cstr SODCHAN_DEFAULT_ALLOWED_CHANNELS
      | None \<Rightarrow> cstr SODCHAN_DEFAULT_ALLOWED_CHANNELS))"
  unfolding allowed_split reachable_allowed [OF assms]
  by (simp split: option.split)

theorem allowlist_in_force_witness:
  "\<exists>ctx. reachable sample_sodium (Some (sample_server\<lparr> cfg_allowed_channels := Some [97, 44, 98] \<rparr>)) ctx
     \<and> channel_name_allowed (Some [98]) ctx \<and> \<not> channel_name_allowed (Some [97, 44]) ctx"
proof -
  let ?cfg = "sample_server\<lparr> cfg_allowed_channels := Some [97, 44, 98] \<rparr>"
  obtain ctx where "sodchan_create sample_sodium False True True ([] :: bytes) 7 0 (Some ?cfg) = Some ctx"
    using create_succeeds [of sample_sodium False True True 0 "Some ?cfg", OF _ sample_kx_keypair_law]
    by (auto simp: create_allowed_def sample_server_def zero_config_def sample_sodium_def config_ok_def)
  then have r: "reachable sample_sodium (Some ?cfg) ctx" by (rule reachable.created)
  have "channel_name_allowed (Some [98]) ctx" "\<not> channel_name_allowed (Some [97, 44]) ctx"
    using allowlist_in_force [OF r, of "[98]"] allowlist_in_force [OF r, of "[97, 44]"]
    by (simp_all add: SODCHAN_CFG_STORE_SIZE_def c_strlen_def cstr_def)
  with r show ?thesis by blast
qed

end
