(* ===== verification/Wire_Memory.thy ===== *)
theory Wire_Memory
  imports Wire_Mux Wire_Auth "HOL-Library.Monad_Syntax"
begin

text \<open>
  The decoders of \<^verbatim>\<open>src/sodchan_wire.c\<close> with their memory accesses, statement by
  statement: every byte read from the PDU and every byte written to an array or
  a text buffer of the caller, in the order of the source. Some of them write
  before their last check fails, which the value-level decoders of \<open>Wire_Auth\<close>
  and \<open>Wire_Mux\<close> do not show. An access outside the PDU or outside a buffer is
  the value \<open>None\<close>; every decoder is shown to avoid it and to agree with its
  value-level counterpart.
\<close>

section \<open>Memory\<close>

definition peek :: "bytes \<Rightarrow> nat \<Rightarrow> byte option" where
  "peek p i = (if i < length p then Some (p ! i) else None)"

definition peeks :: "bytes \<Rightarrow> nat \<Rightarrow> nat \<Rightarrow> bytes option" where
  "peeks p off n = (if off + n \<le> length p then Some (take n (drop off p)) else None)"

definition poke :: "bytes \<Rightarrow> nat \<Rightarrow> bytes \<Rightarrow> bytes option" where
  "poke buf off bs =
     (if off + length bs \<le> length buf then Some (take off buf @ bs @ drop (off + length bs) buf)
      else None)"

definition peek_u16 :: "bytes \<Rightarrow> nat \<Rightarrow> u16 option" where
  "peek_u16 p off = map_option sodchan_wire_get_u16 (peeks p off 2)"

definition peek_u32 :: "bytes \<Rightarrow> nat \<Rightarrow> u32 option" where
  "peek_u32 p off = map_option sodchan_wire_get_u32 (peeks p off 4)"

text \<open>\<^verbatim>\<open>memcpy(dst, pdu + off, n)\<close>\<close>

definition copy_in :: "bytes \<Rightarrow> bytes \<Rightarrow> nat \<Rightarrow> nat \<Rightarrow> bytes option" where
  "copy_in dst p off n = do { src \<leftarrow> peeks p off n; poke dst 0 src }"

text \<open>
  The guarded copy of a text: \<open>buf\<close> is the caller's buffer (\<open>None\<close> for NULL),
  \<open>cap\<close> the capacity the caller declares, \<open>n\<close> the length on the wire.
\<close>

definition put_text :: "span \<Rightarrow> nat \<Rightarrow> bytes \<Rightarrow> nat \<Rightarrow> nat \<Rightarrow> span option" where
  "put_text buf cap p off n =
     (case buf of
        None \<Rightarrow> Some None
      | Some b \<Rightarrow>
          if cap > 0 then
            let copy = (if n \<ge> cap then cap - 1 else n) in
            do { b \<leftarrow> (if n \<noteq> 0 then copy_in b p off copy else Some b);
                 b \<leftarrow> poke b copy [0];
                 Some (Some b) }
          else Some (Some b))"

text \<open>A buffer is at least as long as declared, and what a copy leaves of it.\<close>

definition has_room :: "span \<Rightarrow> nat \<Rightarrow> bool" where
  "has_room buf cap = (case buf of None \<Rightarrow> True | Some b \<Rightarrow> cap \<le> length b)"

definition kept_beyond :: "nat \<Rightarrow> span \<Rightarrow> span \<Rightarrow> bool" where
  "kept_beyond cap old new =
     (case (old, new) of
        (None, None) \<Rightarrow> True
      | (Some b, Some c) \<Rightarrow> length c = length b \<and> drop cap c = drop cap b
      | _ \<Rightarrow> False)"

definition holds_text :: "span \<Rightarrow> bytes \<Rightarrow> bool" where
  "holds_text buf t = (case buf of None \<Rightarrow> True | Some b \<Rightarrow> take (length t) b = t)"

lemma peek_in [simp]: "i < length p \<Longrightarrow> peek p i = Some (p ! i)"
  by (simp add: peek_def)

lemma peek_first [simp]: "p \<noteq> [] \<Longrightarrow> peek p 0 = Some (p ! 0)"
  by (simp add: peek_def)

lemma peek_u16_in [simp]: "off + 2 \<le> length p \<Longrightarrow> peek_u16 p off = Some (sodchan_wire_get_u16 (drop off p))"
  by (simp add: peek_u16_def peeks_def get_u16_take)

lemma peek_u32_in [simp]: "off + 4 \<le> length p \<Longrightarrow> peek_u32 p off = Some (sodchan_wire_get_u32 (drop off p))"
  by (simp add: peek_u32_def peeks_def get_u32_take)

lemma copy_in_whole [simp]:
  "off + n \<le> length p \<Longrightarrow> length dst = n \<Longrightarrow> copy_in dst p off n = Some (take n (drop off p))"
  by (simp add: copy_in_def peeks_def poke_def)

lemma kept_beyond_refl [simp]: "kept_beyond cap b b"
  by (simp add: kept_beyond_def split: option.split)

lemma put_text_in:
  assumes "has_room buf cap" and "off + n \<le> length p"
  shows "\<exists>b. put_text buf cap p off n = Some b \<and> kept_beyond cap buf b
    \<and> holds_text b (copy_cstr (drop off p) n cap)"
proof (cases buf)
  case None
  then show ?thesis by (simp add: put_text_def kept_beyond_def holds_text_def)
next
  case (Some b)
  define k where "k = (if n \<ge> cap then cap - 1 else n)"
  show ?thesis
  proof (cases "cap = 0")
    case True
    with Some show ?thesis by (simp add: put_text_def holds_text_def copy_cstr_def)
  next
    case False
    with assms have k: "k \<le> n" "k < cap" "cap \<le> length b" "off + k \<le> length p"
      by (auto simp: k_def has_room_def Some)
    let ?b = "take k (drop off p) @ 0 # drop (Suc k) b"
    have "put_text buf cap p off n = Some (Some ?b)"
    proof (cases "n = 0")
      case True
      with k have "k = 0" by simp
      with True False k show ?thesis by (simp add: put_text_def Some poke_def)
    next
      case n: False
      then have "copy_in b p off k = Some (take k (drop off p) @ drop k b)"
        using k by (simp add: copy_in_def peeks_def poke_def)
      moreover have "poke (take k (drop off p) @ drop k b) k [0] = Some ?b"
        using k by (simp add: poke_def)
      ultimately show ?thesis using n False by (simp add: put_text_def Some k_def)
    qed
    moreover have "drop cap ?b = drop cap b"
      using k by (cases cap) (simp_all add: less_Suc_eq_le Suc_diff_le)
    moreover have "take (Suc k) ?b = copy_cstr (drop off p) n cap"
      using k False by (simp add: copy_cstr_def k_def [symmetric])
    moreover have "length (copy_cstr (drop off p) n cap) = Suc k"
      using k False by (simp add: copy_cstr_def k_def [symmetric])
    ultimately show ?thesis using k by (simp add: kept_beyond_def holds_text_def Some)
  qed
qed

section \<open>The decoders\<close>

text \<open>
  The out-parameters of a decoder are a record of what they point to. Each
  definition returns the code and that record, with the stores made up to the
  return; arrays and text buffers are written through \<open>copy_in\<close> and \<open>put_text\<close>.
\<close>

definition sodchan_wire_hello_decode_mem ::
    "span \<Rightarrow> sodchan_hello \<Rightarrow> (rc \<times> sodchan_hello) option" where
  "sodchan_wire_hello_decode_mem body h =
     (case body of
        None \<Rightarrow> Some (SODCHAN_ERR_PARAM, h)
      | Some b \<Rightarrow>
          if length b \<noteq> SODCHAN_HELLO_BODY_LEN then Some (SODCHAN_ERR_PROTOCOL, h)
          else do {
            magic \<leftarrow> peek_u16 b 0;
            if magic \<noteq> SODCHAN_MAGIC then Some (SODCHAN_ERR_PROTOCOL, h)
            else do {
              version \<leftarrow> peek_u16 b 2;
              suite \<leftarrow> peek_u16 b 4;
              role \<leftarrow> peek_u16 b 6;
              flags \<leftarrow> peek_u32 b 8;
              eph \<leftarrow> copy_in (h_eph_pk h) b 12 32;
              ident \<leftarrow> copy_in (h_id_pk h) b 44 32;
              sig \<leftarrow> copy_in (h_id_sig h) b 76 64;
              let h = \<lparr> h_proto_version = version, h_suite_id = suite, h_role = role, h_flags = flags,
                        h_eph_pk = eph, h_id_pk = ident, h_id_sig = sig \<rparr>;
              if h_proto_version h \<noteq> SODCHAN_PROTO_VERSION \<or> h_suite_id h \<noteq> SODCHAN_SUITE_V1
              then Some (SODCHAN_ERR_PROTOCOL, h)
              else if h_role h \<noteq> SODCHAN_ROLE_SERVER \<and> h_role h \<noteq> SODCHAN_ROLE_CLIENT
              then Some (SODCHAN_ERR_PROTOCOL, h)
              else Some (SODCHAN_OK, h) } })"

record auth_device_out =
  ad_client_id_pk :: bytes
  ad_client_sig :: bytes
  ad_username :: span
  ad_username_len :: nat
  ad_device_id :: span
  ad_device_id_len :: nat

definition sodchan_wire_auth_device_decode_mem ::
    "span \<Rightarrow> nat \<Rightarrow> nat \<Rightarrow> auth_device_out \<Rightarrow> (rc \<times> auth_device_out) option" where
  "sodchan_wire_auth_device_decode_mem pdu username_cap device_id_cap out =
     (case pdu of
        None \<Rightarrow> Some (SODCHAN_ERR_PARAM, out)
      | Some p \<Rightarrow>
          if length p < 1 + 32 + 64 + 1 + 1 then Some (SODCHAN_ERR_PROTOCOL, out)
          else do {
            ty \<leftarrow> peek p 0;
            if ty \<noteq> SODCHAN_PDU_AUTH_DEVICE then Some (SODCHAN_ERR_PROTOCOL, out)
            else do {
              pk \<leftarrow> copy_in (ad_client_id_pk out) p 1 32;
              sig \<leftarrow> copy_in (ad_client_sig out) p 33 64;
              let out = out\<lparr> ad_client_id_pk := pk, ad_client_sig := sig \<rparr>;
              ulen \<leftarrow> map_option unat (peek p 97);
              let off = 98;
              if ulen > SODCHAN_USER_MAX \<or> off + ulen + 1 > length p then Some (SODCHAN_ERR_PROTOCOL, out)
              else do {
                user \<leftarrow> put_text (ad_username out) username_cap p off ulen;
                let out = out\<lparr> ad_username := user, ad_username_len := ulen \<rparr>;
                let off = off + ulen;
                dlen \<leftarrow> map_option unat (peek p off);
                let off = off + 1;
                if dlen > SODCHAN_DEVICE_ID_MAX \<or> off + dlen > length p
                then Some (SODCHAN_ERR_PROTOCOL, out)
                else if off + dlen \<noteq> length p then Some (SODCHAN_ERR_PROTOCOL, out)
                else do {
                  dev \<leftarrow> put_text (ad_device_id out) device_id_cap p off dlen;
                  Some (SODCHAN_OK, out\<lparr> ad_device_id := dev, ad_device_id_len := dlen \<rparr>) } } } })"

text \<open>
  The claims are a view into the PDU: its offset and length, no offset for NULL.
\<close>

definition sodchan_wire_auth_ok_decode_mem ::
    "span \<Rightarrow> nat option \<times> nat \<Rightarrow> (rc \<times> nat option \<times> nat) option" where
  "sodchan_wire_auth_ok_decode_mem pdu out =
     (case pdu of
        None \<Rightarrow> Some (SODCHAN_ERR_PARAM, out)
      | Some p \<Rightarrow>
          if length p < 3 then Some (SODCHAN_ERR_PROTOCOL, out)
          else do {
            ty \<leftarrow> peek p 0;
            if ty \<noteq> SODCHAN_PDU_AUTH_OK then Some (SODCHAN_ERR_PROTOCOL, out)
            else do {
              C \<leftarrow> map_option unat (peek_u16 p 1);
              if C > SODCHAN_CLAIMS_MAX \<or> length p \<noteq> 3 + C then Some (SODCHAN_ERR_PROTOCOL, out)
              else Some (SODCHAN_OK, if C > 0 then Some 3 else None, C) } })"

text \<open>\<open>out\<close> is what \<^verbatim>\<open>reason\<close> and \<^verbatim>\<open>msg_len\<close> point to.\<close>

definition sodchan_wire_auth_fail_decode_mem ::
    "span \<Rightarrow> byte \<times> byte \<Rightarrow> (rc \<times> byte \<times> byte) option" where
  "sodchan_wire_auth_fail_decode_mem pdu out =
     (case pdu of
        None \<Rightarrow> Some (SODCHAN_ERR_PARAM, out)
      | Some p \<Rightarrow>
          if length p < 3 then Some (SODCHAN_ERR_PROTOCOL, out)
          else do {
            ty \<leftarrow> peek p 0;
            if ty \<noteq> SODCHAN_PDU_AUTH_FAIL then Some (SODCHAN_ERR_PROTOCOL, out)
            else do {
              reason \<leftarrow> peek p 1;
              msg_len \<leftarrow> peek p 2;
              if length p \<noteq> 3 + unat msg_len then Some (SODCHAN_ERR_PROTOCOL, reason, msg_len)
              else Some (SODCHAN_OK, reason, msg_len) } })"

record channel_open_out =
  co_sender_channel :: u32
  co_init_window :: u32
  co_max_packet :: u32
  co_name :: span
  co_name_len :: nat

definition sodchan_wire_channel_open_decode_mem ::
    "span \<Rightarrow> nat \<Rightarrow> channel_open_out \<Rightarrow> (rc \<times> channel_open_out) option" where
  "sodchan_wire_channel_open_decode_mem pdu name_cap out =
     (case pdu of
        None \<Rightarrow> Some (SODCHAN_ERR_PARAM, out)
      | Some p \<Rightarrow>
          if length p < 14 then Some (SODCHAN_ERR_PROTOCOL, out)
          else do {
            ty \<leftarrow> peek p 0;
            if ty \<noteq> SODCHAN_PDU_CHANNEL_OPEN then Some (SODCHAN_ERR_PROTOCOL, out)
            else do {
              sender \<leftarrow> peek_u32 p 1;
              window \<leftarrow> peek_u32 p 5;
              packet \<leftarrow> peek_u32 p 9;
              let out = out\<lparr> co_sender_channel := sender, co_init_window := window, co_max_packet := packet \<rparr>;
              nlen \<leftarrow> map_option unat (peek p 13);
              if nlen > SODCHAN_CHANNEL_NAME_MAX \<or> length p \<noteq> 14 + nlen
              then Some (SODCHAN_ERR_PROTOCOL, out)
              else do {
                let out = out\<lparr> co_name_len := nlen \<rparr>;
                name \<leftarrow> put_text (co_name out) name_cap p 14 nlen;
                Some (SODCHAN_OK, out\<lparr> co_name := name \<rparr>) } } })"

definition sodchan_wire_channel_open_confirm_decode_mem ::
    "span \<Rightarrow> u32 \<times> u32 \<times> u32 \<times> u32 \<Rightarrow> (rc \<times> u32 \<times> u32 \<times> u32 \<times> u32) option" where
  "sodchan_wire_channel_open_confirm_decode_mem pdu out =
     (case pdu of
        None \<Rightarrow> Some (SODCHAN_ERR_PARAM, out)
      | Some p \<Rightarrow>
          if length p \<noteq> 17 then Some (SODCHAN_ERR_PROTOCOL, out)
          else do {
            ty \<leftarrow> peek p 0;
            if ty \<noteq> SODCHAN_PDU_CHANNEL_OPEN_CONFIRM then Some (SODCHAN_ERR_PROTOCOL, out)
            else do {
              sender \<leftarrow> peek_u32 p 1;
              recipient \<leftarrow> peek_u32 p 5;
              window \<leftarrow> peek_u32 p 9;
              packet \<leftarrow> peek_u32 p 13;
              Some (SODCHAN_OK, sender, recipient, window, packet) } })"

text \<open>OPEN_FAIL and DISCONNECT have a reason and a message in common.\<close>

record message_out =
  mo_recipient_channel :: u32
  mo_reason :: u32
  mo_msg :: span
  mo_msg_len :: nat

definition sodchan_wire_channel_open_fail_decode_mem ::
    "span \<Rightarrow> nat \<Rightarrow> message_out \<Rightarrow> (rc \<times> message_out) option" where
  "sodchan_wire_channel_open_fail_decode_mem pdu msg_cap out =
     (case pdu of
        None \<Rightarrow> Some (SODCHAN_ERR_PARAM, out)
      | Some p \<Rightarrow>
          if length p < 10 then Some (SODCHAN_ERR_PROTOCOL, out)
          else do {
            ty \<leftarrow> peek p 0;
            if ty \<noteq> SODCHAN_PDU_CHANNEL_OPEN_FAIL then Some (SODCHAN_ERR_PROTOCOL, out)
            else do {
              recipient \<leftarrow> peek_u32 p 1;
              reason \<leftarrow> peek_u32 p 5;
              let out = out\<lparr> mo_recipient_channel := recipient, mo_reason := reason \<rparr>;
              mlen \<leftarrow> map_option unat (peek p 9);
              if length p \<noteq> 10 + mlen then Some (SODCHAN_ERR_PROTOCOL, out)
              else do {
                let out = out\<lparr> mo_msg_len := mlen \<rparr>;
                msg \<leftarrow> put_text (mo_msg out) msg_cap p 10 mlen;
                Some (SODCHAN_OK, out\<lparr> mo_msg := msg \<rparr>) } } })"

text \<open>The data is a view into the PDU, as the claims are.\<close>

definition sodchan_wire_channel_data_decode_mem ::
    "span \<Rightarrow> u32 \<times> nat option \<times> nat \<Rightarrow> (rc \<times> u32 \<times> nat option \<times> nat) option" where
  "sodchan_wire_channel_data_decode_mem pdu out =
     (case pdu of
        None \<Rightarrow> Some (SODCHAN_ERR_PARAM, out)
      | Some p \<Rightarrow>
          if length p < 9 then Some (SODCHAN_ERR_PROTOCOL, out)
          else do {
            ty \<leftarrow> peek p 0;
            if ty \<noteq> SODCHAN_PDU_CHANNEL_DATA then Some (SODCHAN_ERR_PROTOCOL, out)
            else do {
              recipient \<leftarrow> peek_u32 p 1;
              dlen \<leftarrow> map_option unat (peek_u32 p 5);
              if length p \<noteq> 9 + dlen then Some (SODCHAN_ERR_PROTOCOL, recipient, snd out)
              else Some (SODCHAN_OK, recipient, if dlen \<noteq> 0 then Some 9 else None, dlen) } })"

definition sodchan_wire_channel_window_decode_mem ::
    "span \<Rightarrow> u32 \<times> u32 \<Rightarrow> (rc \<times> u32 \<times> u32) option" where
  "sodchan_wire_channel_window_decode_mem pdu out =
     (case pdu of
        None \<Rightarrow> Some (SODCHAN_ERR_PARAM, out)
      | Some p \<Rightarrow>
          if length p \<noteq> 9 then Some (SODCHAN_ERR_PROTOCOL, out)
          else do {
            ty \<leftarrow> peek p 0;
            if ty \<noteq> SODCHAN_PDU_CHANNEL_WINDOW then Some (SODCHAN_ERR_PROTOCOL, out)
            else do {
              recipient \<leftarrow> peek_u32 p 1;
              n \<leftarrow> peek_u32 p 5;
              Some (SODCHAN_OK, recipient, n) } })"

text \<open>EOF, CLOSE, PING and PONG: a type byte and one number.\<close>

definition sodchan_wire_channel_eof_decode_mem :: "span \<Rightarrow> u32 \<Rightarrow> (rc \<times> u32) option" where
  "sodchan_wire_channel_eof_decode_mem pdu out =
     (case pdu of
        None \<Rightarrow> Some (SODCHAN_ERR_PARAM, out)
      | Some p \<Rightarrow>
          if length p \<noteq> 5 then Some (SODCHAN_ERR_PROTOCOL, out)
          else do {
            ty \<leftarrow> peek p 0;
            if ty \<noteq> SODCHAN_PDU_CHANNEL_EOF then Some (SODCHAN_ERR_PROTOCOL, out)
            else do { recipient \<leftarrow> peek_u32 p 1; Some (SODCHAN_OK, recipient) } })"

definition sodchan_wire_channel_close_decode_mem :: "span \<Rightarrow> u32 \<Rightarrow> (rc \<times> u32) option" where
  "sodchan_wire_channel_close_decode_mem pdu out =
     (case pdu of
        None \<Rightarrow> Some (SODCHAN_ERR_PARAM, out)
      | Some p \<Rightarrow>
          if length p \<noteq> 5 then Some (SODCHAN_ERR_PROTOCOL, out)
          else do {
            ty \<leftarrow> peek p 0;
            if ty \<noteq> SODCHAN_PDU_CHANNEL_CLOSE then Some (SODCHAN_ERR_PROTOCOL, out)
            else do { recipient \<leftarrow> peek_u32 p 1; Some (SODCHAN_OK, recipient) } })"

definition sodchan_wire_ping_decode_mem :: "span \<Rightarrow> u32 \<Rightarrow> (rc \<times> u32) option" where
  "sodchan_wire_ping_decode_mem pdu out =
     (case pdu of
        None \<Rightarrow> Some (SODCHAN_ERR_PARAM, out)
      | Some p \<Rightarrow>
          if length p \<noteq> 5 then Some (SODCHAN_ERR_PROTOCOL, out)
          else do {
            ty \<leftarrow> peek p 0;
            if ty \<noteq> SODCHAN_PDU_PING then Some (SODCHAN_ERR_PROTOCOL, out)
            else do { opaque \<leftarrow> peek_u32 p 1; Some (SODCHAN_OK, opaque) } })"

definition sodchan_wire_pong_decode_mem :: "span \<Rightarrow> u32 \<Rightarrow> (rc \<times> u32) option" where
  "sodchan_wire_pong_decode_mem pdu out =
     (case pdu of
        None \<Rightarrow> Some (SODCHAN_ERR_PARAM, out)
      | Some p \<Rightarrow>
          if length p \<noteq> 5 then Some (SODCHAN_ERR_PROTOCOL, out)
          else do {
            ty \<leftarrow> peek p 0;
            if ty \<noteq> SODCHAN_PDU_PONG then Some (SODCHAN_ERR_PROTOCOL, out)
            else do { opaque \<leftarrow> peek_u32 p 1; Some (SODCHAN_OK, opaque) } })"

definition sodchan_wire_disconnect_decode_mem ::
    "span \<Rightarrow> nat \<Rightarrow> message_out \<Rightarrow> (rc \<times> message_out) option" where
  "sodchan_wire_disconnect_decode_mem pdu msg_cap out =
     (case pdu of
        None \<Rightarrow> Some (SODCHAN_ERR_PARAM, out)
      | Some p \<Rightarrow>
          if length p < 6 then Some (SODCHAN_ERR_PROTOCOL, out)
          else do {
            ty \<leftarrow> peek p 0;
            if ty \<noteq> SODCHAN_PDU_DISCONNECT then Some (SODCHAN_ERR_PROTOCOL, out)
            else do {
              reason \<leftarrow> peek_u32 p 1;
              let out = out\<lparr> mo_reason := reason \<rparr>;
              mlen \<leftarrow> map_option unat (peek p 5);
              if length p \<noteq> 6 + mlen then Some (SODCHAN_ERR_PROTOCOL, out)
              else do {
                let out = out\<lparr> mo_msg_len := mlen \<rparr>;
                msg \<leftarrow> put_text (mo_msg out) msg_cap p 6 mlen;
                Some (SODCHAN_OK, out\<lparr> mo_msg := msg \<rparr>) } } })"

section \<open>Every access is inside\<close>

text \<open>
  What is shown of a run: it makes no access outside (the result is not
  \<open>None\<close>), what it leaves in memory satisfies \<open>inside\<close>, it returns the code of
  the value-level decoder, and on success it has stored that decoder's values.
\<close>

definition decodes_as ::
    "(rc \<times> 'o) option \<Rightarrow> ('o \<Rightarrow> bool) \<Rightarrow> rc + 'v \<Rightarrow> ('o \<Rightarrow> 'v \<Rightarrow> bool) \<Rightarrow> bool" where
  "decodes_as run inside val stored \<longleftrightarrow>
     (\<exists>rc out. run = Some (rc, out) \<and> inside out \<and>
        (case val of Inl e \<Rightarrow> rc = e \<and> e \<noteq> SODCHAN_OK | Inr v \<Rightarrow> rc = SODCHAN_OK \<and> stored out v))"

lemma decodes_as_simps [simp]:
  "decodes_as (Some (rc, out)) P (Inl e) Q \<longleftrightarrow> P out \<and> rc = e \<and> e \<noteq> SODCHAN_OK"
  "decodes_as (Some (rc, out)) P (Inr v) Q \<longleftrightarrow> P out \<and> rc = SODCHAN_OK \<and> Q out v"
  by (auto simp: decodes_as_def)

text \<open>A view lies inside the PDU and shows the bytes of the value.\<close>

definition views :: "span \<Rightarrow> nat option \<times> nat \<Rightarrow> bytes \<Rightarrow> bool" where
  "views pdu v t =
     (case (pdu, v) of
        (Some p, Some off, n) \<Rightarrow> off + n \<le> length p \<and> take n (drop off p) = t
      | (Some p, None, n) \<Rightarrow> n = 0 \<and> t = []
      | _ \<Rightarrow> False)"

definition texts_kept :: "nat \<Rightarrow> nat \<Rightarrow> auth_device_out \<Rightarrow> auth_device_out \<Rightarrow> bool" where
  "texts_kept username_cap device_id_cap old new \<longleftrightarrow>
     length (ad_client_id_pk new) = 32 \<and> length (ad_client_sig new) = 64
     \<and> kept_beyond username_cap (ad_username old) (ad_username new)
     \<and> kept_beyond device_id_cap (ad_device_id old) (ad_device_id new)"

definition auth_device_stored ::
    "auth_device_out \<Rightarrow> bytes \<times> bytes \<times> bytes \<times> nat \<times> bytes \<times> nat \<Rightarrow> bool" where
  "auth_device_stored out = (\<lambda>(pk, sig, user, ulen, dev, dlen).
     ad_client_id_pk out = pk \<and> ad_client_sig out = sig
     \<and> holds_text (ad_username out) user \<and> ad_username_len out = ulen
     \<and> holds_text (ad_device_id out) dev \<and> ad_device_id_len out = dlen)"

lemma hello_decode_mem:
  assumes "hello_arrays h"
  shows "decodes_as (sodchan_wire_hello_decode_mem body h) hello_arrays
           (sodchan_wire_hello_decode body) (=)"
  using assms
  by (simp add: sodchan_wire_hello_decode_mem_def sodchan_wire_hello_decode_def SODCHAN_HELLO_BODY_LEN_def
      hello_arrays_def Let_def split: option.split)

lemma auth_device_decode_mem:
  assumes "length (ad_client_id_pk out) = 32" and "length (ad_client_sig out) = 64"
    and "has_room (ad_username out) ucap" and "has_room (ad_device_id out) dcap"
  shows "decodes_as (sodchan_wire_auth_device_decode_mem pdu ucap dcap out)
           (texts_kept ucap dcap out) (sodchan_wire_auth_device_decode pdu ucap dcap) auth_device_stored"
proof (cases pdu)
  case None
  with assms show ?thesis
    by (simp add: sodchan_wire_auth_device_decode_mem_def sodchan_wire_auth_device_decode_def texts_kept_def)
next
  case (Some p)
  define u where "u = unat (p ! 97)"
  define d where "d = unat (p ! (98 + u))"
  show ?thesis
  proof (cases "length p < 99 \<or> p ! 0 \<noteq> SODCHAN_PDU_AUTH_DEVICE \<or> u > SODCHAN_USER_MAX \<or> 99 + u > length p")
    case True
    with assms show ?thesis
      by (cases "p = []") (auto simp: Some sodchan_wire_auth_device_decode_mem_def sodchan_wire_auth_device_decode_def
          texts_kept_def Let_def u_def)
  next
    case False
    then have len: "p \<noteq> []" "99 \<le> length p" "99 + u \<le> length p" by auto
    obtain ub where ub: "put_text (ad_username out) ucap p 98 u = Some ub"
      "kept_beyond ucap (ad_username out) ub" "holds_text ub (copy_cstr (drop 98 p) u ucap)"
      using put_text_in [OF assms(3), of 98 u p] len by auto
    have db: "\<exists>db. put_text (ad_device_id out) dcap p (99 + u) d = Some db
        \<and> kept_beyond dcap (ad_device_id out) db \<and> holds_text db (copy_cstr (drop (99 + u) p) d dcap)"
      if "99 + u + d = length p" using put_text_in [OF assms(4), of "99 + u" d p] that by simp
    show ?thesis
      using False len ub(2,3) assms db
      by (auto simp: Some sodchan_wire_auth_device_decode_mem_def sodchan_wire_auth_device_decode_def
          texts_kept_def auth_device_stored_def Let_def u_def [symmetric] ub(1) d_def [symmetric])
  qed
qed


lemma auth_ok_decode_mem:
  "decodes_as (sodchan_wire_auth_ok_decode_mem pdu out) (\<lambda>_. True) (sodchan_wire_auth_ok_decode pdu) (views pdu)"
proof (cases pdu)
  case None
  then show ?thesis by (simp add: sodchan_wire_auth_ok_decode_mem_def sodchan_wire_auth_ok_decode_def)
next
  case (Some p)
  define C where "C = unat (sodchan_wire_get_u16 (drop 1 p))"
  show ?thesis
  proof (cases "length p < 3")
    case False
    then have "p \<noteq> []" "1 + 2 \<le> length p" by auto
    then show ?thesis
      using False unfolding Some sodchan_wire_auth_ok_decode_mem_def sodchan_wire_auth_ok_decode_def Let_def
      by (simp add: C_def [symmetric, unfolded One_nat_def] views_def)
  qed (simp add: Some sodchan_wire_auth_ok_decode_mem_def sodchan_wire_auth_ok_decode_def)
qed

lemma auth_fail_decode_mem:
  "decodes_as (sodchan_wire_auth_fail_decode_mem pdu out) (\<lambda>_. True) (sodchan_wire_auth_fail_decode pdu) (=)"
  by (cases pdu; cases "the pdu = []")
    (auto simp: sodchan_wire_auth_fail_decode_mem_def sodchan_wire_auth_fail_decode_def)

lemma channel_open_decode_mem:
  assumes "has_room (co_name out) cap"
  shows "decodes_as (sodchan_wire_channel_open_decode_mem pdu cap out)
    (\<lambda>o'. kept_beyond cap (co_name out) (co_name o')) (sodchan_wire_channel_open_decode pdu cap)
    (\<lambda>o' (s, w, m, name, n). co_sender_channel o' = s \<and> co_init_window o' = w \<and> co_max_packet o' = m
       \<and> holds_text (co_name o') name \<and> co_name_len o' = n)"
  using put_text_in [OF assms, of 14 "unat (the pdu ! 13)" "the pdu"]
  by (cases pdu; cases "the pdu = []")
    (auto simp: sodchan_wire_channel_open_decode_mem_def sodchan_wire_channel_open_decode_def Let_def)

lemma channel_open_confirm_decode_mem:
  "decodes_as (sodchan_wire_channel_open_confirm_decode_mem pdu out4) (\<lambda>_. True)
     (sodchan_wire_channel_open_confirm_decode pdu) (=)"
  by (cases pdu; cases "the pdu = []")
    (auto simp: sodchan_wire_channel_open_confirm_decode_mem_def sodchan_wire_channel_open_confirm_decode_def)

lemma channel_open_fail_decode_mem:
  assumes "has_room (mo_msg out) cap"
  shows "decodes_as (sodchan_wire_channel_open_fail_decode_mem pdu cap out)
    (\<lambda>o'. kept_beyond cap (mo_msg out) (mo_msg o')) (sodchan_wire_channel_open_fail_decode pdu cap)
    (\<lambda>o' (k, r, m, n). mo_recipient_channel o' = k \<and> mo_reason o' = r
       \<and> holds_text (mo_msg o') m \<and> mo_msg_len o' = n)"
  using put_text_in [OF assms, of 10 "unat (the pdu ! 9)" "the pdu"]
  by (cases pdu; cases "the pdu = []")
    (auto simp: sodchan_wire_channel_open_fail_decode_mem_def sodchan_wire_channel_open_fail_decode_def Let_def)

lemma channel_data_decode_mem:
  "decodes_as (sodchan_wire_channel_data_decode_mem pdu outd) (\<lambda>_. True) (sodchan_wire_channel_data_decode pdu)
     (\<lambda>(k, v) (k', t). k = k' \<and> views pdu v t)"
proof (cases pdu)
  case None
  then show ?thesis by (simp add: sodchan_wire_channel_data_decode_mem_def sodchan_wire_channel_data_decode_def)
next
  case (Some p)
  define n where "n = unat (sodchan_wire_get_u32 (drop 5 p))"
  show ?thesis
  proof (cases "length p < 9")
    case False
    then have "p \<noteq> []" "1 + 4 \<le> length p" "5 + 4 \<le> length p" by auto
    then show ?thesis
      using False unfolding Some sodchan_wire_channel_data_decode_mem_def sodchan_wire_channel_data_decode_def Let_def
      by (simp add: n_def [symmetric] views_def)
  qed (simp add: Some sodchan_wire_channel_data_decode_mem_def sodchan_wire_channel_data_decode_def)
qed

lemma channel_window_decode_mem:
  "decodes_as (sodchan_wire_channel_window_decode_mem pdu out2) (\<lambda>_. True) (sodchan_wire_channel_window_decode pdu) (=)"
  by (cases pdu; cases "the pdu = []")
    (auto simp: sodchan_wire_channel_window_decode_mem_def sodchan_wire_channel_window_decode_def)

lemma one_number_decode_mem:
  "decodes_as (sodchan_wire_channel_eof_decode_mem pdu n) (\<lambda>_. True) (sodchan_wire_channel_eof_decode pdu) (=)"
  "decodes_as (sodchan_wire_channel_close_decode_mem pdu n) (\<lambda>_. True) (sodchan_wire_channel_close_decode pdu) (=)"
  "decodes_as (sodchan_wire_ping_decode_mem pdu n) (\<lambda>_. True) (sodchan_wire_ping_decode pdu) (=)"
  "decodes_as (sodchan_wire_pong_decode_mem pdu n) (\<lambda>_. True) (sodchan_wire_pong_decode pdu) (=)"
  by (cases pdu; cases "the pdu = []";
      auto simp: sodchan_wire_channel_eof_decode_mem_def sodchan_wire_channel_eof_decode_def
        sodchan_wire_channel_close_decode_mem_def sodchan_wire_channel_close_decode_def
        sodchan_wire_ping_decode_mem_def sodchan_wire_ping_decode_def
        sodchan_wire_pong_decode_mem_def sodchan_wire_pong_decode_def)+

lemma disconnect_decode_mem:
  assumes "has_room (mo_msg out) cap"
  shows "decodes_as (sodchan_wire_disconnect_decode_mem pdu cap out)
    (\<lambda>o'. kept_beyond cap (mo_msg out) (mo_msg o')) (sodchan_wire_disconnect_decode pdu cap)
    (\<lambda>o' (r, m, n). mo_reason o' = r \<and> holds_text (mo_msg o') m \<and> mo_msg_len o' = n)"
  using put_text_in [OF assms, of 6 "unat (the pdu ! 5)" "the pdu"]
  by (cases pdu; cases "the pdu = []")
    (auto simp: sodchan_wire_disconnect_decode_mem_def sodchan_wire_disconnect_decode_def Let_def)

end
