(* ===== verification/Bounds.thy ===== *)
theory Bounds
  imports Wire_Memory Crypto
begin

text \<open>
  The encoders of \<^verbatim>\<open>src/sodchan_wire.c\<close> and the fingerprint of
  \<^verbatim>\<open>src/sodchan_crypto.c\<close> never write more than the capacity they are given,
  and the decoders never read outside the PDU nor write outside the caller's
  arrays and text buffers, whether they succeed or fail.
\<close>

lemmas bound_defs = sodchan_wire_frame_encode_def sodchan_wire_frame_encode_max_def
  auth_codec_defs mux_codec_defs

lemma copy_cstr_length: "length (copy_cstr s n cap) \<le> cap"
  by (auto simp: copy_cstr_def min_def Suc_le_eq)

text \<open>
  C32. Memory safety of the wire code. No encoder writes past its buffer: what
  each of them stores is at most the capacity passed in, whatever the field
  values. No decoder reads a byte outside the PDU or writes one outside the
  arrays and text buffers it is given, on any input and also when a late check
  fails after some fields have been stored; it leaves every text buffer alone
  beyond the declared capacity, returns the code of the value-level decoder,
  and on success has stored that decoder's values, the texts cut to the
  capacity and NUL-terminated. Claims and data are views inside the PDU.
\<close>

theorem encoders_fit:
  "(sodchan_wire_frame_encode_max body m (Some cap) = Inr bs \<longrightarrow> length bs \<le> cap)
   \<and> (sodchan_wire_frame_encode body (Some cap) = Inr bs \<longrightarrow> length bs \<le> cap)
   \<and> (hello_arrays h \<longrightarrow> sodchan_wire_hello_encode h (Some cap) = Inr bs \<longrightarrow> length bs \<le> cap)
   \<and> (length pk = 32 \<longrightarrow> length t = SODCHAN_T_HELLO_LEN \<longrightarrow>
        sodchan_wire_build_t_auth t pk user dev (Some cap) = Inr bs \<longrightarrow> length bs \<le> cap)
   \<and> (length pk = 32 \<longrightarrow> length sig = 64 \<longrightarrow>
        sodchan_wire_auth_device_encode pk sig user dev (Some cap) = Inr bs \<longrightarrow> length bs \<le> cap)
   \<and> (sodchan_wire_auth_ok_encode claims (Some cap) = Inr bs \<longrightarrow> length bs \<le> cap)
   \<and> (sodchan_wire_auth_fail_encode (Some cap) = Inr bs \<longrightarrow> length bs \<le> cap)
   \<and> (sodchan_wire_channel_open_encode a b c name (Some cap) = Inr bs \<longrightarrow> length bs \<le> cap)
   \<and> (sodchan_wire_channel_open_confirm_encode a b c d (Some cap) = Inr bs \<longrightarrow> length bs \<le> cap)
   \<and> (sodchan_wire_channel_open_fail_encode a b name (Some cap) = Inr bs \<longrightarrow> length bs \<le> cap)
   \<and> (sodchan_wire_channel_data_encode a body (Some cap) = Inr bs \<longrightarrow> length bs \<le> cap)
   \<and> (sodchan_wire_channel_window_encode a b (Some cap) = Inr bs \<longrightarrow> length bs \<le> cap)
   \<and> (sodchan_wire_channel_eof_encode a (Some cap) = Inr bs \<longrightarrow> length bs \<le> cap)
   \<and> (sodchan_wire_channel_close_encode a (Some cap) = Inr bs \<longrightarrow> length bs \<le> cap)
   \<and> (sodchan_wire_ping_encode a (Some cap) = Inr bs \<longrightarrow> length bs \<le> cap)
   \<and> (sodchan_wire_pong_encode a (Some cap) = Inr bs \<longrightarrow> length bs \<le> cap)
   \<and> (sodchan_wire_disconnect_encode a body (Some cap) = Inr bs \<longrightarrow> length bs \<le> cap)
   \<and> (sodchan_pubkey_fingerprint_sha256 sod pk (Some cap) = Inr bs \<longrightarrow> length bs \<le> cap)
   \<and> (sodchan_wire_channel_open_decode pdu cap = Inr (a, b, c, bs, n) \<longrightarrow> length bs \<le> cap)
   \<and> (sodchan_wire_channel_open_fail_decode pdu cap = Inr (a, b, bs, n) \<longrightarrow> length bs \<le> cap)
   \<and> (sodchan_wire_disconnect_decode pdu cap = Inr (a, bs, n) \<longrightarrow> length bs \<le> cap)
   \<and> (sodchan_wire_auth_device_decode pdu cap cap' = Inr (pk', sig', bs, n, bs', n') \<longrightarrow>
        length bs \<le> cap \<and> length bs' \<le> cap')
   \<and> (hello_arrays h \<longrightarrow>
        decodes_as (sodchan_wire_hello_decode_mem pdu h) hello_arrays (sodchan_wire_hello_decode pdu) (=))
   \<and> (length (ad_client_id_pk ad) = 32 \<longrightarrow> length (ad_client_sig ad) = 64 \<longrightarrow>
        has_room (ad_username ad) cap \<longrightarrow> has_room (ad_device_id ad) cap' \<longrightarrow>
        decodes_as (sodchan_wire_auth_device_decode_mem pdu cap cap' ad) (texts_kept cap cap' ad)
          (sodchan_wire_auth_device_decode pdu cap cap') auth_device_stored)
   \<and> decodes_as (sodchan_wire_auth_ok_decode_mem pdu v) (\<lambda>_. True)
        (sodchan_wire_auth_ok_decode pdu) (views pdu)
   \<and> decodes_as (sodchan_wire_auth_fail_decode_mem pdu f) (\<lambda>_. True)
        (sodchan_wire_auth_fail_decode pdu) (=)
   \<and> (has_room (co_name co) cap \<longrightarrow>
        decodes_as (sodchan_wire_channel_open_decode_mem pdu cap co)
          (\<lambda>o'. kept_beyond cap (co_name co) (co_name o')) (sodchan_wire_channel_open_decode pdu cap)
          (\<lambda>o' (s, w, m, nm, n). co_sender_channel o' = s \<and> co_init_window o' = w
             \<and> co_max_packet o' = m \<and> holds_text (co_name o') nm \<and> co_name_len o' = n))
   \<and> decodes_as (sodchan_wire_channel_open_confirm_decode_mem pdu cf) (\<lambda>_. True)
        (sodchan_wire_channel_open_confirm_decode pdu) (=)
   \<and> (has_room (mo_msg mo) cap \<longrightarrow>
        decodes_as (sodchan_wire_channel_open_fail_decode_mem pdu cap mo)
          (\<lambda>o'. kept_beyond cap (mo_msg mo) (mo_msg o')) (sodchan_wire_channel_open_fail_decode pdu cap)
          (\<lambda>o' (k, r, t, n). mo_recipient_channel o' = k \<and> mo_reason o' = r
             \<and> holds_text (mo_msg o') t \<and> mo_msg_len o' = n)
        \<and> decodes_as (sodchan_wire_disconnect_decode_mem pdu cap mo)
          (\<lambda>o'. kept_beyond cap (mo_msg mo) (mo_msg o')) (sodchan_wire_disconnect_decode pdu cap)
          (\<lambda>o' (r, t, n). mo_reason o' = r \<and> holds_text (mo_msg o') t \<and> mo_msg_len o' = n))
   \<and> decodes_as (sodchan_wire_channel_data_decode_mem pdu dt) (\<lambda>_. True)
        (sodchan_wire_channel_data_decode pdu) (\<lambda>(k, v) (k', t). k = k' \<and> views pdu v t)
   \<and> decodes_as (sodchan_wire_channel_window_decode_mem pdu wn) (\<lambda>_. True)
        (sodchan_wire_channel_window_decode pdu) (=)
   \<and> decodes_as (sodchan_wire_channel_eof_decode_mem pdu k) (\<lambda>_. True)
        (sodchan_wire_channel_eof_decode pdu) (=)
   \<and> decodes_as (sodchan_wire_channel_close_decode_mem pdu k) (\<lambda>_. True)
        (sodchan_wire_channel_close_decode pdu) (=)
   \<and> decodes_as (sodchan_wire_ping_decode_mem pdu k) (\<lambda>_. True) (sodchan_wire_ping_decode pdu) (=)
   \<and> decodes_as (sodchan_wire_pong_decode_mem pdu k) (\<lambda>_. True) (sodchan_wire_pong_decode pdu) (=)"
  by (intro conjI impI hello_decode_mem auth_device_decode_mem auth_ok_decode_mem auth_fail_decode_mem
      channel_open_decode_mem channel_open_confirm_decode_mem channel_open_fail_decode_mem
      disconnect_decode_mem channel_data_decode_mem channel_window_decode_mem one_number_decode_mem)
    (auto simp: bound_defs sodchan_wire_build_t_auth_def sodchan_pubkey_fingerprint_sha256_def hello_arrays_def SODCHAN_HELLO_BODY_LEN_def
      auth_const_defs c_strlen_def ascii_def copy_cstr_length Let_def
      split: option.splits if_splits)

text \<open>
  The witness: an AUTH_DEVICE with a device id of the wrong length. The decoder
  fails, after it has stored the key, the signature and the user name, cut to a
  buffer of three bytes.
\<close>

definition bad_auth_device :: bytes where
  "bad_auth_device = [SODCHAN_PDU_AUTH_DEVICE] @ replicate 32 1 @ replicate 64 2 @ [4, 97, 98, 99, 100] @ [9, 5]"

definition auth_device_buffers :: auth_device_out where
  "auth_device_buffers = \<lparr> ad_client_id_pk = replicate 32 0, ad_client_sig = replicate 64 0,
     ad_username = Some [7, 7, 7, 7], ad_username_len = 0, ad_device_id = None, ad_device_id_len = 0 \<rparr>"

theorem encoders_fit_witness:
  "\<exists>out. sodchan_wire_auth_device_decode_mem (Some bad_auth_device) 3 0 auth_device_buffers
      = Some (SODCHAN_ERR_PROTOCOL, out)
     \<and> texts_kept 3 0 auth_device_buffers out \<and> ad_username out = Some [97, 98, 0, 7]"
proof -
  have room: "length (ad_client_id_pk auth_device_buffers) = 32" "length (ad_client_sig auth_device_buffers) = 64"
    "has_room (ad_username auth_device_buffers) 3" "has_room (ad_device_id auth_device_buffers) 0"
    by (simp_all add: auth_device_buffers_def has_room_def)
  have len: "length bad_auth_device = 104" by (simp add: bad_auth_device_def)
  have at: "bad_auth_device ! 0 = SODCHAN_PDU_AUTH_DEVICE" "bad_auth_device ! 97 = 4" "bad_auth_device ! 102 = 9"
    "drop 98 bad_auth_device = [97, 98, 99, 100, 9, 5]" "bad_auth_device \<noteq> []"
    by (simp_all add: bad_auth_device_def nth_append)
  have "sodchan_wire_auth_device_decode (Some bad_auth_device) 3 0 = Inl SODCHAN_ERR_PROTOCOL"
    using len at by (simp add: sodchan_wire_auth_device_decode_def SODCHAN_USER_MAX_def SODCHAN_DEVICE_ID_MAX_def)
  then have "decodes_as (sodchan_wire_auth_device_decode_mem (Some bad_auth_device) 3 0 auth_device_buffers)
      (texts_kept 3 0 auth_device_buffers) (Inl SODCHAN_ERR_PROTOCOL) auth_device_stored"
    using encoders_fit [where pdu = "Some bad_auth_device" and cap = 3 and cap' = 0
        and ad = auth_device_buffers and sod = sample_sodium] room by metis
  then obtain out where "sodchan_wire_auth_device_decode_mem (Some bad_auth_device) 3 0 auth_device_buffers
      = Some (SODCHAN_ERR_PROTOCOL, out)" "texts_kept 3 0 auth_device_buffers out"
    by (auto simp: decodes_as_def)
  moreover have "put_text (ad_username auth_device_buffers) 3 bad_auth_device 98 4 = Some (Some [97, 98, 0, 7])"
    using len at(4) by (simp add: put_text_def copy_in_def peeks_def poke_def auth_device_buffers_def)
  with calculation(1) have "ad_username out = Some [97, 98, 0, 7]"
    using len at room(1,2)
    by (auto simp: sodchan_wire_auth_device_decode_mem_def SODCHAN_USER_MAX_def SODCHAN_DEVICE_ID_MAX_def)
  ultimately show ?thesis by blast
qed

end
