(* ===== verification/Records_In.thy ===== *)
theory Records_In
  imports Input_Stream Fresh_Reset
begin

text \<open>
  Records that arrive in the wrong way: forged ones, and channel messages before
  the authentication is complete.
\<close>

section \<open>Records that do not decrypt\<close>

definition record_bad :: "('ss, 'gh) sodium \<Rightarrow> bytes \<Rightarrow> 'ss sodchan_ctx \<Rightarrow> bool" where
  "record_bad sod ct ctx \<longleftrightarrow> length ct < SODCHAN_SS_ABYTES
     \<or> length ct - SODCHAN_SS_ABYTES > min (SODCHAN_DATA_MAX + 64) (ctx_max_record_size ctx)
     \<or> crypto_secretstream_pull sod (ctx_ss_pull ctx) ct = None"

lemma record_bad_rejected:
  assumes "record_bad sod ct ctx" and "ctx_ss_pull_ready ctx"
  obtains code msg where "handle_encrypted_pdu sod ct ctx = err_ret code msg ctx"
    "code \<in> {SODCHAN_ERR_PROTOCOL, SODCHAN_ERR_CRYPTO}" "length msg < SODCHAN_ERROR_MAX"
proof -
  have "\<exists>(code, msg) \<in> {(SODCHAN_ERR_PROTOCOL, ''ss ciphertext size''),
      (SODCHAN_ERR_PROTOCOL, ''ss plaintext too large''), (SODCHAN_ERR_CRYPTO, ''ss decrypt failed'')}.
      handle_encrypted_pdu sod ct ctx = err_ret code msg ctx"
    using assms by (auto simp: record_bad_def handle_encrypted_pdu_def)
  then show thesis
    using that by (auto simp: SODCHAN_ERROR_MAX_def)
qed

lemma set_error_keeps:
  assumes "ring_wf ctx" and "code \<noteq> SODCHAN_OK" and "length msg < SODCHAN_ERROR_MAX"
  shows "ctx_state (sodchan_i_set_error code msg ctx) = STATE_ERROR"
    "ctx_error (sodchan_i_set_error code msg ctx) = rc_code code"
    "chan_map (sodchan_i_set_error code msg ctx) = chan_map ctx"
    "out_pending (sodchan_i_set_error code msg ctx) = out_pending ctx"
    "session_part (sodchan_i_set_error code msg ctx) = session_part ctx"
    "event_list (sodchan_i_set_error code msg ctx)
      = event_list ctx @ take (ctx_event_cap ctx - ctx_event_count ctx) [EVENT_ERROR (rc_code code) msg]"
proof -
  show "event_list (sodchan_i_set_error code msg ctx)
      = event_list ctx @ take (ctx_event_cap ctx - ctx_event_count ctx) [EVENT_ERROR (rc_code code) msg]"
    unfolding set_error_eq [OF assms(2,3)] using assms(1) by (simp add: event_list_emit)
qed (simp_all add: assms(2) set_error_code)

text \<open>
  C13. Nothing that is not authentic is acted on. When the next record on the input
  does not decrypt, or is too short or too long to be one, the session ends in
  ERROR: no channel, no key, no stream state, no pending output and no authentication
  flag changes, no channel id is used up, the only event is the error, and what follows on the input is not looked at.
\<close>

theorem forged_record_fatal:
  assumes "ctx_state ctx \<noteq> STATE_ERROR" "ctx_state ctx \<noteq> STATE_CLOSED" and "ring_wf ctx"
    and "ctx_hs ctx = HS_DONE" and "ctx_ss_pull_ready ctx"
    and "parse_frame ctx = Inr (ct, n)"
    and "length ct < SODCHAN_SS_ABYTES
       \<or> length ct - SODCHAN_SS_ABYTES > min (SODCHAN_DATA_MAX + 64) (ctx_max_record_size ctx)
       \<or> crypto_secretstream_pull sod (ctx_ss_pull ctx) ct = None"
    and "c = process_input sod ctx"
  shows "ctx_state c = STATE_ERROR \<and> chan_map c = chan_map ctx \<and> out_pending c = out_pending ctx
    \<and> session_part c = session_part ctx \<and> ctx_ss_push c = ctx_ss_push ctx
    \<and> ctx_next_local_channel_id c = ctx_next_local_channel_id ctx
    \<and> (\<exists>e msg. ctx_error c = e \<and> e < 0 \<and> event_list c
         = event_list ctx @ take (ctx_event_cap ctx - ctx_event_count ctx) [EVENT_ERROR e msg])"
proof -
  have "record_bad sod ct ctx" using assms(7) by (simp add: record_bad_def)
  then obtain code msg where h: "handle_encrypted_pdu sod ct ctx = err_ret code msg ctx"
      "code \<in> {SODCHAN_ERR_PROTOCOL, SODCHAN_ERR_CRYPTO}" "length msg < SODCHAN_ERROR_MAX"
    by (rule record_bad_rejected [OF _ assms(5)])
  have l: "live ctx" "4 \<le> length (ctx_in_buf ctx)"
    using assms(1,2) parse_frame_five [OF assms(6)] by (simp_all add: live_def)
  have "dispatch_frame sod ct ctx = err_ret code msg ctx"
    using assms(4) h(1) by (simp add: dispatch_frame_def)
  from process_input_step [OF l assms(6) this] have c: "c = sodchan_i_set_error code msg ctx"
    using assms(8) by simp
  have ok: "code \<noteq> SODCHAN_OK" "rc_code code < 0" using h(2) by auto
  have "ctx_ss_push c = ctx_ss_push ctx" "ctx_next_local_channel_id c = ctx_next_local_channel_id ctx"
    by (simp_all add: c)
  then show ?thesis
    unfolding c using set_error_keeps [OF assms(3) ok(1) h(3)] ok(2) by blast
qed

lemma sample_server_record:
  assumes "reachable sample_sodium (Some sample_server) s"
  shows "ctx_max_record_size s = 262144"
proof -
  obtain role where "fixed_part (s\<lparr> ctx_in_buf := [] \<rparr>)
      = fixed_part (raw_ctx ([] :: bytes) (if role = (0 :: int) then ROLE_SERVER else ROLE_CLIENT) 0 sample_server)"
    using reachable_conf [OF assms, of "[]" 0] by blast
  from fixed_part_fields(3) [OF this] show ?thesis
    by (simp add: raw_ctx_def Let_def apply_config_defaults_more sample_server_def zero_config_def
        cfg_default_size_def SODCHAN_DEFAULT_MAX_RECORD_def)
qed

lemma sample_ready_fields:
  obtains s where "reachable sample_sodium (Some sample_server) s" "ctx_state s = STATE_READY"
    "ring_wf s" "ctx_hs s = HS_DONE" "ctx_ss_pull_ready s" "ctx_max_record_size s = 262144"
proof -
  obtain c s where r: "reachable sample_sodium (Some sample_server) s"
    and u: "session_up (=) (replicate 32 3) (replicate 32 2) c s" by (rule sample_session)
  have "ctx_inv sample_sodium s"
    by (rule reachable_inv [OF r sample_config_ok(2) sample_push_len_law sample_kx_keypair_law])
  moreover have "ctx_state s = STATE_READY" using u by (simp add: session_up_def)
  ultimately show thesis
    using r sample_server_record [OF r] by (intro that) (auto simp: ctx_inv_def base_inv_def live_ok_def)
qed

theorem forged_record_fatal_witness:
  "\<exists>s. reachable sample_sodium (Some sample_server) s \<and> ctx_state s = STATE_READY
     \<and> ctx_state (process_input sample_sodium (s\<lparr> ctx_in_buf := on_wire [9, 9] \<rparr>)) = STATE_ERROR"
proof -
  obtain s where s: "reachable sample_sodium (Some sample_server) s" "ctx_state s = STATE_READY"
    "ring_wf s" "ctx_hs s = HS_DONE" "ctx_ss_pull_ready s" "ctx_max_record_size s = 262144"
    by (rule sample_ready_fields)
  let ?s = "s\<lparr> ctx_in_buf := on_wire [9, 9] \<rparr>"
  have "unat (ss_frame_max_body ?s) = 131068"
    using s(6) by (subst ss_frame_max_body_eq) (simp_all add: SODCHAN_SS_ABYTES_def SODCHAN_IN_BUF_SIZE_def)
  then have "parse_frame ?s = Inr ([9, 9], 4 + length [9 :: byte, 9])"
    using s(4) by (intro parse_on_wire) (simp_all add: frame_ok_def body_limit_def)
  from forged_record_fatal [OF _ _ _ _ _ this, of sample_sodium] s
  show ?thesis by (auto simp: SODCHAN_SS_ABYTES_def ring_wf_def)
qed

section \<open>Disconnecting before the authentication is complete\<close>

text \<open>
  C35. The state DRAINING does not ask whether the peer was ever admitted. When the
  host disconnects a context that is still in AUTH, every record the peer sends
  afterwards goes to the channel layer, although no decision was taken; without
  the disconnect the same record, unless it is an authentication message, ends the
  session.
\<close>

theorem disconnect_opens_channels:
  assumes "ctx_state ctx = STATE_AUTH" and "ctx_ss_push_ready ctx" "ctx_ss_pull_ready ctx"
    and "crypto_secretstream_pull sod (ctx_ss_pull ctx) ct = Some (st, p, TAG_MESSAGE)"
    and "length ct = length p + SODCHAN_SS_ABYTES" "p \<noteq> []"
    and "length p \<le> SODCHAN_DATA_MAX + 64" "length p \<le> ctx_max_record_size ctx"
    and "d = snd (sodchan_disconnect sod reason msg ctx)"
  shows "ctx_state d = STATE_DRAINING \<and> ctx_auth_complete d = ctx_auth_complete ctx
    \<and> ctx_auth_decided d = ctx_auth_decided ctx
    \<and> handle_encrypted_pdu sod ct d = handle_mux_pdu sod p (d\<lparr> ctx_ss_pull := st \<rparr>)
    \<and> (p ! 0 \<notin> {SODCHAN_PDU_AUTH_DEVICE, SODCHAN_PDU_AUTH_OK, SODCHAN_PDU_AUTH_FAIL} \<longrightarrow>
         ctx_state (snd (handle_encrypted_pdu sod ct ctx)) = STATE_ERROR)"
proof -
  have d: "ctx_state d = STATE_DRAINING" "session_part d = session_part ctx"
    unfolding assms(9) using assms(1,2) by (simp_all add: sodchan_disconnect_def Let_def split: sum.split)
  note f = session_part_fields [OF d(2)]
  have "handle_encrypted_pdu sod ct d = handle_mux_pdu sod p (d\<lparr> ctx_ss_pull := st \<rparr>)"
    using assms(3-8) d(1) f(4,27,29)
    by (simp add: handle_encrypted_pdu_def Let_def TAG_MESSAGE_def TAG_FINAL_def TAG_REKEY_def
        sodchan_wire_pdu_type_def)
  moreover have "ctx_state (snd (handle_encrypted_pdu sod ct ctx)) = STATE_ERROR"
    if "p ! 0 \<notin> {SODCHAN_PDU_AUTH_DEVICE, SODCHAN_PDU_AUTH_OK, SODCHAN_PDU_AUTH_FAIL}"
    using assms(1,3-8) that
    by (simp add: handle_encrypted_pdu_def Let_def TAG_MESSAGE_def TAG_FINAL_def TAG_REKEY_def
        sodchan_wire_pdu_type_def)
  ultimately show ?thesis using d(1) f(34,35) by simp
qed

theorem disconnect_opens_channels_witness:
  "\<exists>s d p. reachable sample_sodium (Some sample_server) s \<and> ctx_state s = STATE_AUTH
     \<and> d = snd (sodchan_disconnect sample_sodium 0 None s) \<and> ctx_state d = STATE_DRAINING
     \<and> \<not> ctx_auth_decided d \<and> p = mux_encode (Open 7 9 9 [97])
     \<and> handle_encrypted_pdu sample_sodium (0 # p @ replicate 16 0) d
         = handle_mux_pdu sample_sodium p (d\<lparr> ctx_ss_pull := ctx_ss_pull s \<rparr>)"
proof -
  obtain s s' where r: "reachable sample_sodium (Some sample_server) s" and st: "ctx_state s = STATE_AUTH"
    by (rule sample_awaiting)
  have "ctx_inv sample_sodium s"
    by (rule reachable_inv [OF r sample_config_ok(2) sample_push_len_law sample_kx_keypair_law])
  then have f: "ctx_ss_push_ready s" "ctx_ss_pull_ready s" "\<not> ctx_auth_decided s"
    using st by (auto simp: ctx_inv_def live_ok_def undecided_def)
  let ?p = "mux_encode (Open 7 9 9 [97])"
  have p: "length ?p = 15" "?p \<noteq> []" by (simp_all add: mux_value_defs mux_codec_defs SODCHAN_CHANNEL_NAME_MAX_def)
  have pull: "crypto_secretstream_pull sample_sodium (ctx_ss_pull s) (0 # ?p @ replicate 16 0)
      = Some (ctx_ss_pull s, ?p, TAG_MESSAGE)"
    using p(1) by (simp add: sample_sodium_def TAG_MESSAGE_def del: mux_encode.simps)
  show ?thesis
    using disconnect_opens_channels [OF st f(1,2) pull _ p(2) _ _ refl, of 0 None] p r st f(3)
      sample_server_record [OF r]
    by (simp add: SODCHAN_SS_ABYTES_def SODCHAN_DATA_MAX_def del: mux_encode.simps) blast
qed

end
