(* ===== verification/Mux_Spec.thy ===== *)
theory Mux_Spec
  imports Mux
begin

text \<open>
  What the channel layer promises, as a function on the channel map, and the
  proof that \<^verbatim>\<open>handle_mux_pdu\<close> implements it: for every well-formed PDU the
  handler changes the map, queues the events, sends the replies and closes or
  fails the session as the specification says.
\<close>

section \<open>The specification\<close>

text \<open>
  \<open>Violation\<close>: the session ends with a protocol error. Otherwise the new map,
  the events, the PDUs sent in reply, and whether the session is closed.
\<close>

datatype mux_outcome =
    Violation
  | Done "u32 \<Rightarrow> sodchan_channel option" "sodchan_event list" "bytes list" bool

definition peer_packet :: "'ss sodchan_ctx \<Rightarrow> u32 \<Rightarrow> u32" where
  "peer_packet ctx mp = (if mp \<noteq> 0 then mp else ctx_max_packet ctx)"

definition pending_channel :: "'ss sodchan_ctx \<Rightarrow> u32 \<Rightarrow> u32 \<Rightarrow> u32 \<Rightarrow> bytes \<Rightarrow> u32 \<Rightarrow> sodchan_channel" where
  "pending_channel ctx s w mp nm k =
     zero_channel\<lparr> ch_state := CH_PENDING, ch_local_id := k, ch_peer_id := s,
       ch_have_peer_id := True, ch_name := cstr nm, ch_send_window := w,
       ch_recv_window := ctx_initial_window ctx, ch_max_packet := peer_packet ctx mp \<rparr>"

primrec mux_spec ::
    "'ss sodchan_ctx \<Rightarrow> (u32 \<Rightarrow> sodchan_channel option) \<Rightarrow> mux_pdu \<Rightarrow> mux_outcome" where
  "mux_spec ctx m (Open s w mp nm) =
     (if \<not> channel_name_allowed (Some nm) ctx
      then Done m [] [mux_encode (Open_Fail s SODCHAN_REASON_ADMIN_PROHIBITED (ascii ''not allowed''))] False
      else if card (dom m) = ctx_max_channels ctx
      then Done m [] [mux_encode (Open_Fail s SODCHAN_REASON_RESOURCE_SHORTAGE [])] False
      else let k = ctx_next_local_channel_id ctx in
        Done (m(k \<mapsto> pending_channel ctx s w mp nm k))
          [EVENT_CHANNEL_OPEN k s (cstr nm) w (peer_packet ctx mp)] [] False)"
| "mux_spec ctx m (Confirm s r w mp) =
     (case m r of
        None \<Rightarrow> Violation
      | Some c \<Rightarrow>
          if ch_state c \<noteq> CH_OPENING then Violation
          else Done (m(r \<mapsto> c\<lparr> ch_peer_id := s, ch_have_peer_id := True, ch_send_window := w,
                             ch_max_packet := peer_packet ctx mp, ch_state := CH_OPEN \<rparr>))
                 [EVENT_CHANNEL_OPENED r s (ch_name c) w (peer_packet ctx mp)] [] False)"
| "mux_spec ctx m (Open_Fail r e msg) =
     (case m r of
        None \<Rightarrow> Done m [] [] False
      | Some c \<Rightarrow>
          if ch_state c = CH_OPENING
          then Done (m(r := None)) [EVENT_CHANNEL_OPEN_FAIL r (ch_name c)] [] False
          else Done m [] [] False)"
| "mux_spec ctx m (Window r a) =
     (case m r of
        None \<Rightarrow> Done m [] [] False
      | Some c \<Rightarrow>
          if ch_state c \<noteq> CH_OPEN then Done m [] [] False
          else Done (m(r \<mapsto> c\<lparr> ch_send_window := ch_send_window c + a \<rparr>))
                 [EVENT_CHANNEL_WINDOW r a (ch_send_window c + a)] [] False)"
| "mux_spec ctx m (Data r d) =
     (case m r of
        None \<Rightarrow> Violation
      | Some c \<Rightarrow>
          if ch_state c \<noteq> CH_OPEN \<or> length d > unat (ch_recv_window c) \<or> length d > SODCHAN_DATA_MAX
          then Violation
          else Done (m(r \<mapsto> c\<lparr> ch_recv_window := ch_recv_window c - of_nat (length d) \<rparr>))
                 [EVENT_CHANNEL_DATA r d] [] False)"
| "mux_spec ctx m (Eof r) =
     (case m r of
        None \<Rightarrow> Done m [] [] False
      | Some c \<Rightarrow> Done (m(r \<mapsto> c\<lparr> ch_remote_eof := True \<rparr>)) [EVENT_CHANNEL_EOF r] [] False)"
| "mux_spec ctx m (Close r) =
     (case m r of
        None \<Rightarrow> Done m [] [] False
      | Some c \<Rightarrow> Done (m(r := None)) [EVENT_CHANNEL_CLOSE r] [] False)"
| "mux_spec ctx m (Ping x) = Done m [EVENT_PING] [mux_encode (Pong x)] False"
| "mux_spec ctx m (Pong x) = Done m [] [] False"
| "mux_spec ctx m (Disconnect x msg) =
     Done m [EVENT_DISCONNECTED (sint x) (cstr (take 127 msg))] [] True"

text \<open>Sending the replies, whether or not there is room for them.\<close>

definition send_all :: "('ss, 'gh) sodium \<Rightarrow> bytes list \<Rightarrow> 'ss sodchan_ctx \<Rightarrow> 'ss sodchan_ctx" where
  "send_all sod ps ctx = fold (\<lambda>p c. snd (ss_send_pdu sod (Some p) c)) ps ctx"

text \<open>When a result of the handler meets an outcome of the specification.\<close>

fun implements ::
    "('ss, 'gh) sodium \<Rightarrow> 'ss sodchan_ctx \<Rightarrow> int \<times> 'ss sodchan_ctx \<Rightarrow> mux_outcome \<Rightarrow> bool" where
  "implements sod ctx (r, ctx') Violation \<longleftrightarrow>
     r = -1 \<and> ctx_state ctx' = STATE_ERROR \<and> ctx_error ctx' = rc_code SODCHAN_ERR_PROTOCOL
     \<and> chan_map ctx' = chan_map ctx \<and> out_pending ctx' = out_pending ctx"
| "implements sod ctx (r, ctx') (Done m evs replies closed) \<longleftrightarrow>
     r = 0 \<and> chan_map ctx' = m \<and> event_list ctx' = event_list ctx @ evs
     \<and> out_pending ctx' = out_pending (send_all sod replies ctx)
     \<and> ctx_ss_push ctx' = ctx_ss_push (send_all sod replies ctx)
     \<and> ctx_state ctx' = (if closed then STATE_CLOSED else ctx_state ctx)"

section \<open>Decoding what was encoded\<close>

lemma cstr_append_zero [simp]: "cstr (s @ [0]) = cstr s"
  by (induction s) (auto simp: cstr_def)

lemma cstr_take_idem: "cstr (take n (cstr s)) = take n (cstr s)"
  using cstr_no_nul [of s] by (intro cstr_id) (auto dest: in_set_takeD)

lemma open_decode_enc:
  "length nm \<le> SODCHAN_CHANNEL_NAME_MAX \<Longrightarrow>
     sodchan_wire_channel_open_decode (Some (open_enc (s, w, m, nm))) (Suc SODCHAN_CHANNEL_NAME_MAX)
       = Inr (s, w, m, nm @ [0], length nm)"
  by (simp add: mux_value_defs mux_codec_defs copy_cstr_fits unat_of_nat_byte Let_def nth_append)

lemma open_fail_decode_enc:
  "length m \<le> 255 \<Longrightarrow>
     sodchan_wire_channel_open_fail_decode (Some (open_fail_enc (r, e, m))) 128
       = Inr (r, e, copy_cstr m (length m) 128, length m)"
  by (simp add: mux_value_defs mux_codec_defs unat_of_nat_byte Let_def nth_append)

lemma disconnect_decode_enc:
  "length m \<le> 255 \<Longrightarrow>
     sodchan_wire_disconnect_decode (Some (disconnect_enc (r, m))) 128
       = Inr (r, copy_cstr m (length m) 128, length m)"
  by (simp add: mux_value_defs mux_codec_defs unat_of_nat_byte Let_def nth_append)

lemma data_decode_enc:
  "length d \<le> 0xFFFFFFFF - 9 \<Longrightarrow>
     sodchan_wire_channel_data_decode (Some (data_enc (r, d))) = Inr (r, d)"
  by (simp add: data_enc_def mux_codec_defs unat_of_nat_u32 Let_def)

lemmas mux_decode_enc =
  open_decode_enc open_fail_decode_enc disconnect_decode_enc data_decode_enc
  confirm_codec.dec_enc [simplified] window_codec.dec_enc [simplified] eof_codec.dec_enc [simplified]
  close_codec.dec_enc [simplified] ping_codec.dec_enc [simplified] pong_codec.dec_enc [simplified]

lemma mux_encode_nth: "mux_ok p \<Longrightarrow> mux_encode p ! 0 = mux_tag p"
  by (cases p) (auto simp: mux_value_defs word_pdu_defs mux_codec_defs)

section \<open>The refinement, PDU by PDU\<close>

text \<open>
  The situation in which the specification applies: the table invariant, an id
  counter that does not wrap at the next channel, and room for one event. When
  the ring is full the event is lost (theorem \<open>event_ring_fifo\<close>).
\<close>

definition mux_ready :: "'ss sodchan_ctx \<Rightarrow> bool" where
  "mux_ready ctx \<longleftrightarrow> chan_table_inv ctx \<and> ctx_next_local_channel_id ctx + 1 \<noteq> 0
     \<and> ring_wf ctx \<and> ctx_event_count ctx < ctx_event_cap ctx"

lemma implements_error [simp]:
  "implements sod ctx (err_ret SODCHAN_ERR_PROTOCOL msg ctx) Violation"
  using set_error_code [of SODCHAN_ERR_PROTOCOL msg ctx] by simp

lemma implements_nothing [simp]: "implements sod ctx (0, ctx) (Done (chan_map ctx) [] [] False)"
  by (simp add: send_all_def)

lemma implements_reply [simp]:
  "implements sod ctx (0, snd (ss_send_pdu sod (Some p) ctx)) (Done (chan_map ctx) [] [p] False)"
  by (simp add: send_all_def)

lemma implements_update:
  assumes "mux_ready ctx" and "ch_by_local k ctx = Some i" and "ch_used c" and "ch_local_id c = k"
  shows "implements sod ctx (0, emit ev (ch_set i c ctx))
           (Done ((chan_map ctx)(k \<mapsto> c)) [ev] [] False)"
  using assms chan_map_ch_set [of ctx k i c]
  by (simp add: send_all_def mux_ready_def chan_table_inv_def event_list_emit)

lemma implements_free:
  assumes "mux_ready ctx" and "ch_by_local k ctx = Some i"
  shows "implements sod ctx (0, ch_free i (emit ev ctx))
           (Done ((chan_map ctx)(k := None)) [ev] [] False)"
  using assms chan_map_ch_free [of "emit ev ctx" k i]
  by (simp add: send_all_def mux_ready_def chan_table_inv_def event_list_emit)

lemma mux_ready_slot:
  assumes "mux_ready ctx" and "ch_by_local k ctx = Some i"
  shows "ch_used (ch_at i ctx)" and "ch_local_id (ch_at i ctx) = k"
    and "snprintf_s (Suc SODCHAN_CHANNEL_NAME_MAX) (ch_name (ch_at i ctx)) = ch_name (ch_at i ctx)"
    and "chan_map ctx k = Some (ch_at i ctx)"
proof -
  note i = ch_by_local_Some [OF assms(2)]
  then show "ch_used (ch_at i ctx)" and "ch_local_id (ch_at i ctx) = k" by simp_all
  from assms(1) i have "slot_ok (ch_at i ctx)"
    by (simp add: mux_ready_def chan_table_inv_def table_wf_def)
  then show "snprintf_s (Suc SODCHAN_CHANNEL_NAME_MAX) (ch_name (ch_at i ctx)) = ch_name (ch_at i ctx)"
    by (simp add: slot_ok_def snprintf_s_def)
  show "chan_map ctx k = Some (ch_at i ctx)" by (simp add: chan_map_def assms(2))
qed

lemma open_refines:
  assumes "mux_ready ctx" and "length nm \<le> SODCHAN_CHANNEL_NAME_MAX"
  shows "implements sod ctx (handle_channel_open sod (open_enc (s, w, mp, nm)) ctx)
           (mux_spec ctx (chan_map ctx) (Open s w mp nm))"
proof -
  have name: "channel_name_allowed (Some (nm @ [0])) ctx = channel_name_allowed (Some nm) ctx"
    by (simp add: channel_name_allowed_def)
  have nm: "snprintf_s (Suc SODCHAN_CHANNEL_NAME_MAX) (nm @ [0]) = cstr nm"
    using assms(2) length_cstr_le [of nm] by (simp add: snprintf_s_def)
  have fail: "encoded (sodchan_wire_channel_open_fail_encode s r (Some msg) (Some 64)) =
      mux_encode (Open_Fail s r msg)" if "length msg \<le> 11" for r msg
    using that by (simp add: open_fail_enc_def mux_codec_defs)
  from assms(1) have wf: "table_wf ctx" "ids_wf ctx" and fresh: "ctx_next_local_channel_id ctx + 1 \<noteq> 0"
    by (simp_all add: mux_ready_def chan_table_inv_def)
  from wf(1) show ?thesis
  proof (cases rule: ch_alloc_cases)
    case full
    then show ?thesis
      using implements_reply [of sod ctx]
      by (simp add: handle_channel_open_def open_decode_enc assms(2) name fail Let_def card_chan_map wf(2)
          del: implements.simps mux_encode.simps)
  next
    case (slot i)
    let ?k = "ctx_next_local_channel_id ctx"
    let ?c = "pending_channel ctx s w mp nm ?k"
    let ?ev = "EVENT_CHANNEL_OPEN ?k s (cstr nm) w (peer_packet ctx mp)"
    obtain ctx1 where al: "ch_alloc ctx = (Some i, ctx1)" using slot(4) by simp
    have "ch_used ?c" "ch_local_id ?c = ?k" by (simp_all add: pending_channel_def ch_used_def)
    note new = ch_alloc_set_ids [OF wf al fresh this]
    have fields: "ctx_max_packet ctx1 = ctx_max_packet ctx" "ctx_initial_window ctx1 = ctx_initial_window ctx"
      "ch_at i ctx1 = zero_channel\<lparr> ch_local_id := ?k \<rparr>"
      using ch_alloc_Some [OF al] slot(1) by (simp_all add: ch_set_def)
    have "handle_channel_open sod (open_enc (s, w, mp, nm)) ctx = (0, emit ?ev (ch_set i ?c ctx1))"
      if "channel_name_allowed (Some nm) ctx"
      using that al
      by (simp add: handle_channel_open_def open_decode_enc assms(2) name nm Let_def fields
          pending_channel_def peer_packet_def zero_channel_def)
    moreover have "implements sod ctx (0, emit ?ev (ch_set i ?c ctx1))
        (Done ((chan_map ctx)(?k \<mapsto> ?c)) [?ev] [] False)"
      using assms(1) new(2) ch_alloc_Some [OF al]
      by (simp add: send_all_def mux_ready_def event_list_emit)
    ultimately show ?thesis
      using slot implements_reply [of sod ctx]
      by (simp add: handle_channel_open_def open_decode_enc assms(2) name fail Let_def card_chan_map wf(2)
          del: implements.simps mux_encode.simps)
  qed
qed

lemma confirm_refines:
  assumes "mux_ready ctx"
  shows "implements sod ctx (handle_channel_open_confirm (confirm_enc (s, r, w, mp)) ctx)
           (mux_spec ctx (chan_map ctx) (Confirm s r w mp))"
proof (cases "ch_by_local r ctx")
  case None
  then show ?thesis
    by (simp add: handle_channel_open_confirm_def mux_decode_enc chan_map_def del: implements.simps)
next
  case (Some i)
  then show ?thesis
    using mux_ready_slot [OF assms Some] implements_update [OF assms Some, where sod = sod]
    by (simp add: handle_channel_open_confirm_def mux_decode_enc Let_def peer_packet_def ch_used_def
        del: implements.simps)
qed

lemma open_fail_refines:
  assumes "mux_ready ctx" and "length m \<le> 255"
  shows "implements sod ctx (handle_channel_open_fail (open_fail_enc (r, e, m)) ctx)
           (mux_spec ctx (chan_map ctx) (Open_Fail r e m))"
proof (cases "ch_by_local r ctx")
  case None
  then have "chan_map ctx r = None" by (simp add: chan_map_def)
  with None show ?thesis
    by (simp add: handle_channel_open_fail_def open_fail_decode_enc assms(2) del: implements.simps)
next
  case (Some i)
  then show ?thesis
    using mux_ready_slot [OF assms(1) Some] implements_free [OF assms(1) Some, where sod = sod]
    by (simp add: handle_channel_open_fail_def open_fail_decode_enc assms(2) del: implements.simps)
qed

lemma data_refines:
  assumes "mux_ready ctx" and "length d \<le> 0xFFFFFFFF - 9"
  shows "implements sod ctx (handle_channel_data (data_enc (r, d)) ctx)
           (mux_spec ctx (chan_map ctx) (Data r d))"
proof (cases "ch_by_local r ctx")
  case None
  then show ?thesis
    using data_decode_enc [OF assms(2)]
    by (simp add: handle_channel_data_def chan_map_def del: implements.simps)
next
  case (Some i)
  then show ?thesis
    using mux_ready_slot [OF assms(1) Some] implements_update [OF assms(1) Some, where sod = sod] data_decode_enc [OF assms(2)]
    by (simp add: handle_channel_data_def Let_def ch_used_def not_less del: implements.simps)
qed

lemma window_refines:
  assumes "mux_ready ctx"
  shows "implements sod ctx (handle_channel_window (window_enc (r, a)) ctx)
           (mux_spec ctx (chan_map ctx) (Window r a))"
proof (cases "ch_by_local r ctx")
  case None
  then have "chan_map ctx r = None" by (simp add: chan_map_def)
  with None show ?thesis
    by (simp add: handle_channel_window_def mux_decode_enc del: implements.simps)
next
  case (Some i)
  then show ?thesis
    using mux_ready_slot [OF assms Some] implements_update [OF assms Some, where sod = sod]
    by (simp add: handle_channel_window_def mux_decode_enc Let_def ch_used_def del: implements.simps)
qed

lemma eof_refines:
  assumes "mux_ready ctx"
  shows "implements sod ctx (handle_channel_eof (eof_enc r) ctx)
           (mux_spec ctx (chan_map ctx) (Eof r))"
proof (cases "ch_by_local r ctx")
  case None
  then have "chan_map ctx r = None" by (simp add: chan_map_def)
  with None show ?thesis
    by (simp add: handle_channel_eof_def mux_decode_enc del: implements.simps)
next
  case (Some i)
  then show ?thesis
    using mux_ready_slot [OF assms Some] implements_update [OF assms Some, where sod = sod]
    by (simp add: handle_channel_eof_def mux_decode_enc Let_def ch_used_def del: implements.simps)
qed

lemma close_refines:
  assumes "mux_ready ctx"
  shows "implements sod ctx (handle_channel_close (close_enc r) ctx)
           (mux_spec ctx (chan_map ctx) (Close r))"
proof (cases "ch_by_local r ctx")
  case None
  then have "chan_map ctx r = None" by (simp add: chan_map_def)
  with None show ?thesis
    by (simp add: handle_channel_close_def mux_decode_enc del: implements.simps)
next
  case (Some i)
  then show ?thesis
    using mux_ready_slot [OF assms Some] implements_free [OF assms Some, where sod = sod]
    by (simp add: handle_channel_close_def mux_decode_enc del: implements.simps)
qed

lemma ping_refines:
  assumes "mux_ready ctx"
  shows "implements sod ctx (handle_ping sod (ping_enc x) ctx)
           (mux_spec ctx (chan_map ctx) (Ping x))"
proof -
  let ?p = "mux_encode (Pong x)"
  have pong: "sodchan_wire_pong_encode x (Some 8) = Inr ?p"
    by (simp add: pong_enc_def sodchan_wire_pong_encode_def)
  have "event_list (emit EVENT_PING ctx) = event_list ctx @ [EVENT_PING]"
    using assms by (simp add: mux_ready_def event_list_emit)
  then show ?thesis
    using ss_send_out_cong [of "emit EVENT_PING ctx" ctx sod "Some ?p"]
    by (simp add: handle_ping_def mux_decode_enc pong send_all_def Let_def)
qed

lemma disconnect_refines:
  assumes "mux_ready ctx" and "length m \<le> 255"
  shows "implements sod ctx (handle_disconnect (disconnect_enc (x, m)) ctx)
           (mux_spec ctx (chan_map ctx) (Disconnect x m))"
proof -
  have "snprintf_s SODCHAN_ERROR_MAX (copy_cstr m (length m) 128) = cstr (take 127 m)"
    using length_cstr_le [of "take 127 m"]
    by (auto simp: snprintf_s_def copy_cstr_def SODCHAN_ERROR_MAX_def min_def)
  moreover have "cstr [] = []" by (simp add: cstr_def)
  ultimately show ?thesis
    using assms
    by (cases "m = []")
      (auto simp: handle_disconnect_def disconnect_decode_enc Let_def send_all_def mux_ready_def
        event_list_emit)
qed

section \<open>Malformed PDUs\<close>

lemma map_sum_id_Inl: "map_sum id f s = Inl e \<longleftrightarrow> s = Inl e"
  by (cases s) auto

lemma open_malformed:
  "open_dec p = Inl e \<Longrightarrow> implements sod ctx (handle_channel_open sod p ctx) Violation"
  by (simp add: open_dec_def map_sum_id_Inl handle_channel_open_def del: implements.simps)

lemma open_fail_malformed:
  assumes "open_fail_dec p = Inl e"
  shows "implements sod ctx (handle_channel_open_fail p ctx) Violation"
proof -
  have "\<exists>e'. sodchan_wire_channel_open_fail_decode (Some p) 128 = Inl e'"
    using assms
    by (auto simp: open_fail_dec_def map_sum_id_Inl sodchan_wire_channel_open_fail_decode_def Let_def
        split: if_splits)
  then show ?thesis by (auto simp: handle_channel_open_fail_def simp del: implements.simps)
qed

lemma disconnect_malformed:
  assumes "disconnect_dec p = Inl e"
  shows "implements sod ctx (handle_disconnect p ctx) Violation"
proof -
  have "\<exists>e'. sodchan_wire_disconnect_decode (Some p) 128 = Inl e'"
    using assms
    by (auto simp: disconnect_dec_def map_sum_id_Inl sodchan_wire_disconnect_decode_def Let_def
        split: if_splits)
  then show ?thesis by (auto simp: handle_disconnect_def simp del: implements.simps)
qed

lemma data_malformed:
  "data_dec p = Inl e \<Longrightarrow> length p \<le> 0xFFFFFFFF \<Longrightarrow>
     implements sod ctx (handle_channel_data p ctx) Violation"
  by (simp add: data_dec_def handle_channel_data_def del: implements.simps)

lemma word_pdu_malformed:
  "sodchan_wire_channel_open_confirm_decode (Some p) = Inl e \<Longrightarrow>
     implements sod ctx (handle_channel_open_confirm p ctx) Violation"
  "sodchan_wire_channel_window_decode (Some p) = Inl e \<Longrightarrow>
     implements sod ctx (handle_channel_window p ctx) Violation"
  "sodchan_wire_channel_eof_decode (Some p) = Inl e \<Longrightarrow>
     implements sod ctx (handle_channel_eof p ctx) Violation"
  "sodchan_wire_channel_close_decode (Some p) = Inl e \<Longrightarrow>
     implements sod ctx (handle_channel_close p ctx) Violation"
  "sodchan_wire_ping_decode (Some p) = Inl e \<Longrightarrow> implements sod ctx (handle_ping sod p ctx) Violation"
  by (simp_all add: mux_handler_defs del: implements.simps)

lemmas mux_malformed =
  open_malformed open_fail_malformed disconnect_malformed data_malformed word_pdu_malformed

section \<open>Properties\<close>

text \<open>
  C7. \<^verbatim>\<open>handle_mux_pdu\<close> implements the channel specification: on the encoding
  of any of the ten PDU types, with room for an event, the channel map, the
  queued events, the replies and the session state are exactly those of
  \<open>mux_spec\<close>; bytes that encode no PDU and do not start with the PONG tag end
  the session with a protocol error.
\<close>

theorem handle_mux_pdu_refines:
  assumes "mux_ready ctx" and "p \<noteq> []" and "length p \<le> 0xFFFFFFFF"
  shows "case mux_decode p of
      Inr pdu \<Rightarrow> implements sod ctx (handle_mux_pdu sod p ctx) (mux_spec ctx (chan_map ctx) pdu)
    | Inl e \<Rightarrow> p ! 0 \<noteq> SODCHAN_PDU_PONG \<longrightarrow>
        implements sod ctx (handle_mux_pdu sod p ctx) Violation"
proof (cases "mux_decode p")
  case (Inr pdu)
  then have ok: "mux_ok pdu" and p: "mux_encode pdu = p" by (simp_all add: mux_codec.dec_iff)
  have "implements sod ctx (handle_mux_pdu sod (mux_encode pdu) ctx) (mux_spec ctx (chan_map ctx) pdu)"
  proof (cases pdu)
    case (Pong x)
    then show ?thesis
      using mux_encode_nth [OF ok]
      by (simp add: handle_mux_pdu_def mux_type_defs del: mux_encode.simps) (simp add: send_all_def)
  qed (use ok mux_encode_nth [OF ok] assms(1) in
      \<open>simp add: handle_mux_pdu_def mux_type_defs open_refines confirm_refines open_fail_refines
        data_refines window_refines eof_refines close_refines ping_refines disconnect_refines
        del: implements.simps mux_spec.simps\<close>)+
  with Inr p show ?thesis by simp
next
  case (Inl e)
  have type: "sodchan_wire_pdu_type (Some p) = Inr (p ! 0)"
    using assms(2) by (simp add: sodchan_wire_pdu_type_def)
  have "implements sod ctx (handle_mux_pdu sod p ctx) Violation" if "p ! 0 \<noteq> SODCHAN_PDU_PONG"
    using Inl assms(3) that
    by (auto simp: mux_decode_def type handle_mux_pdu_def mux_type_defs Let_def map_sum_id_Inl mux_malformed
        split: if_splits simp del: implements.simps)
  with Inl show ?thesis by simp
qed

theorem handle_mux_pdu_refines_witness:
  "ctx_state (snd (handle_mux_pdu sample_sodium (mux_encode (Data 4 [9]))
      (zero_ctx ([] :: bytes) ROLE_CLIENT\<lparr> ctx_max_channels := 2, ctx_events := [EVENT_NONE, EVENT_NONE], ctx_event_cap := 2 \<rparr>)))
    = STATE_ERROR"
proof -
  let ?ctx = "zero_ctx ([] :: bytes) ROLE_CLIENT\<lparr> ctx_max_channels := 2, ctx_events := [EVENT_NONE, EVENT_NONE], ctx_event_cap := 2 \<rparr>"
  have ready: "mux_ready ?ctx"
    by (simp add: mux_ready_def chan_table_inv_def table_wf_def ids_wf_def used_count_replicate
        ring_wf_def SODCHAN_MAX_CHANNELS_def)
  have none: "chan_map ?ctx 4 = None" by (simp add: chan_map_def ch_by_local_None)
  have p: "mux_encode (Data 4 [9]) \<noteq> []" "length (mux_encode (Data 4 [9])) \<le> 0xFFFFFFFF"
    by (simp_all add: data_enc_def mux_codec_defs)
  have dec: "mux_decode (mux_encode (Data 4 [9])) = Inr (Data 4 [9])"
    by (rule mux_codec.dec_enc) simp
  obtain r c where rc: "handle_mux_pdu sample_sodium (mux_encode (Data 4 [9])) ?ctx = (r, c)"
    by (cases "handle_mux_pdu sample_sodium (mux_encode (Data 4 [9])) ?ctx")
  have "implements sample_sodium ?ctx (r, c) (mux_spec ?ctx (chan_map ?ctx) (Data 4 [9]))"
    using handle_mux_pdu_refines [OF ready p, of sample_sodium] unfolding dec rc by (simp only: sum.case)
  then have "ctx_state c = STATE_ERROR" by (simp add: none)
  then show ?thesis unfolding rc by simp
qed

end
