(* ===== verification/Flow.thy ===== *)
theory Flow
  imports Mux_Spec Establish
begin

text \<open>
  Flow control between the two ends of a channel. The model runs the code's own
  functions for sending, granting credit and handling the PDUs at two contexts,
  with the DATA and the WINDOW messages that are under way in between, in the
  order in which the record layer delivers them.
\<close>

section \<open>What the four operations do to the channel\<close>

lemma slot_update:
  assumes "chan_table_inv ctx" and "ch_by_local k ctx = Some i"
    and "ch_used c" "ch_local_id c = k" "slot_ok c"
  shows "chan_table_inv (ch_set i c ctx)" and "chan_map (ch_set i c ctx) = (chan_map ctx)(k \<mapsto> c)"
proof -
  note i = ch_by_local_Some [OF assms(2)]
  show "chan_table_inv (ch_set i c ctx)"
    using assms i by (simp add: chan_table_inv_def ch_set_table_wf ch_set_ids_wf)
  show "chan_map (ch_set i c ctx) = (chan_map ctx)(k \<mapsto> c)"
    using assms by (intro chan_map_ch_set) (simp_all add: chan_table_inv_def)
qed

lemma chan_slot:
  assumes "chan_table_inv ctx" and "chan_map ctx k = Some c"
  obtains i where "ch_by_local k ctx = Some i" "ch_at i ctx = c" "ch_used c" "ch_local_id c = k" "slot_ok c"
proof -
  from assms(2) obtain i where i: "ch_by_local k ctx = Some i" "ch_at i ctx = c"
    by (auto simp: chan_map_def)
  from chan_map_ok [OF assms] show thesis by (intro that [OF i]) (simp_all add: chan_ok_def)
qed

lemma chan_inv_send [simp]: "chan_table_inv (snd (ss_send_pdu sod pl ctx)) = chan_table_inv ctx"
  by (simp add: chan_table_inv_def)

lemma chan_inv_emit [simp]: "chan_table_inv (emit ev ctx) = chan_table_inv ctx"
  by (simp add: chan_table_inv_def)

lemma channel_send_ok:
  assumes "chan_table_inv a" and "chan_map a k = Some c"
    and "sodchan_channel_send sod mem k (Some d) a = (SODCHAN_OK, a')"
  shows "length d \<le> unat (ch_send_window c)" "length d \<le> SODCHAN_DATA_MAX" "chan_table_inv a'"
    "ctx_state a' = STATE_READY"
    "chan_map a' = (chan_map a)(k \<mapsto> c\<lparr> ch_send_window := ch_send_window c - of_nat (length d) \<rparr>)"
proof -
  obtain i where i: "ch_by_local k a = Some i" "ch_at i a = c" "ch_used c" "ch_local_id c = k" "slot_ok c"
    by (rule chan_slot [OF assms(1,2)])
  let ?c = "c\<lparr> ch_send_window := ch_send_window c - of_nat (length d) \<rparr>"
  have enc: "\<not> SODCHAN_DATA_MAX < length d \<Longrightarrow> sodchan_wire_channel_data_encode p (Some d) (Some (9 + length d)) \<noteq> Inl e" for p e
    by (simp add: sodchan_wire_channel_data_encode_def SODCHAN_DATA_MAX_def)
  have *: "length d \<le> unat (ch_send_window c) \<and> length d \<le> SODCHAN_DATA_MAX \<and> ctx_state a = STATE_READY
      \<and> (\<exists>p. a' = ch_set i ?c (snd (ss_send_pdu sod (Some p) a)))"
    using assms(3) i(1,2)
    by (auto simp: sodchan_channel_send_def Let_def enc dest!: ss_send_pair
        split: if_splits sum.splits prod.splits)
  then obtain p where a': "a' = ch_set i ?c (snd (ss_send_pdu sod (Some p) a))" by blast
  from * show "length d \<le> unat (ch_send_window c)" "length d \<le> SODCHAN_DATA_MAX" "ctx_state a' = STATE_READY"
    by (simp_all add: a')
  have "ch_used ?c" "ch_local_id ?c = k" "slot_ok ?c" using i by (simp_all add: ch_used_def slot_ok_def)
  from slot_update [OF _ _ this, of "snd (ss_send_pdu sod (Some p) a)" i] assms(1) i(1)
  show "chan_table_inv a'" "chan_map a' = (chan_map a)(k \<mapsto> ?c)" by (simp_all add: a')
qed

lemma window_adjust_ok:
  assumes "chan_table_inv b" and "chan_map b j = Some c"
    and "sodchan_channel_window_adjust sod j n b = (SODCHAN_OK, b')"
  shows "chan_table_inv b'" "ctx_state b' = STATE_READY"
    "chan_map b' = (chan_map b)(j \<mapsto> c\<lparr> ch_recv_window := ch_recv_window c + n \<rparr>)"
proof -
  obtain i where i: "ch_by_local j b = Some i" "ch_at i b = c" "ch_used c" "ch_local_id c = j" "slot_ok c"
    by (rule chan_slot [OF assms(1,2)])
  let ?c = "c\<lparr> ch_recv_window := ch_recv_window c + n \<rparr>"
  have *: "ctx_state b = STATE_READY \<and> (\<exists>p. b' = ch_set i ?c (snd (ss_send_pdu sod (Some p) b)))"
    using assms(3) i(1,2)
    by (auto simp: sodchan_channel_window_adjust_def Let_def dest!: ss_send_pair
        split: if_splits sum.splits prod.splits)
  then obtain p where b': "b' = ch_set i ?c (snd (ss_send_pdu sod (Some p) b))" by blast
  from * show "ctx_state b' = STATE_READY" by (simp add: b')
  have "ch_used ?c" "ch_local_id ?c = j" "slot_ok ?c" using i by (simp_all add: ch_used_def slot_ok_def)
  from slot_update [OF _ _ this, of "snd (ss_send_pdu sod (Some p) b)" i] assms(1) i(1)
  show "chan_table_inv b'" "chan_map b' = (chan_map b)(j \<mapsto> ?c)" by (simp_all add: b')
qed

lemma data_handled:
  assumes "chan_table_inv b" and "chan_map b j = Some c" and "ch_state c = CH_OPEN"
    and "length d \<le> unat (ch_recv_window c)" and "length d \<le> SODCHAN_DATA_MAX"
  obtains i where "handle_mux_pdu sod (mux_encode (Data j d)) b
      = (0, emit (EVENT_CHANNEL_DATA j d)
           (ch_set i (c\<lparr> ch_recv_window := ch_recv_window c - of_nat (length d) \<rparr>) b))"
    and "chan_table_inv (ch_set i (c\<lparr> ch_recv_window := ch_recv_window c - of_nat (length d) \<rparr>) b)"
    and "chan_map (ch_set i (c\<lparr> ch_recv_window := ch_recv_window c - of_nat (length d) \<rparr>) b)
      = (chan_map b)(j \<mapsto> c\<lparr> ch_recv_window := ch_recv_window c - of_nat (length d) \<rparr>)"
proof -
  obtain i where i: "ch_by_local j b = Some i" "ch_at i b = c" "ch_used c" "ch_local_id c = j" "slot_ok c"
    by (rule chan_slot [OF assms(1,2)])
  let ?c = "c\<lparr> ch_recv_window := ch_recv_window c - of_nat (length d) \<rparr>"
  have used: "ch_used ?c" "ch_local_id ?c = j" "slot_ok ?c" using i by (simp_all add: ch_used_def slot_ok_def)
  have len: "length d \<le> 0xFFFFFFFF - 9" using assms(5) by (simp add: SODCHAN_DATA_MAX_def)
  have "mux_encode (Data j d) ! 0 = SODCHAN_PDU_CHANNEL_DATA"
    using mux_encode_nth [of "Data j d"] len by (simp add: mux_type_defs)
  then have "handle_mux_pdu sod (mux_encode (Data j d)) b = handle_channel_data (data_enc (j, d)) b"
    by (simp add: handle_mux_pdu_def mux_type_defs)
  also have "\<dots> = (0, emit (EVENT_CHANNEL_DATA j d) (ch_set i ?c b))"
    using assms(3-5) i data_decode_enc [OF len] by (simp add: handle_channel_data_def Let_def not_less)
  finally show thesis by (rule that) (rule slot_update [OF assms(1) i(1) used])+
qed

lemma data_arrives:
  assumes "chan_table_inv b" and "chan_map b j = Some c" and "ch_state c = CH_OPEN"
    and "length d \<le> unat (ch_recv_window c)" and "length d \<le> SODCHAN_DATA_MAX"
  obtains b' where "handle_mux_pdu sod (mux_encode (Data j d)) b = (0, emit (EVENT_CHANNEL_DATA j d) b')"
    and "chan_table_inv b'" and "ctx_state b' = ctx_state b" and "event_list b' = event_list b"
    and "chan_map b' = (chan_map b)(j \<mapsto> c\<lparr> ch_recv_window := ch_recv_window c - of_nat (length d) \<rparr>)"
  by (rule data_handled [OF assms, where sod = sod]) (rule that, auto)

lemma credit_arrives:
  assumes "chan_table_inv a" and "chan_map a k = Some c" and "ch_state c = CH_OPEN"
  obtains a' where "handle_mux_pdu sod (mux_encode (Window k n)) a
      = (0, emit (EVENT_CHANNEL_WINDOW k n (ch_send_window c + n)) a')"
    and "chan_table_inv a'" and "ctx_state a' = ctx_state a"
    and "chan_map a' = (chan_map a)(k \<mapsto> c\<lparr> ch_send_window := ch_send_window c + n \<rparr>)"
proof -
  obtain i where i: "ch_by_local k a = Some i" "ch_at i a = c" "ch_used c" "ch_local_id c = k" "slot_ok c"
    by (rule chan_slot [OF assms(1,2)])
  let ?c = "c\<lparr> ch_send_window := ch_send_window c + n \<rparr>"
  have used: "ch_used ?c" "ch_local_id ?c = k" "slot_ok ?c" using i by (simp_all add: ch_used_def slot_ok_def)
  have "mux_encode (Window k n) ! 0 = SODCHAN_PDU_CHANNEL_WINDOW"
    using mux_encode_nth [of "Window k n"] by (simp add: mux_type_defs)
  then have "handle_mux_pdu sod (mux_encode (Window k n)) a = handle_channel_window (window_enc (k, n)) a"
    by (simp add: handle_mux_pdu_def mux_type_defs)
  also have "\<dots> = (0, emit (EVENT_CHANNEL_WINDOW k n (ch_send_window c + n)) (ch_set i ?c a))"
    using assms(3) i by (simp add: handle_channel_window_def mux_decode_enc Let_def)
  finally show thesis
    by (rule that) (use slot_update [OF assms(1) i(1) used] in simp_all)
qed

section \<open>One direction of a channel\<close>

text \<open>
  The sender's end \<open>fl_a\<close> and the receiver's end \<open>fl_b\<close>, the DATA messages under
  way to the receiver, the WINDOW messages under way to the sender, and, for the
  statements only, the payloads sent and accepted so far.
\<close>

record 'ss flow =
  fl_a :: "'ss sodchan_ctx"
  fl_b :: "'ss sodchan_ctx"
  fl_data :: "mux_pdu list"
  fl_credit :: "mux_pdu list"
  fl_sent :: "bytes list"
  fl_got :: "bytes list"

primrec payload :: "mux_pdu \<Rightarrow> bytes" where
  "payload (Data r d) = d"
| "payload (Open s w m nm) = []"
| "payload (Confirm s r w m) = []"
| "payload (Open_Fail r e m) = []"
| "payload (Window r a) = []"
| "payload (Eof r) = []"
| "payload (Close r) = []"
| "payload (Ping x) = []"
| "payload (Pong x) = []"
| "payload (Disconnect r m) = []"

text \<open>
  The steps. \<open>k\<close> is the channel's id at the sender and \<open>j\<close> at the receiver. The host
  of the receiver grants credit that does not push the window past 32 bits. The
  last two rules let either end do anything else that leaves this channel alone:
  calls and messages for other channels, reading events and output.
\<close>

inductive flow_step :: "('ss, 'gh) sodium \<Rightarrow> u32 \<Rightarrow> u32 \<Rightarrow> 'ss flow \<Rightarrow> 'ss flow \<Rightarrow> bool"
  for sod :: "('ss, 'gh) sodium" and k j :: u32 where
  send: "sodchan_channel_send sod mem k (Some d) (fl_a f) = (SODCHAN_OK, a') \<Longrightarrow> chan_map (fl_a f) k = Some c \<Longrightarrow>
    flow_step sod k j f (f\<lparr> fl_a := a', fl_data := fl_data f @ [Data (ch_peer_id c) d], fl_sent := fl_sent f @ [d] \<rparr>)"
| arrive: "fl_data f = p # ps \<Longrightarrow> handle_mux_pdu sod (mux_encode p) (fl_b f) = (r, b') \<Longrightarrow>
    flow_step sod k j f (f\<lparr> fl_b := b', fl_data := ps, fl_got := fl_got f @ (if r = 0 then [payload p] else []) \<rparr>)"
| grant: "sodchan_channel_window_adjust sod j n (fl_b f) = (SODCHAN_OK, b') \<Longrightarrow> chan_map (fl_b f) j = Some c \<Longrightarrow>
    unat (ch_recv_window c) + unat n < 2 ^ 32 \<Longrightarrow>
    flow_step sod k j f (f\<lparr> fl_b := b', fl_credit := fl_credit f @ [Window (ch_peer_id c) n] \<rparr>)"
| credit: "fl_credit f = p # ps \<Longrightarrow> handle_mux_pdu sod (mux_encode p) (fl_a f) = (r, a') \<Longrightarrow>
    flow_step sod k j f (f\<lparr> fl_a := a', fl_credit := ps \<rparr>)"
| beside_a: "chan_table_inv a' \<Longrightarrow> ctx_state a' = ctx_state (fl_a f) \<Longrightarrow> chan_map a' k = chan_map (fl_a f) k \<Longrightarrow>
    flow_step sod k j f (f\<lparr> fl_a := a' \<rparr>)"
| beside_b: "chan_table_inv b' \<Longrightarrow> ctx_state b' = ctx_state (fl_b f) \<Longrightarrow> chan_map b' j = chan_map (fl_b f) j \<Longrightarrow>
    flow_step sod k j f (f\<lparr> fl_b := b' \<rparr>)"

section \<open>The invariant\<close>

definition flow_inv :: "u32 \<Rightarrow> u32 \<Rightarrow> 'ss flow \<Rightarrow> bool" where
  "flow_inv k j f \<longleftrightarrow> chan_table_inv (fl_a f) \<and> chan_table_inv (fl_b f)
     \<and> ctx_state (fl_a f) = STATE_READY \<and> ctx_state (fl_b f) = STATE_READY
     \<and> (\<exists>ca cb xs ns. chan_map (fl_a f) k = Some ca \<and> ch_state ca = CH_OPEN \<and> ch_peer_id ca = j
          \<and> chan_map (fl_b f) j = Some cb \<and> ch_state cb = CH_OPEN \<and> ch_peer_id cb = k
          \<and> fl_data f = map (Data j) xs \<and> (\<forall>d \<in> set xs. length d \<le> SODCHAN_DATA_MAX)
          \<and> fl_credit f = map (Window k) ns \<and> fl_sent f = fl_got f @ xs
          \<and> unat (ch_send_window ca) + sum_list (map length xs) + sum_list (map unat ns)
              = unat (ch_recv_window cb))"

lemma flow_invE:
  assumes "flow_inv k j f"
  obtains ca cb xs ns where "chan_table_inv (fl_a f)" "chan_table_inv (fl_b f)"
    "ctx_state (fl_a f) = STATE_READY" "ctx_state (fl_b f) = STATE_READY"
    "chan_map (fl_a f) k = Some ca" "ch_state ca = CH_OPEN" "ch_peer_id ca = j"
    "chan_map (fl_b f) j = Some cb" "ch_state cb = CH_OPEN" "ch_peer_id cb = k"
    "fl_data f = map (Data j) xs" "\<forall>d \<in> set xs. length d \<le> SODCHAN_DATA_MAX"
    "fl_credit f = map (Window k) ns" "fl_sent f = fl_got f @ xs"
    "unat (ch_send_window ca) + sum_list (map length xs) + sum_list (map unat ns) = unat (ch_recv_window cb)"
  using assms unfolding flow_inv_def by blast

lemma flow_invI:
  assumes "chan_table_inv (fl_a f)" "chan_table_inv (fl_b f)"
    "ctx_state (fl_a f) = STATE_READY" "ctx_state (fl_b f) = STATE_READY"
    "chan_map (fl_a f) k = Some ca" "ch_state ca = CH_OPEN" "ch_peer_id ca = j"
    "chan_map (fl_b f) j = Some cb" "ch_state cb = CH_OPEN" "ch_peer_id cb = k"
    "fl_data f = map (Data j) xs" "\<forall>d \<in> set xs. length d \<le> SODCHAN_DATA_MAX"
    "fl_credit f = map (Window k) ns" "fl_sent f = fl_got f @ xs"
    "unat (ch_send_window ca) + sum_list (map length xs) + sum_list (map unat ns) = unat (ch_recv_window cb)"
  shows "flow_inv k j f"
  unfolding flow_inv_def using assms by blast

lemma u32_add_exact: "unat (v :: u32) + unat w < 2 ^ 32 \<Longrightarrow> unat (v + w) = unat v + unat w"
  by (simp add: unat_word_ariths)

lemma flow_step_inv:
  assumes "flow_step sod k j f g" and "flow_inv k j f"
  shows "flow_inv k j g"
  using assms(2)
proof (cases rule: flow_invE)
  case inv: (1 ca cb xs ns)
  have bound: "unat (ch_recv_window cb) < 2 ^ 32" using unsigned_less [of "ch_recv_window cb", where 'a = nat] by simp
  show ?thesis
    using assms(1)
  proof (cases rule: flow_step.cases)
    case (send mem d a' c)
    note s = channel_send_ok [OF inv(1,5) send(2)]
    have "unat (ch_send_window ca - of_nat (length d)) = unat (ch_send_window ca) - length d"
      by (rule u32_sub_exact [OF s(1)])
    with inv send s show ?thesis
      by (intro flow_invI [where xs = "xs @ [d]" and ns = ns
            and ca = "ca\<lparr> ch_send_window := ch_send_window ca - of_nat (length d) \<rparr>" and cb = cb]) auto
  next
    case (arrive p ps r b')
    then obtain d ys where xs: "xs = d # ys" "p = Data j d" "ps = map (Data j) ys" using inv(11) by (cases xs) auto
    with inv have "length d \<le> unat (ch_recv_window cb)" "length d \<le> SODCHAN_DATA_MAX" by auto
    then obtain b'' where b: "handle_mux_pdu sod (mux_encode (Data j d)) (fl_b f) = (0, emit (EVENT_CHANNEL_DATA j d) b'')"
      "chan_table_inv b''" "ctx_state b'' = ctx_state (fl_b f)"
      "chan_map b'' = (chan_map (fl_b f))(j \<mapsto> cb\<lparr> ch_recv_window := ch_recv_window cb - of_nat (length d) \<rparr>)"
      by (rule data_arrives [OF inv(2,8,9)])
    have "unat (ch_recv_window cb - of_nat (length d)) = unat (ch_recv_window cb) - length d"
      by (rule u32_sub_exact [OF \<open>length d \<le> unat (ch_recv_window cb)\<close>])
    moreover have "r = 0" "b' = emit (EVENT_CHANNEL_DATA j d) b''" using arrive(3) b(1) by (simp_all add: xs(2))
    ultimately show ?thesis
      using inv arrive b xs
      by (intro flow_invI [where xs = ys and ns = ns and ca = ca
            and cb = "cb\<lparr> ch_recv_window := ch_recv_window cb - of_nat (length d) \<rparr>"]) auto
  next
    case (grant n b' c)
    note w = window_adjust_ok [OF inv(2,8) grant(2)]
    have "unat (ch_recv_window cb + n) = unat (ch_recv_window cb) + unat n"
      using grant(3,4) inv(8) by (intro u32_add_exact) simp
    with inv grant w show ?thesis
      by (intro flow_invI [where xs = xs and ns = "ns @ [n]" and ca = ca
            and cb = "cb\<lparr> ch_recv_window := ch_recv_window cb + n \<rparr>"]) auto
  next
    case (credit p ps r a')
    then obtain n ms where ns: "ns = n # ms" "p = Window k n" "ps = map (Window k) ms" using inv(13) by (cases ns) auto
    obtain a'' where a: "handle_mux_pdu sod (mux_encode (Window k n)) (fl_a f)
        = (0, emit (EVENT_CHANNEL_WINDOW k n (ch_send_window ca + n)) a'')"
      "chan_table_inv a''" "ctx_state a'' = ctx_state (fl_a f)"
      "chan_map a'' = (chan_map (fl_a f))(k \<mapsto> ca\<lparr> ch_send_window := ch_send_window ca + n \<rparr>)"
      by (rule credit_arrives [OF inv(1,5,6)])
    have "unat (ch_send_window ca + n) = unat (ch_send_window ca) + unat n"
      using inv(15) bound ns(1) by (intro u32_add_exact) simp
    moreover have "a' = emit (EVENT_CHANNEL_WINDOW k n (ch_send_window ca + n)) a''"
      using credit(3) a(1) by (simp add: ns(2))
    ultimately show ?thesis
      using inv credit a ns
      by (intro flow_invI [where xs = xs and ns = ms and cb = cb
            and ca = "ca\<lparr> ch_send_window := ch_send_window ca + n \<rparr>"]) auto
  next
    case (beside_a a')
    with inv show ?thesis by (intro flow_invI [where xs = xs and ns = ns and ca = ca and cb = cb]) auto
  next
    case (beside_b b')
    with inv show ?thesis by (intro flow_invI [where xs = xs and ns = ns and ca = ca and cb = cb]) auto
  qed
qed

lemma flow_run_inv: "(flow_step sod k j)\<^sup>*\<^sup>* f g \<Longrightarrow> flow_inv k j f \<Longrightarrow> flow_inv k j g"
  by (induction rule: rtranclp_induct) (auto intro: flow_step_inv)

section \<open>How a channel begins\<close>

lemma channel_open_ok:
  assumes "chan_table_inv a" and "ctx_next_local_channel_id a + 1 \<noteq> 0"
    and "sodchan_channel_open sod (Some nm) a = (SODCHAN_OK, Some k, a')"
  obtains c where "k = ctx_next_local_channel_id a" "length (cstr nm) \<le> SODCHAN_CHANNEL_NAME_MAX"
    "chan_table_inv a'" "ctx_state a = STATE_READY" "ctx_state a' = STATE_READY"
    "chan_map a' = (chan_map a)(k \<mapsto> c)" "ch_state c = CH_OPENING" "ch_recv_window c = ctx_initial_window a"
    "session_part a' = session_part a"
    "out_pending a' = out_pending (snd (ss_send_pdu sod
       (Some (mux_encode (Open k (ctx_initial_window a) (ctx_max_packet a) (cstr nm)))) a))"
proof -
  from assms(1) have wf: "table_wf a" "ids_wf a" by (simp_all add: chan_table_inv_def)
  have g: "ctx_state a = STATE_READY" "\<not> SODCHAN_CHANNEL_NAME_MAX < c_strlen nm" "cstr nm \<noteq> []"
      "channel_name_allowed (Some nm) a"
    using assms(3) by (auto simp: sodchan_channel_open_def split: if_splits)
  then have len: "length (cstr nm) \<le> SODCHAN_CHANNEL_NAME_MAX" by (simp add: c_strlen_def)
  from assms(3) g obtain i a1 where al: "ch_alloc a = (Some i, a1)"
    by (auto simp: sodchan_channel_open_def split: prod.splits option.splits)
  note a1 = ch_alloc_Some [OF al]
  have i: "i < length (ctx_channels a)"
    using ch_alloc_length [OF al] by (simp add: a1)
  let ?k = "ctx_next_local_channel_id a"
  let ?c = "zero_channel\<lparr> ch_local_id := ?k, ch_state := CH_OPENING, ch_recv_window := ctx_initial_window a,
      ch_max_packet := ctx_max_packet a, ch_name := snprintf_s (SODCHAN_CHANNEL_NAME_MAX + 1) nm \<rparr>"
  let ?a2 = "ch_set i ?c a1"
  have same: "ctx_initial_window a1 = ctx_initial_window a" "ctx_max_packet a1 = ctx_max_packet a"
      "ch_at i a1 = zero_channel\<lparr> ch_local_id := ?k \<rparr>"
    using i by (simp_all add: a1 ch_set_def)
  have c: "ch_used ?c" "ch_local_id ?c = ?k" "slot_ok ?c"
    using length_snprintf_s [of SODCHAN_CHANNEL_NAME_MAX nm] snprintf_s_no_nul [of _ nm]
    by (simp_all add: ch_used_def slot_ok_def zero_channel_def)
  let ?p = "mux_encode (Open ?k (ctx_initial_window a) (ctx_max_packet a) (cstr nm))"
  have p: "sodchan_wire_channel_open_encode ?k (ctx_initial_window a) (ctx_max_packet a) (Some (cstr nm)) (Some 128)
      = Inr ?p"
    using len by (simp add: mux_value_defs mux_codec_defs)
  have "?a2 = ch_set i ((ch_at i a1)\<lparr> ch_state := CH_OPENING, ch_recv_window := ctx_initial_window a1,
      ch_max_packet := ctx_max_packet a1, ch_name := snprintf_s (SODCHAN_CHANNEL_NAME_MAX + 1) nm \<rparr>) a1"
    by (simp add: same)
  moreover have "ch_at i ?a2 = ?c" "ctx_initial_window ?a2 = ctx_initial_window a" "ctx_max_packet ?a2 = ctx_max_packet a"
    using i same by (simp_all add: a1 ch_set_def)
  ultimately have a': "a' = snd (ss_send_pdu sod (Some ?p) ?a2)" "k = ?k"
    using assms(3) g al p i
    by (auto simp: sodchan_channel_open_def Let_def simp del: mux_encode.simps dest!: ss_send_pair
        split: if_splits prod.splits sum.splits)
  have inv: "chan_table_inv a'"
    using ch_alloc_set(1) [OF wf(1) al c(1,3)] ch_alloc_set_ids(1) [OF wf al assms(2) c(1,2)]
    by (simp add: a' chan_table_inv_def)
  have m: "chan_map a' = (chan_map a)(k \<mapsto> ?c)"
    using ch_alloc_set_ids(2) [OF wf al assms(2) c(1,2)] by (simp add: a')
  have o: "out_pending a' = out_pending (snd (ss_send_pdu sod (Some ?p) a))"
    unfolding a'(1) by (intro ss_send_out_cong [THEN conjunct1]) (simp_all add: a1 ch_set_def out_pending_def)
  have "session_part a' = session_part a" "ctx_state a' = STATE_READY" using g by (simp_all add: a' a1)
  with that [OF a'(2) len inv g(1) _ m] o show thesis by (simp add: a'(2))
qed

lemma channel_accept_ok:
  assumes "chan_table_inv b" and "chan_map b j = Some c"
    and "sodchan_channel_accept sod j True b = (SODCHAN_OK, b')"
  shows "ch_state c = CH_PENDING" "chan_table_inv b'" "ctx_state b' = STATE_READY"
    "chan_map b' = (chan_map b)(j \<mapsto> c\<lparr> ch_state := CH_OPEN, ch_recv_window := ctx_initial_window b \<rparr>)"
    "out_pending b' = out_pending (snd (ss_send_pdu sod
       (Some (mux_encode (Confirm j (ch_peer_id c) (ctx_initial_window b) (ctx_max_packet b)))) b))"
proof -
  obtain i where i: "ch_by_local j b = Some i" "ch_at i b = c" "ch_used c" "ch_local_id c = j" "slot_ok c"
    by (rule chan_slot [OF assms(1,2)])
  let ?c = "c\<lparr> ch_state := CH_OPEN, ch_recv_window := ctx_initial_window b \<rparr>"
  let ?p = "mux_encode (Confirm j (ch_peer_id c) (ctx_initial_window b) (ctx_max_packet b))"
  have p: "sodchan_wire_channel_open_confirm_encode j (ch_peer_id c) (ctx_initial_window b) (ctx_max_packet b) (Some 64)
      = Inr ?p"
    by (simp add: mux_value_defs mux_codec_defs)
  have *: "ctx_state b = STATE_READY \<and> ch_state c = CH_PENDING
      \<and> (\<exists>ev. b' = emit ev (ch_set i ?c (snd (ss_send_pdu sod (Some ?p) b))))"
    using assms(3) i p
    by (auto simp: sodchan_channel_accept_def Let_def simp del: mux_encode.simps dest!: ss_send_pair
        split: if_splits sum.splits prod.splits)
  then obtain ev where b': "b' = emit ev (ch_set i ?c (snd (ss_send_pdu sod (Some ?p) b)))" by blast
  from * show "ch_state c = CH_PENDING" "ctx_state b' = STATE_READY" by (simp_all add: b')
  have "ch_used ?c" "ch_local_id ?c = j" "slot_ok ?c"
    using i * by (simp_all add: ch_used_def slot_ok_def)
  from slot_update [OF _ _ this, of "snd (ss_send_pdu sod (Some ?p) b)" i] assms(1) i(1)
  show "chan_table_inv b'" "chan_map b' = (chan_map b)(j \<mapsto> ?c)" by (simp_all add: b')
  show "out_pending b' = out_pending (snd (ss_send_pdu sod (Some ?p) b))" by (simp add: b')
qed

lemma confirm_arrives:
  assumes "chan_table_inv a" and "chan_map a k = Some c" and "ch_state c = CH_OPENING"
  obtains a' c' where "handle_mux_pdu sod (mux_encode (Confirm j k w mp)) a = (0, a')"
    and "chan_table_inv a'" and "ctx_state a' = ctx_state a" and "chan_map a' = (chan_map a)(k \<mapsto> c')"
    and "ch_state c' = CH_OPEN" "ch_peer_id c' = j" "ch_send_window c' = w" "ch_recv_window c' = ch_recv_window c"
proof -
  obtain i where i: "ch_by_local k a = Some i" "ch_at i a = c" "ch_used c" "ch_local_id c = k" "slot_ok c"
    by (rule chan_slot [OF assms(1,2)])
  let ?c = "c\<lparr> ch_peer_id := j, ch_have_peer_id := True, ch_send_window := w,
      ch_max_packet := (if mp \<noteq> 0 then mp else ctx_max_packet a), ch_state := CH_OPEN \<rparr>"
  have used: "ch_used ?c" "ch_local_id ?c = k" "slot_ok ?c" using i by (simp_all add: ch_used_def slot_ok_def)
  have "mux_encode (Confirm j k w mp) ! 0 = SODCHAN_PDU_CHANNEL_OPEN_CONFIRM"
    using mux_encode_nth [of "Confirm j k w mp"] by (simp add: mux_type_defs)
  then have "handle_mux_pdu sod (mux_encode (Confirm j k w mp)) a
      = handle_channel_open_confirm (confirm_enc (j, k, w, mp)) a"
    by (simp add: handle_mux_pdu_def mux_type_defs)
  also have "\<dots> = (0, emit (EVENT_CHANNEL_OPENED k j (snprintf_s (SODCHAN_CHANNEL_NAME_MAX + 1) (ch_name c)) w
      (if mp \<noteq> 0 then mp else ctx_max_packet a)) (ch_set i ?c a))"
    using assms(3) i by (simp add: handle_channel_open_confirm_def mux_decode_enc Let_def)
  finally show thesis
    by (rule that [of _ ?c]) (use slot_update [OF assms(1) i(1) used] in simp_all)
qed

text \<open>The peer's OPEN, taken in by an end that then has a channel under the next id.\<close>

lemma open_arrives:
  assumes "mux_ready b" and "length nm \<le> SODCHAN_CHANNEL_NAME_MAX" and "j = ctx_next_local_channel_id b"
    and "handle_mux_pdu sod (mux_encode (Open k w mp nm)) b = (r, b')" and "chan_map b' j \<noteq> None"
  shows "r = 0" "chan_table_inv b'" "ctx_state b' = ctx_state b" "session_part b' = session_part b"
    "chan_map b' j = Some (pending_channel b k w mp nm j)"
proof -
  from assms(1) have wf: "table_wf b" "ids_wf b" and fresh: "ctx_next_local_channel_id b + 1 \<noteq> 0"
    by (simp_all add: mux_ready_def chan_table_inv_def)
  have "mux_encode (Open k w mp nm) ! 0 = SODCHAN_PDU_CHANNEL_OPEN"
    using mux_encode_nth [of "Open k w mp nm"] assms(2) by (simp add: mux_type_defs)
  then have h: "(r, b') = handle_channel_open sod (open_enc (k, w, mp, nm)) b"
    using assms(4) by (simp add: handle_mux_pdu_def mux_type_defs)
  have none: "chan_map b j = None"
  proof (rule ccontr)
    assume "chan_map b j \<noteq> None"
    then obtain i where "i < length (ctx_channels b)" "ch_used (ch_at i b)" "ch_local_id (ch_at i b) = j"
      using chan_map_Some [OF wf(2), of j] by auto
    with wf(2) assms(3) show False by (auto simp: ids_wf_def dest!: nth_mem)
  qed
  have "implements sod b (r, b') (mux_spec b (chan_map b) (Open k w mp nm))"
    unfolding h by (rule open_refines [OF assms(1,2)])
  with assms(3,5) none show "r = 0" "ctx_state b' = ctx_state b"
    "chan_map b' j = Some (pending_channel b k w mp nm j)"
    by (auto simp: Let_def split: if_splits)
  have step: "mux_step sod b (r, b')" using handle_mux_pdu_step [of sod b] assms(4) by metis
  show "chan_table_inv b'"
    using mux_step_table_wf [OF step wf(1)] mux_step_ids_wf [OF step wf fresh] by (simp add: chan_table_inv_def)
  show "session_part b' = session_part b" by (rule mux_step_session_part [OF step])
qed

lemma sends_now:
  assumes "roomy ctx" "ctx_ss_push_ready ctx" "out_pending ctx = []" "0 < length p" "length p \<le> 1100"
    and "stream_law sod paired" "paired (ctx_ss_push ctx) rst"
  shows "\<exists>c. ss_send_pdu sod (Some p) ctx = (SODCHAN_OK, c)"
proof -
  obtain st ct where "crypto_secretstream_push sod (ctx_ss_push ctx) p TAG_MESSAGE = Some (st, ct)"
    by (rule stream_law_send [OF assms(6,7), of p TAG_MESSAGE]) (use assms(5) in simp)
  from send_now [OF assms(1-5) this] show ?thesis by blast
qed

lemma channel_open_succeeds:
  assumes "chan_table_inv a" and "ctx_state a = STATE_READY" and "cstr nm \<noteq> []"
    and "c_strlen nm \<le> SODCHAN_CHANNEL_NAME_MAX" and "channel_name_allowed (Some nm) a"
    and "card (dom (chan_map a)) < ctx_max_channels a" and "roomy a" "ctx_ss_push_ready a" "out_pending a = []"
    and "stream_law sod paired" "paired (ctx_ss_push a) rst"
  shows "\<exists>a'. sodchan_channel_open sod (Some nm) a = (SODCHAN_OK, Some (ctx_next_local_channel_id a), a')"
proof -
  from assms(1) have wf: "table_wf a" "ids_wf a" by (simp_all add: chan_table_inv_def)
  from wf(1) show ?thesis
  proof (cases rule: ch_alloc_cases)
    case full
    then show ?thesis using assms(6) by (simp add: card_chan_map wf(2))
  next
    case (slot i)
    let ?a1 = "(ch_set i (zero_channel\<lparr> ch_local_id := ctx_next_local_channel_id a \<rparr>) a)
           \<lparr> ctx_next_local_channel_id := ctx_next_local_channel_id a + 1,
             ctx_active_channels := ctx_active_channels a + 1 \<rparr>"
    let ?a2 = "ch_set i ((ch_at i ?a1)\<lparr> ch_state := CH_OPENING, ch_recv_window := ctx_initial_window ?a1,
        ch_max_packet := ctx_max_packet ?a1, ch_name := snprintf_s (SODCHAN_CHANNEL_NAME_MAX + 1) nm \<rparr>) ?a1"
    let ?p = "mux_encode (Open (ctx_next_local_channel_id a) (ctx_initial_window ?a2) (ctx_max_packet ?a2) (cstr nm))"
    have len: "length (cstr nm) \<le> SODCHAN_CHANNEL_NAME_MAX" using assms(4) by (simp add: c_strlen_def)
    have p: "sodchan_wire_channel_open_encode (ctx_next_local_channel_id a) (ctx_initial_window ?a2)
        (ctx_max_packet ?a2) (Some (cstr nm)) (Some 128) = Inr ?p" "0 < length ?p" "length ?p \<le> 1100"
      using len by (simp_all add: mux_value_defs mux_codec_defs)
    obtain c where c: "ss_send_pdu sod (Some ?p) ?a2 = (SODCHAN_OK, c)"
      using sends_now [of ?a2 ?p sod paired rst] assms(7-11) p(2,3)
      by (auto simp: roomy_def ch_set_def out_pending_def)
    have id: "ch_local_id (ch_at i ?a2) = ctx_next_local_channel_id a" using slot(1) by simp
    have "ctx_channels c = ctx_channels ?a2" using ss_send_pair [OF c] by simp
    then show ?thesis
      using assms(2-5) slot p(1) c id
      by (simp add: sodchan_channel_open_def Let_def del: mux_encode.simps)
  qed
qed


lemma channel_accept_succeeds:
  assumes "chan_table_inv b" and "ctx_state b = STATE_READY" and "chan_map b j = Some c"
    and "ch_state c = CH_PENDING" and "roomy b" "ctx_ss_push_ready b" "out_pending b = []"
    and "stream_law sod paired" "paired (ctx_ss_push b) rst"
  shows "\<exists>b'. sodchan_channel_accept sod j True b = (SODCHAN_OK, b')"
proof -
  obtain i where i: "ch_by_local j b = Some i" "ch_at i b = c" "ch_used c" "ch_local_id c = j" "slot_ok c"
    by (rule chan_slot [OF assms(1,3)])
  let ?p = "mux_encode (Confirm j (ch_peer_id c) (ctx_initial_window b) (ctx_max_packet b))"
  have p: "sodchan_wire_channel_open_confirm_encode j (ch_peer_id c) (ctx_initial_window b) (ctx_max_packet b) (Some 64)
      = Inr ?p" "0 < length ?p" "length ?p \<le> 1100"
    by (simp_all add: mux_value_defs mux_codec_defs)
  obtain d where d: "ss_send_pdu sod (Some ?p) b = (SODCHAN_OK, d)"
    using sends_now [OF assms(5-7) p(2,3) assms(8,9)] by blast
  have "ch_have_peer_id c" using i(3,5) assms(4) by (simp add: slot_ok_def)
  with assms(2,4) i p(1) d show ?thesis
    by (simp add: sodchan_channel_accept_def Let_def del: mux_encode.simps)
qed

section \<open>Properties\<close>

text \<open>The start of a channel in one direction: nothing sent yet.\<close>

definition flow_start :: "'ss sodchan_ctx \<Rightarrow> 'ss sodchan_ctx \<Rightarrow> 'ss flow" where
  "flow_start a b = \<lparr> fl_a = a, fl_b = b, fl_data = [], fl_credit = [], fl_sent = [], fl_got = [] \<rparr>"

lemma flow_start_sel [simp]:
  "fl_a (flow_start a b) = a" "fl_b (flow_start a b) = b" "fl_data (flow_start a b) = []"
  "fl_credit (flow_start a b) = []" "fl_sent (flow_start a b) = []" "fl_got (flow_start a b) = []"
  by (simp_all add: flow_start_def)

lemma opening_flow:
  assumes "chan_table_inv a" and "ctx_next_local_channel_id a + 1 \<noteq> 0" and "mux_ready b"
    and "sodchan_channel_open sod (Some nm) a = (SODCHAN_OK, Some k, a1)"
    and "handle_mux_pdu sod (mux_encode (Open k (ctx_initial_window a) (ctx_max_packet a) (cstr nm))) b = (r, b1)"
    and "j = ctx_next_local_channel_id b"
    and "sodchan_channel_accept sod j True b1 = (SODCHAN_OK, b2)"
    and "handle_mux_pdu sod (mux_encode (Confirm j k (ctx_initial_window b) (ctx_max_packet b))) a1 = (q, a2)"
  shows "r = 0" "q = 0" "flow_inv k j (flow_start a2 b2)" "flow_inv j k (flow_start b2 a2)"
    "out_pending a1 = out_pending (snd (ss_send_pdu sod
       (Some (mux_encode (Open k (ctx_initial_window a) (ctx_max_packet a) (cstr nm)))) a))"
    "out_pending b2 = out_pending (snd (ss_send_pdu sod
       (Some (mux_encode (Confirm j k (ctx_initial_window b) (ctx_max_packet b)))) b1))"
proof -
  obtain c where c: "k = ctx_next_local_channel_id a" "length (cstr nm) \<le> SODCHAN_CHANNEL_NAME_MAX"
    "chan_table_inv a1" "ctx_state a = STATE_READY" "ctx_state a1 = STATE_READY"
    "chan_map a1 = (chan_map a)(k \<mapsto> c)" "ch_state c = CH_OPENING" "ch_recv_window c = ctx_initial_window a"
    "session_part a1 = session_part a"
    "out_pending a1 = out_pending (snd (ss_send_pdu sod
       (Some (mux_encode (Open k (ctx_initial_window a) (ctx_max_packet a) (cstr nm)))) a))"
    by (rule channel_open_ok [OF assms(1,2,4)])
  have "chan_map b1 j \<noteq> None"
    using assms(7) by (cases "ch_by_local j b1") (simp_all add: sodchan_channel_accept_def chan_map_def split: if_splits)
  note b1 = open_arrives [OF assms(3) c(2) assms(6,5) this]
  note b2 = channel_accept_ok [OF b1(2,5) assms(7)]
  note same = session_part_fields(7,8) [OF b1(4)]
  obtain a2' c' where a2: "handle_mux_pdu sod (mux_encode (Confirm j k (ctx_initial_window b) (ctx_max_packet b))) a1
      = (0, a2')" "chan_table_inv a2'" "ctx_state a2' = ctx_state a1" "chan_map a2' = (chan_map a1)(k \<mapsto> c')"
      "ch_state c' = CH_OPEN" "ch_peer_id c' = j" "ch_send_window c' = ctx_initial_window b"
      "ch_recv_window c' = ch_recv_window c"
    using confirm_arrives [OF c(3) _ c(7)] c(6) by (metis fun_upd_same)
  have q: "q = 0" "a2 = a2'" using assms(8) a2(1) by simp_all
  let ?d = "(pending_channel b k (ctx_initial_window a) (ctx_max_packet a) (cstr nm) j)
      \<lparr> ch_state := CH_OPEN, ch_recv_window := ctx_initial_window b1 \<rparr>"
  have d: "ch_state ?d = CH_OPEN" "ch_peer_id ?d = k" "ch_send_window ?d = ctx_initial_window a"
      "ch_recv_window ?d = ctx_initial_window b"
    by (simp_all add: pending_channel_def same)
  show "r = 0" "q = 0" by (rule b1(1) q(1))+
  show "flow_inv k j (flow_start a2 b2)"
    by (rule flow_invI [where ca = c' and cb = ?d and xs = "[]" and ns = "[]"])
      (simp_all add: q a2 c(5) b2 d)
  show "flow_inv j k (flow_start b2 a2)"
    by (rule flow_invI [where ca = ?d and cb = c' and xs = "[]" and ns = "[]"])
      (simp_all add: q a2 c(5,8) b2 d)
  show "out_pending a1 = out_pending (snd (ss_send_pdu sod
       (Some (mux_encode (Open k (ctx_initial_window a) (ctx_max_packet a) (cstr nm)))) a))" by (rule c(10))
  show "out_pending b2 = out_pending (snd (ss_send_pdu sod
       (Some (mux_encode (Confirm j k (ctx_initial_window b) (ctx_max_packet b)))) b1))"
    using b2(5) by (simp add: pending_channel_def same del: mux_encode.simps)
qed

text \<open>Two idle ends of a session, for the witnesses.\<close>

definition idle_end :: "bytes sodchan_ctx" where
  "idle_end = (zero_ctx [] ROLE_CLIENT)\<lparr> ctx_state := STATE_READY, ctx_max_channels := 2,
     ctx_initial_window := 100, ctx_max_packet := 50, ctx_max_record_size := 2000, ctx_ss_push_ready := True,
     ctx_allowed_channels := Some [97], ctx_events := replicate 4 EVENT_NONE, ctx_event_cap := 4 \<rparr>"

lemma idle_end_fields [simp]:
  "ctx_state idle_end = STATE_READY" "ctx_ss_push_ready idle_end" "ctx_max_channels idle_end = 2"
  "ctx_initial_window idle_end = 100" "ctx_max_packet idle_end = 50" "out_pending idle_end = []"
  "ctx_next_local_channel_id idle_end = 0" "roomy idle_end" "chan_map idle_end = (\<lambda>k. None)"
  "cstr [97] = [97]" "channel_name_allowed (Some [97]) idle_end" "mux_ready idle_end" "chan_table_inv idle_end"
proof -
  show "chan_map idle_end = (\<lambda>k. None)"
    by (rule ext) (simp add: idle_end_def chan_map_def ch_by_local_None)
  show c: "cstr [97] = [97]" by (simp add: cstr_def)
  show "channel_name_allowed (Some [97]) idle_end"
    by (simp add: channel_name_allowed_def c name_scan_split idle_end_def)
  show "mux_ready idle_end" "chan_table_inv idle_end"
    by (simp_all add: mux_ready_def idle_end_def chan_table_inv_def table_wf_def ids_wf_def used_count_replicate
        ring_wf_def SODCHAN_MAX_CHANNELS_def)
qed (simp_all add: idle_end_def out_pending_def roomy_def)

lemma idle_opening:
  obtains a1 b1 b2 a2 where
    "sodchan_channel_open sample_sodium (Some [97]) idle_end = (SODCHAN_OK, Some 0, a1)"
    "handle_mux_pdu sample_sodium (mux_encode (Open 0 100 50 [97])) idle_end = (0, b1)"
    "sodchan_channel_accept sample_sodium 0 True b1 = (SODCHAN_OK, b2)"
    "handle_mux_pdu sample_sodium (mux_encode (Confirm 0 0 100 50)) a1 = (0, a2)"
proof -
  obtain a1 where a1: "sodchan_channel_open sample_sodium (Some [97]) idle_end = (SODCHAN_OK, Some 0, a1)"
    using channel_open_succeeds [of idle_end "[97]" sample_sodium "(=)"] sample_stream_law
    by (auto simp: c_strlen_def SODCHAN_CHANNEL_NAME_MAX_def)
  obtain r b1 where b1: "handle_mux_pdu sample_sodium (mux_encode (Open 0 100 50 [97])) idle_end = (r, b1)"
    by (cases "handle_mux_pdu sample_sodium (mux_encode (Open 0 100 50 [97])) idle_end")
  have "implements sample_sodium idle_end (r, b1) (mux_spec idle_end (chan_map idle_end) (Open 0 100 50 [97]))"
    using open_refines [of idle_end "[97]" sample_sodium 0 100 50] mux_encode_nth [of "Open 0 100 50 [97]"] b1
    by (simp add: handle_mux_pdu_def mux_type_defs SODCHAN_CHANNEL_NAME_MAX_def del: implements.simps mux_spec.simps)
  then have m: "chan_map b1 0 = Some (pending_channel idle_end 0 100 50 [97] 0)"
    and o: "out_pending b1 = []" "ctx_ss_push b1 = ctx_ss_push idle_end"
    by (simp_all add: Let_def send_all_def)
  have len: "length [97 :: byte] \<le> SODCHAN_CHANNEL_NAME_MAX" by (simp add: SODCHAN_CHANNEL_NAME_MAX_def)
  have "chan_map b1 0 \<noteq> None" using m by simp
  note 1 = open_arrives [OF idle_end_fields(12) len idle_end_fields(7) [symmetric] b1 this]
  have st: "ctx_state b1 = STATE_READY" using 1(3) by simp
  have ready: "roomy b1" "ctx_ss_push_ready b1"
    using session_part_fields(4) [OF 1(4)] session_part_fields(28) [OF 1(4)]
    by (simp_all add: roomy_def idle_end_def)
  then obtain b2 where b2: "sodchan_channel_accept sample_sodium 0 True b1 = (SODCHAN_OK, b2)"
    using channel_accept_succeeds [OF 1(2) st m _ ready o(1) sample_stream_law refl]
    by (auto simp: pending_channel_def)
  obtain c where "chan_table_inv a1" "chan_map a1 = (chan_map idle_end)(0 \<mapsto> c)" "ch_state c = CH_OPENING"
    by (rule channel_open_ok [OF _ _ a1]) simp_all
  then obtain a2 where "handle_mux_pdu sample_sodium (mux_encode (Confirm 0 0 100 50)) a1 = (0, a2)"
    using confirm_arrives [of a1 0 c] by (metis fun_upd_same)
  with a1 b1 b2 1(1) show thesis by (intro that) auto
qed

text \<open>
  C20. Opening a channel makes both ends agree. When one end opens a channel, the
  other takes in the OPEN and its host accepts, and the first takes in the CONFIRM,
  nothing is violated, both ends have the channel open, each knows the other's id,
  and each one's send window is exactly the receive window that the other granted;
  the two messages are the ones that the calls put on the wire.
\<close>

theorem opening_agrees:
  assumes "chan_table_inv a" and "ctx_next_local_channel_id a + 1 \<noteq> 0" and "mux_ready b"
    and "sodchan_channel_open sod (Some nm) a = (SODCHAN_OK, Some k, a1)"
    and "handle_mux_pdu sod (mux_encode (Open k (ctx_initial_window a) (ctx_max_packet a) (cstr nm))) b = (r, b1)"
    and "j = ctx_next_local_channel_id b"
    and "sodchan_channel_accept sod j True b1 = (SODCHAN_OK, b2)"
    and "handle_mux_pdu sod (mux_encode (Confirm j k (ctx_initial_window b) (ctx_max_packet b))) a1 = (q, a2)"
  shows "r = 0 \<and> q = 0
    \<and> (\<exists>ca cb. chan_map a2 k = Some ca \<and> chan_map b2 j = Some cb \<and> ch_state ca = CH_OPEN \<and> ch_state cb = CH_OPEN
         \<and> ch_peer_id ca = j \<and> ch_peer_id cb = k
         \<and> ch_send_window ca = ch_recv_window cb \<and> ch_send_window cb = ch_recv_window ca)
    \<and> out_pending a1 = out_pending (snd (ss_send_pdu sod
         (Some (mux_encode (Open k (ctx_initial_window a) (ctx_max_packet a) (cstr nm)))) a))
    \<and> out_pending b2 = out_pending (snd (ss_send_pdu sod
         (Some (mux_encode (Confirm j k (ctx_initial_window b) (ctx_max_packet b)))) b1))"
proof -
  note o = opening_flow [OF assms]
  obtain ca cb where w: "chan_map a2 k = Some ca" "ch_state ca = CH_OPEN" "ch_peer_id ca = j"
      "chan_map b2 j = Some cb" "ch_state cb = CH_OPEN" "ch_peer_id cb = k"
      "unat (ch_send_window ca) = unat (ch_recv_window cb)"
    by (rule flow_invE [OF o(3)]) simp
  have "unat (ch_send_window cb) = unat (ch_recv_window ca)"
    by (rule flow_invE [OF o(4)]) (use w in simp)
  with w have "\<exists>ca cb. chan_map a2 k = Some ca \<and> chan_map b2 j = Some cb \<and> ch_state ca = CH_OPEN
      \<and> ch_state cb = CH_OPEN \<and> ch_peer_id ca = j \<and> ch_peer_id cb = k
      \<and> ch_send_window ca = ch_recv_window cb \<and> ch_send_window cb = ch_recv_window ca"
    by (simp add: word_unat_eq_iff)
  with o(1,2,5,6) show ?thesis by blast
qed

theorem opening_agrees_witness:
  "\<exists>a1 b1 b2 a2 ca cb.
     sodchan_channel_open sample_sodium (Some [97]) idle_end = (SODCHAN_OK, Some 0, a1)
     \<and> handle_mux_pdu sample_sodium (mux_encode (Open 0 100 50 [97])) idle_end = (0, b1)
     \<and> sodchan_channel_accept sample_sodium 0 True b1 = (SODCHAN_OK, b2)
     \<and> handle_mux_pdu sample_sodium (mux_encode (Confirm 0 0 100 50)) a1 = (0, a2)
     \<and> chan_map a2 0 = Some ca \<and> chan_map b2 0 = Some cb \<and> ch_send_window ca = ch_recv_window cb"
proof -
  obtain a1 b1 b2 a2 where
    h: "sodchan_channel_open sample_sodium (Some [97]) idle_end = (SODCHAN_OK, Some 0, a1)"
    "handle_mux_pdu sample_sodium (mux_encode (Open 0 100 50 [97])) idle_end = (0, b1)"
    "sodchan_channel_accept sample_sodium 0 True b1 = (SODCHAN_OK, b2)"
    "handle_mux_pdu sample_sodium (mux_encode (Confirm 0 0 100 50)) a1 = (0, a2)"
    by (rule idle_opening)
  have "handle_mux_pdu sample_sodium (mux_encode (Open 0 (ctx_initial_window idle_end) (ctx_max_packet idle_end)
      (cstr [97]))) idle_end = (0, b1)"
    and "handle_mux_pdu sample_sodium (mux_encode (Confirm 0 0 (ctx_initial_window idle_end)
      (ctx_max_packet idle_end))) a1 = (0, a2)"
    and "ctx_next_local_channel_id idle_end + 1 \<noteq> 0"
    using h(2,4) by (simp_all del: mux_encode.simps)
  from opening_agrees [OF idle_end_fields(13) this(3) idle_end_fields(12) h(1) this(1)
      idle_end_fields(7) [symmetric] h(3) this(2)] h
  show ?thesis by blast
qed

lemma channel_send_succeeds:
  assumes "chan_table_inv a" and "ctx_state a = STATE_READY" and "chan_map a k = Some c" and "ch_state c = CH_OPEN"
    and "\<not> ch_local_eof c" and "length d \<le> unat (ch_max_packet c)" "length d \<le> SODCHAN_DATA_MAX"
    and "length d \<le> unat (ch_send_window c)"
    and "ss_send_pdu sod (Some (mux_encode (Data (ch_peer_id c) d))) a = (SODCHAN_OK, a1)"
  shows "\<exists>i. sodchan_channel_send sod True k (Some d) a
    = (SODCHAN_OK, ch_set i (c\<lparr> ch_send_window := ch_send_window c - of_nat (length d) \<rparr>) a1)"
proof -
  obtain i where i: "ch_by_local k a = Some i" "ch_at i a = c" "ch_used c" "ch_local_id c = k" "slot_ok c"
    by (rule chan_slot [OF assms(1,3)])
  have "sodchan_wire_channel_data_encode (ch_peer_id c) (Some d) (Some (9 + length d))
      = Inr (mux_encode (Data (ch_peer_id c) d))"
    using assms(7) by (simp add: data_enc_def sodchan_wire_channel_data_encode_def SODCHAN_DATA_MAX_def)
  moreover have "ch_have_peer_id c" using i(3,5) assms(4) by (simp add: slot_ok_def)
  moreover have "ctx_channels a1 = ctx_channels a"
    using arg_cong [OF assms(9), of "\<lambda>x. ctx_channels (snd x)"] by simp
  ultimately show ?thesis
    using assms i by (intro exI [of _ i]) (simp add: sodchan_channel_send_def Let_def del: mux_encode.simps)
qed

text \<open>
  C8. An honest sender never overruns the receiver. From the moment a channel is
  open, through any sends, grants of credit and arrivals on it and any operations
  beside it (the steps of \<open>flow_step\<close>; EOF, CLOSE and the end of the session are not
  among them), the sender's window, the data under way and the credit under way add up exactly to
  the receiver's window; so every DATA message that arrives is accepted, and what
  the receiver accepted and what is under way is, in order, what was sent.
\<close>

theorem flow_control_safe:
  assumes "flow_inv k j f" and "(flow_step sod k j)\<^sup>*\<^sup>* f g"
  shows "\<exists>ca cb xs ns. chan_map (fl_a g) k = Some ca \<and> chan_map (fl_b g) j = Some cb
    \<and> fl_data g = map (Data j) xs \<and> fl_credit g = map (Window k) ns
    \<and> unat (ch_send_window ca) + sum_list (map length xs) + sum_list (map unat ns) = unat (ch_recv_window cb)
    \<and> fl_sent g = fl_got g @ xs
    \<and> (\<forall>d ds. xs = d # ds \<longrightarrow> (\<exists>b'. handle_mux_pdu sod (mux_encode (Data j d)) (fl_b g)
         = (0, emit (EVENT_CHANNEL_DATA j d) b') \<and> event_list b' = event_list (fl_b g)))"
proof (rule flow_invE [OF flow_run_inv [OF assms(2,1)]])
  fix ca cb xs ns
  assume w: "chan_table_inv (fl_b g)" "chan_map (fl_a g) k = Some ca" "chan_map (fl_b g) j = Some cb"
    "ch_state cb = CH_OPEN" "fl_data g = map (Data j) xs" "\<forall>d \<in> set xs. length d \<le> SODCHAN_DATA_MAX"
    "fl_credit g = map (Window k) ns" "fl_sent g = fl_got g @ xs"
    "unat (ch_send_window ca) + sum_list (map length xs) + sum_list (map unat ns) = unat (ch_recv_window cb)"
  have "\<exists>b'. handle_mux_pdu sod (mux_encode (Data j d)) (fl_b g) = (0, emit (EVENT_CHANNEL_DATA j d) b')
      \<and> event_list b' = event_list (fl_b g)" if "xs = d # ds" for d ds
  proof -
    have "length d \<le> unat (ch_recv_window cb)" "length d \<le> SODCHAN_DATA_MAX" using w(6,9) that by auto
    then show ?thesis by (rule data_arrives [OF w(1,3,4), where sod = sod]) blast
  qed
  with w show ?thesis by blast
qed

definition open_end :: "bytes sodchan_ctx" where
  "open_end = idle_end\<lparr> ctx_channels := zero_channel\<lparr> ch_state := CH_OPEN, ch_have_peer_id := True, ch_name := [97],
       ch_send_window := 100, ch_recv_window := 100, ch_max_packet := 50 \<rparr> # replicate 15 zero_channel,
     ctx_next_local_channel_id := 1, ctx_active_channels := 1 \<rparr>"

lemma open_end_channel:
  "chan_map open_end 0 = Some (zero_channel\<lparr> ch_state := CH_OPEN, ch_have_peer_id := True, ch_name := [97],
       ch_send_window := 100, ch_recv_window := 100, ch_max_packet := 50 \<rparr>)" "chan_table_inv open_end"
  "ctx_state open_end = STATE_READY" "roomy open_end" "ctx_ss_push_ready open_end" "out_pending open_end = []"
proof -
  show "chan_map open_end 0 = Some (zero_channel\<lparr> ch_state := CH_OPEN, ch_have_peer_id := True, ch_name := [97],
       ch_send_window := 100, ch_recv_window := 100, ch_max_packet := 50 \<rparr>)"
    by (simp add: open_end_def chan_map_def ch_by_local_def zero_channel_def)
  show "chan_table_inv open_end"
    by (simp add: open_end_def idle_end_def chan_table_inv_def table_wf_def ids_wf_def used_count_def ch_used_def
        slot_ok_def zero_channel_def SODCHAN_MAX_CHANNELS_def SODCHAN_CHANNEL_NAME_MAX_def nth_Cons' split: nat.splits)
qed (simp_all add: open_end_def roomy_def idle_end_def out_pending_def)

theorem flow_control_safe_witness:
  "\<exists>a' b'. sodchan_channel_send sample_sodium True 0 (Some [7]) open_end = (SODCHAN_OK, a')
     \<and> handle_mux_pdu sample_sodium (mux_encode (Data 0 [7])) open_end = (0, emit (EVENT_CHANNEL_DATA 0 [7]) b')"
proof -
  let ?c = "zero_channel\<lparr> ch_state := CH_OPEN, ch_have_peer_id := True, ch_name := [97],
       ch_send_window := 100, ch_recv_window := 100, ch_max_packet := 50 \<rparr>"
  have c: "ch_peer_id ?c = 0" "\<not> ch_local_eof ?c" by (simp_all add: zero_channel_def)
  have inv: "flow_inv 0 0 (flow_start open_end open_end)"
    by (rule flow_invI [where ca = ?c and cb = ?c and xs = "[]" and ns = "[]"]) (simp_all add: open_end_channel c)
  have p: "0 < length (mux_encode (Data 0 [7]))" "length (mux_encode (Data 0 [7])) \<le> 1100"
    by (simp_all add: data_enc_def mux_codec_defs)
  obtain a1 where "ss_send_pdu sample_sodium (Some (mux_encode (Data 0 [7]))) open_end = (SODCHAN_OK, a1)"
    using sends_now [OF open_end_channel(4-6) p sample_stream_law refl] by blast
  then obtain a' where a': "sodchan_channel_send sample_sodium True 0 (Some [7]) open_end = (SODCHAN_OK, a')"
    using channel_send_succeeds [OF open_end_channel(2,3,1), of "[7]" sample_sodium] c
    by (auto simp: SODCHAN_DATA_MAX_def simp del: mux_encode.simps)
  let ?g = "(flow_start open_end open_end)\<lparr> fl_a := a', fl_data := [Data 0 [7]], fl_sent := [[7]] \<rparr>"
  have "flow_step sample_sodium 0 0 (flow_start open_end open_end) ?g"
    using flow_step.send [of sample_sodium True 0 "[7]" "flow_start open_end open_end" a' ?c 0] a' open_end_channel(1) c
    by simp
  then have "(flow_step sample_sodium 0 0)\<^sup>*\<^sup>* (flow_start open_end open_end) ?g" by (rule r_into_rtranclp)
  from flow_control_safe [OF inv this] a' show ?thesis by auto
qed

end
