(* ===== verification/Channel_Ends.thy ===== *)
theory Channel_Ends
  imports Flow
begin

text \<open>
  The edges of the channel layer: a host that does not read its events, and a
  channel that is closed while messages for it are under way.
\<close>

section \<open>No room for the event\<close>

text \<open>
  C36. Data can be lost inside the receiver. When the event ring is full, a DATA
  message within the window is accepted: the handler returns success, the session
  stays as it is and the receive window shrinks, but no event is queued, no reply
  is sent, and nothing keeps the payload.
\<close>

theorem data_lost_when_full:
  assumes "chan_table_inv b" and "chan_map b j = Some c" and "ch_state c = CH_OPEN"
    and "length d \<le> unat (ch_recv_window c)" and "length d \<le> SODCHAN_DATA_MAX"
    and "ring_wf b" and "ctx_event_count b = ctx_event_cap b"
    and "handle_mux_pdu sod (mux_encode (Data j d)) b = (r, b')"
  shows "r = 0 \<and> ctx_state b' = ctx_state b \<and> session_part b' = session_part b
    \<and> event_list b' = event_list b \<and> out_pending b' = out_pending b
    \<and> chan_map b' = (chan_map b)(j \<mapsto> c\<lparr> ch_recv_window := ch_recv_window c - of_nat (length d) \<rparr>)
    \<and> unat (ch_recv_window c - of_nat (length d)) = unat (ch_recv_window c) - length d"
proof -
  let ?c = "c\<lparr> ch_recv_window := ch_recv_window c - of_nat (length d) \<rparr>"
  obtain i where i: "handle_mux_pdu sod (mux_encode (Data j d)) b
      = (0, emit (EVENT_CHANNEL_DATA j d) (ch_set i ?c b))"
    "chan_map (ch_set i ?c b) = (chan_map b)(j \<mapsto> ?c)"
    by (rule data_handled [OF assms(1-5), where sod = sod])
  then have b': "r = 0" "b' = emit (EVENT_CHANNEL_DATA j d) (ch_set i ?c b)" using assms(8) by simp_all
  have "event_list b' = event_list b"
    unfolding b'(2) by (subst event_list_emit) (use assms(6,7) in simp_all)
  moreover have "unat (ch_recv_window c - of_nat (length d)) = unat (ch_recv_window c) - length d"
    using assms(4) by (rule u32_sub_exact)
  ultimately show ?thesis using i(2) by (simp add: b')
qed

theorem data_lost_when_full_witness:
  "\<exists>b'. handle_mux_pdu sample_sodium (mux_encode (Data 0 [7])) (open_end\<lparr> ctx_event_count := 4 \<rparr>) = (0, b')
     \<and> event_list b' = event_list (open_end\<lparr> ctx_event_count := 4 \<rparr>)"
proof -
  let ?b = "open_end\<lparr> ctx_event_count := 4 \<rparr>"
  obtain r b' where h: "handle_mux_pdu sample_sodium (mux_encode (Data 0 [7])) ?b = (r, b')"
    by (cases "handle_mux_pdu sample_sodium (mux_encode (Data 0 [7])) ?b")
  have m: "chan_map ?b 0 = chan_map open_end 0" by (simp add: chan_map_def ch_by_local_def)
  have i: "chan_table_inv ?b"
    using open_end_channel(2) by (simp add: chan_table_inv_def table_wf_def ids_wf_def)
  have "ring_wf ?b" "ctx_event_count ?b = ctx_event_cap ?b"
    by (simp_all add: ring_wf_def open_end_def idle_end_def)
  from data_lost_when_full [OF i m [unfolded open_end_channel(1)] _ _ _ this h] h show ?thesis
    by (auto simp: SODCHAN_DATA_MAX_def)
qed

section \<open>Closing while messages are under way\<close>

lemma unknown_channel:
  assumes "chan_map b k = None" and "length d \<le> SODCHAN_DATA_MAX"
  shows "handle_mux_pdu sod (mux_encode (Data k d)) b = err_ret SODCHAN_ERR_PROTOCOL ''DATA bad ch'' b"
    and "handle_mux_pdu sod (mux_encode (Window k n)) b = (0, b)"
    and "handle_mux_pdu sod (mux_encode (Eof k)) b = (0, b)"
    and "handle_mux_pdu sod (mux_encode (Close k)) b = (0, b)"
proof -
  have none: "ch_by_local k b = None" using assms(1) by (simp add: chan_map_def split: option.splits)
  have len: "length d \<le> 0xFFFFFFFF - 9" using assms(2) by (simp add: SODCHAN_DATA_MAX_def)
  note nth = mux_encode_nth [of "Data k d"] mux_encode_nth [of "Window k n"] mux_encode_nth [of "Eof k"]
    mux_encode_nth [of "Close k"]
  show "handle_mux_pdu sod (mux_encode (Data k d)) b = err_ret SODCHAN_ERR_PROTOCOL ''DATA bad ch'' b"
    using nth(1) len none data_decode_enc [OF len]
    by (simp add: handle_mux_pdu_def handle_channel_data_def mux_type_defs)
  show "handle_mux_pdu sod (mux_encode (Window k n)) b = (0, b)"
    using nth(2) none by (simp add: handle_mux_pdu_def handle_channel_window_def mux_decode_enc mux_type_defs)
  show "handle_mux_pdu sod (mux_encode (Eof k)) b = (0, b)"
    using nth(3) none by (simp add: handle_mux_pdu_def handle_channel_eof_def mux_decode_enc mux_type_defs)
  show "handle_mux_pdu sod (mux_encode (Close k)) b = (0, b)"
    using nth(4) none by (simp add: handle_mux_pdu_def handle_channel_close_def mux_decode_enc mux_type_defs)
qed

lemma channel_close_ok:
  assumes "chan_table_inv a" and "sodchan_channel_close sod k a = (SODCHAN_OK, a1)"
  shows "chan_map a1 = (chan_map a)(k := None)" "chan_table_inv a1" "ctx_state a1 = ctx_state a"
proof -
  obtain i p where i: "ch_by_local k a = Some i"
    and a1: "a1 = ch_free i a \<or> a1 = ch_free i (snd (ss_send_pdu sod p a))"
    using assms(2) unfolding sodchan_channel_close_def Let_def
    by (auto split: if_splits option.splits sum.splits)
  have free: "chan_map (ch_free i c) = (chan_map c)(k := None) \<and> chan_table_inv (ch_free i c)"
    if "chan_table_inv c" "ch_by_local k c = Some i" for c :: "'a sodchan_ctx"
    using chan_map_ch_free [OF _ that(2)] ch_by_local_Some [OF that(2)] that(1)
    by (simp add: chan_table_inv_def ch_free_table_wf ch_free_ids_wf)
  show "chan_map a1 = (chan_map a)(k := None)" "chan_table_inv a1"
    using free [OF assms(1) i] free [of "snd (ss_send_pdu sod p a)"] assms(1) i a1 by auto
  show "ctx_state a1 = ctx_state a" using a1 by auto
qed

text \<open>
  C37. Closing a channel locally forgets it at once. Credit, EOF and CLOSE that were
  under way are then ignored; but DATA that the peer sent before it learned of the
  close is answered with a protocol error that ends the whole session.
\<close>

theorem data_after_close_fatal:
  assumes "chan_table_inv a" and "sodchan_channel_close sod k a = (SODCHAN_OK, a1)"
    and "length d \<le> SODCHAN_DATA_MAX"
    and "handle_mux_pdu sod (mux_encode (Data k d)) a1 = (r, a2)"
  shows "chan_map a1 = (chan_map a)(k := None) \<and> ctx_state a1 = ctx_state a
    \<and> r = -1 \<and> ctx_state a2 = STATE_ERROR
    \<and> handle_mux_pdu sod (mux_encode (Window k n)) a1 = (0, a1)
    \<and> handle_mux_pdu sod (mux_encode (Eof k)) a1 = (0, a1)
    \<and> handle_mux_pdu sod (mux_encode (Close k)) a1 = (0, a1)"
proof -
  note c = channel_close_ok [OF assms(1,2)]
  have "chan_map a1 k = None" by (simp add: c)
  note u = unknown_channel [OF this assms(3), where sod = sod]
  have "(r, a2) = err_ret SODCHAN_ERR_PROTOCOL ''DATA bad ch'' a1" using assms(4) u(1) by simp
  then have "r = -1" "ctx_state a2 = STATE_ERROR" by simp_all
  then show ?thesis using c u(2-4) by simp
qed

theorem data_after_close_fatal_witness:
  "\<exists>a1 a2. sodchan_channel_close sample_sodium 0 open_end = (SODCHAN_OK, a1)
     \<and> handle_mux_pdu sample_sodium (mux_encode (Data 0 [7])) a1 = (-1, a2) \<and> ctx_state a2 = STATE_ERROR"
proof -
  obtain i where i: "ch_by_local 0 open_end = Some i"
    using chan_slot [OF open_end_channel(2,1)] by blast
  moreover have "ch_state (ch_at i open_end) = CH_OPEN" using open_end_channel(1) i by (simp add: chan_map_def)
  ultimately have "\<exists>a1. sodchan_channel_close sample_sodium 0 open_end = (SODCHAN_OK, a1)"
    using open_end_channel(3) by (simp add: sodchan_channel_close_def Let_def)
  then obtain a1 where a1: "sodchan_channel_close sample_sodium 0 open_end = (SODCHAN_OK, a1)" by blast
  obtain r a2 where a2: "handle_mux_pdu sample_sodium (mux_encode (Data 0 [7])) a1 = (r, a2)"
    by (cases "handle_mux_pdu sample_sodium (mux_encode (Data 0 [7])) a1")
  from data_after_close_fatal [OF open_end_channel(2) a1 _ a2, of 0] a1 a2 show ?thesis
    by (auto simp: SODCHAN_DATA_MAX_def)
qed

section \<open>Credit beyond 32 bits\<close>

text \<open>
  C38. Credit is added modulo 2^32. A WINDOW message whose credit exceeds what the
  32-bit counter can still hold is taken as a success, but leaves the sender with
  less credit than it had before, by exactly what was missing to 2^32.
\<close>

theorem excess_credit_wraps:
  assumes "chan_table_inv a" and "chan_map a k = Some c" and "ch_state c = CH_OPEN"
    and "2 ^ 32 \<le> unat (ch_send_window c) + unat n"
    and "handle_mux_pdu sod (mux_encode (Window k n)) a = (r, a')"
  shows "r = 0 \<and> ctx_state a' = ctx_state a
    \<and> (\<exists>c'. chan_map a' k = Some c' \<and> unat (ch_send_window c') < unat (ch_send_window c)
         \<and> unat (ch_send_window c') = unat (ch_send_window c) - (2 ^ 32 - unat n))"
proof -
  obtain b where b: "handle_mux_pdu sod (mux_encode (Window k n)) a
      = (0, emit (EVENT_CHANNEL_WINDOW k n (ch_send_window c + n)) b)" "ctx_state b = ctx_state a"
    "chan_map b = (chan_map a)(k \<mapsto> c\<lparr> ch_send_window := ch_send_window c + n \<rparr>)"
    by (rule credit_arrives [OF assms(1-3), where sod = sod and n = n])
  have lt: "unat (ch_send_window c) < 2 ^ 32" "unat n < 2 ^ 32" 
    using unsigned_less [of "ch_send_window c"] unsigned_less [of n] by simp_all
  have "unat (ch_send_window c + n) = (unat (ch_send_window c) + unat n) mod 2 ^ 32"
    by (simp add: unat_word_ariths)
  also have "\<dots> = unat (ch_send_window c) + unat n - 2 ^ 32"
    using assms(4) lt by (subst mod_if, subst mod_if) simp
  finally have w: "unat (ch_send_window c + n) = unat (ch_send_window c) + unat n - 2 ^ 32" .
  show ?thesis using b assms(4,5) lt w by auto
qed

theorem excess_credit_wraps_witness:
  "\<exists>a'. handle_mux_pdu sample_sodium (mux_encode (Window 0 0xFFFFFFFF)) open_end = (0, a')
     \<and> (\<exists>c'. chan_map a' 0 = Some c' \<and> unat (ch_send_window c') = 99)"
proof -
  obtain r a' where h: "handle_mux_pdu sample_sodium (mux_encode (Window 0 0xFFFFFFFF)) open_end = (r, a')"
    by (cases "handle_mux_pdu sample_sodium (mux_encode (Window 0 0xFFFFFFFF)) open_end")
  from excess_credit_wraps [OF open_end_channel(2,1) _ _ h] h show ?thesis by auto
qed

section \<open>Giving up an opening\<close>

lemma confirm_unknown:
  assumes "chan_map a k = None"
  shows "handle_mux_pdu sod (mux_encode (Confirm j k w m)) a
    = err_ret SODCHAN_ERR_PROTOCOL ''CONFIRM unknown'' a"
proof -
  have "ch_by_local k a = None" using assms by (simp add: chan_map_def split: option.splits)
  then show ?thesis
    using mux_encode_nth [of "Confirm j k w m"]
    by (simp add: handle_mux_pdu_def handle_channel_open_confirm_def mux_decode_enc mux_type_defs)
qed

text \<open>
  C39. An opening cannot be taken back quietly. Closing a channel that still waits
  for the peer's answer succeeds and sends nothing, so the peer is not told; its
  CONFIRM, when it comes, is a protocol error that ends the session.
\<close>

theorem cancelled_open_fatal:
  assumes "chan_table_inv a" and "chan_map a k = Some c" and "ch_state c = CH_OPENING"
    and "ctx_state a = STATE_READY" and "sodchan_channel_close sod k a = (r, a1)"
    and "handle_mux_pdu sod (mux_encode (Confirm j k w m)) a1 = (q, a2)"
  shows "r = SODCHAN_OK \<and> out_pending a1 = out_pending a \<and> ctx_ss_push a1 = ctx_ss_push a
    \<and> chan_map a1 = (chan_map a)(k := None) \<and> q = -1 \<and> ctx_state a2 = STATE_ERROR"
proof -
  obtain i where i: "ch_by_local k a = Some i" "ch_at i a = c" by (rule chan_slot [OF assms(1,2)])
  then have close: "r = SODCHAN_OK" "a1 = ch_free i a"
    using assms(3-5) by (simp_all add: sodchan_channel_close_def)
  with assms(5) have "sodchan_channel_close sod k a = (SODCHAN_OK, a1)" by simp
  note m = channel_close_ok(1) [OF assms(1) this]
  have "chan_map a1 k = None" by (simp add: m)
  from confirm_unknown [OF this, of sod j w m] assms(6)
  have "(q, a2) = err_ret SODCHAN_ERR_PROTOCOL ''CONFIRM unknown'' a1" by simp
  then show ?thesis using close m by simp
qed

theorem cancelled_open_fatal_witness:
  "\<exists>a a1 a2. sodchan_channel_open sample_sodium (Some [97]) idle_end = (SODCHAN_OK, Some 0, a)
     \<and> sodchan_channel_close sample_sodium 0 a = (SODCHAN_OK, a1)
     \<and> handle_mux_pdu sample_sodium (mux_encode (Confirm 5 0 100 50)) a1 = (-1, a2)"
proof -
  obtain a where a: "sodchan_channel_open sample_sodium (Some [97]) idle_end = (SODCHAN_OK, Some 0, a)"
    by (rule idle_opening)
  obtain c where c: "chan_table_inv a" "chan_map a = (chan_map idle_end)(0 \<mapsto> c)" "ch_state c = CH_OPENING"
    and st: "ctx_state a = STATE_READY"
    by (rule channel_open_ok [OF _ _ a]) simp_all
  obtain r a1 where d: "sodchan_channel_close sample_sodium 0 a = (r, a1)"
    by (cases "sodchan_channel_close sample_sodium 0 a")
  obtain q a2 where h: "handle_mux_pdu sample_sodium (mux_encode (Confirm 5 0 100 50)) a1 = (q, a2)"
    by (cases "handle_mux_pdu sample_sodium (mux_encode (Confirm 5 0 100 50)) a1")
  have "chan_map a 0 = Some c" by (simp add: c(2))
  from cancelled_open_fatal [OF c(1) this c(3) st d h] a d h show ?thesis by blast
qed

end
