(* ===== verification/Transport.thy ===== *)
theory Transport
  imports Flow
begin

text \<open>
  Data from host to host: \<^verbatim>\<open>sodchan_channel_send\<close> at one end, the bytes of its
  output buffer, \<^verbatim>\<open>sodchan_feed_input\<close> at the other end and the events there,
  through encoding, encryption, framing, parsing, decryption and dispatch.
\<close>

section \<open>One record\<close>

text \<open>\<open>a\<close> can send and \<open>b\<close> can receive, with nothing under way.\<close>

definition linked :: "('ss \<Rightarrow> 'ss \<Rightarrow> bool) \<Rightarrow> 'ss sodchan_ctx \<Rightarrow> 'ss sodchan_ctx \<Rightarrow> bool" where
  "linked paired a b \<longleftrightarrow>
     ctx_state a = STATE_READY \<and> ctx_ss_push_ready a \<and> out_pending a = []
     \<and> ctx_state b = STATE_READY \<and> ctx_hs b = HS_DONE \<and> ctx_ss_pull_ready b \<and> ctx_in_buf b = []
     \<and> paired (ctx_ss_push a) (ctx_ss_pull b)"

text \<open>The record size limit of a context admits a plaintext of \<open>n\<close> bytes.\<close>

definition admits :: "nat \<Rightarrow> 'ss sodchan_ctx \<Rightarrow> bool" where
  "admits n ctx \<longleftrightarrow> n \<le> ctx_max_record_size ctx \<and> ctx_max_record_size ctx < 2 ^ 63"

lemma record_travels:
  assumes "linked paired a b" and "stream_law sod paired" and "p \<noteq> []"
    and "length p \<le> SODCHAN_DATA_MAX + 64" and "admits (length p) a" "admits (length p) b"
  obtains st ct rst where
    "ss_send_pdu sod (Some p) a = (SODCHAN_OK, a\<lparr> ctx_ss_push := st, ctx_out_buf := on_wire ct, ctx_out_off := 0 \<rparr>)"
    and "paired st rst"
    and "\<And>a' b'. ctx_out_off a' = 0 \<Longrightarrow> ctx_out_buf a' = on_wire ct \<Longrightarrow>
      handle_mux_pdu sod p (b\<lparr> ctx_in_buf := on_wire ct, ctx_ss_pull := rst \<rparr>) = (0, b') \<Longrightarrow>
      deliver sod a' b = (a'\<lparr> ctx_out_off := 0, ctx_out_buf := [] \<rparr>, b'\<lparr> ctx_in_buf := [] \<rparr>)"
proof -
  have l: "ctx_ss_push_ready a" "out_pending a = []" "ctx_state b = STATE_READY" "ctx_hs b = HS_DONE"
    "ctx_ss_pull_ready b" "ctx_in_buf b = []" "paired (ctx_ss_push a) (ctx_ss_pull b)"
    using assms(1) by (simp_all add: linked_def)
  obtain st ct rst where ct: "crypto_secretstream_push sod (ctx_ss_push a) p TAG_MESSAGE = Some (st, ct)"
      "length ct = length p + 17" "crypto_secretstream_pull sod (ctx_ss_pull b) ct = Some (rst, p, TAG_MESSAGE)"
      "paired st rst"
    by (rule stream_law_send [OF assms(2) l(7), of p TAG_MESSAGE])
      (use assms(4) in \<open>simp_all add: SODCHAN_SS_ABYTES_def SODCHAN_DATA_MAX_def\<close>)
  have fit: "ss_fits a p"
    using assms(3-5) l(1,2) by (simp add: ss_fits_def admits_def ss_frame_max_body_eq SODCHAN_SS_ABYTES_def
        SODCHAN_OUT_BUF_SIZE_def SODCHAN_IN_BUF_SIZE_def SODCHAN_DATA_MAX_def)
  have ok: "frame_ok (body_limit b) ct"
    using assms(3,4,6) l(4) ct(2) by (simp add: frame_ok_def body_limit_def admits_def ss_frame_max_body_eq
        SODCHAN_SS_ABYTES_def SODCHAN_IN_BUF_SIZE_def SODCHAN_DATA_MAX_def)
  have disp: "dispatch_frame sod ct (b\<lparr> ctx_in_buf := on_wire ct \<rparr>)
      = handle_mux_pdu sod p (b\<lparr> ctx_in_buf := on_wire ct, ctx_ss_pull := rst \<rparr>)"
    using l(3-5) ct assms(3,4,6)
    by (simp add: dispatch_frame_def handle_encrypted_pdu_def Let_def SODCHAN_SS_ABYTES_def admits_def
        TAG_MESSAGE_def TAG_REKEY_def TAG_FINAL_def sodchan_wire_pdu_type_def)
  show thesis
  proof (rule that)
    show "ss_send_pdu sod (Some p) a
        = (SODCHAN_OK, a\<lparr> ctx_ss_push := st, ctx_out_buf := on_wire ct, ctx_out_off := 0 \<rparr>)"
      using ss_send_pdu_fits [OF fit ct(1)] l(2) by (simp add: on_wire_def)
    show "paired st rst" by (rule ct(4))
    show "deliver sod a' b = (a'\<lparr> ctx_out_off := 0, ctx_out_buf := [] \<rparr>, b'\<lparr> ctx_in_buf := [] \<rparr>)"
      if "ctx_out_off a' = 0" "ctx_out_buf a' = on_wire ct"
        "handle_mux_pdu sod p (b\<lparr> ctx_in_buf := on_wire ct, ctx_ss_pull := rst \<rparr>) = (0, b')" for a' b'
      by (rule deliver_one_frame [OF that(1,2) _ _ l(6) ok]) (use l(3) that(3) disp in simp_all)
  qed
qed

section \<open>One chunk of data\<close>

text \<open>
  Channel \<open>k\<close> of \<open>a\<close> and channel \<open>j\<close> of \<open>b\<close> are the two ends of an open channel
  on which \<open>a\<close> may send.
\<close>

definition pipe ::
    "('ss \<Rightarrow> 'ss \<Rightarrow> bool) \<Rightarrow> u32 \<Rightarrow> u32 \<Rightarrow> sodchan_channel \<Rightarrow> sodchan_channel
       \<Rightarrow> 'ss sodchan_ctx \<Rightarrow> 'ss sodchan_ctx \<Rightarrow> bool" where
  "pipe paired k j ca cb a b \<longleftrightarrow>
     linked paired a b \<and> chan_table_inv a \<and> chan_table_inv b \<and> ring_wf b
     \<and> chan_map a k = Some ca \<and> ch_state ca = CH_OPEN \<and> ch_peer_id ca = j \<and> \<not> ch_local_eof ca
     \<and> chan_map b j = Some cb \<and> ch_state cb = CH_OPEN"

text \<open>What the sizes of a chunk have to respect.\<close>

definition chunk_ok :: "sodchan_channel \<Rightarrow> 'ss sodchan_ctx \<Rightarrow> 'ss sodchan_ctx \<Rightarrow> bytes \<Rightarrow> bool" where
  "chunk_ok ca a b d \<longleftrightarrow> length d \<le> unat (ch_max_packet ca) \<and> length d \<le> SODCHAN_DATA_MAX
     \<and> admits (9 + length d) a \<and> admits (9 + length d) b"

lemma chan_table_inv_cong:
  "ctx_channels c = ctx_channels ctx \<Longrightarrow> ctx_next_local_channel_id c = ctx_next_local_channel_id ctx \<Longrightarrow>
   ctx_active_channels c = ctx_active_channels ctx \<Longrightarrow> ctx_max_channels c = ctx_max_channels ctx \<Longrightarrow>
   chan_table_inv c = chan_table_inv ctx"
  by (simp add: chan_table_inv_def table_wf_def ids_wf_def)

lemma data_message: "length d \<le> SODCHAN_DATA_MAX \<Longrightarrow>
    mux_encode (Data j d) \<noteq> [] \<and> length (mux_encode (Data j d)) = 9 + length d"
  by (simp add: data_enc_def mux_codec_defs SODCHAN_DATA_MAX_def)

lemma chunk_delivered:
  assumes pipe: "pipe paired k j ca cb a b" and law: "stream_law sod paired" and ok: "chunk_ok ca a b d"
    and win: "length d \<le> unat (ch_send_window ca)" "length d \<le> unat (ch_recv_window cb)"
    and room: "ctx_event_count b < ctx_event_cap b"
  obtains a1 a2 b2 where "sodchan_channel_send sod True k (Some d) a = (SODCHAN_OK, a1)"
    and "deliver sod a1 b = (a2, b2)"
    and "pipe paired k j (ca\<lparr> ch_send_window := ch_send_window ca - of_nat (length d) \<rparr>)
      (cb\<lparr> ch_recv_window := ch_recv_window cb - of_nat (length d) \<rparr>) a2 b2"
    and "event_list b2 = event_list b @ [EVENT_CHANNEL_DATA j d]"
    and "ctx_event_cap b2 = ctx_event_cap b" and "ctx_max_record_size a2 = ctx_max_record_size a"
    and "ctx_max_record_size b2 = ctx_max_record_size b"
proof -
  have p: "linked paired a b" "chan_table_inv a" "chan_table_inv b" "ring_wf b" "chan_map a k = Some ca"
    "ch_state ca = CH_OPEN" "ch_peer_id ca = j" "\<not> ch_local_eof ca" "chan_map b j = Some cb" "ch_state cb = CH_OPEN"
    using pipe by (simp_all add: pipe_def)
  let ?p = "mux_encode (Data j d)"
  let ?ca = "ca\<lparr> ch_send_window := ch_send_window ca - of_nat (length d) \<rparr>"
  let ?cb = "cb\<lparr> ch_recv_window := ch_recv_window cb - of_nat (length d) \<rparr>"
  have len: "length d \<le> SODCHAN_DATA_MAX" using ok by (simp add: chunk_ok_def)
  note m = data_message [OF len, of j]
  have sz: "?p \<noteq> []" "length ?p \<le> SODCHAN_DATA_MAX + 64" "admits (length ?p) a" "admits (length ?p) b"
    using m len ok by (simp_all add: chunk_ok_def)
  obtain st ct rst where t:
    "ss_send_pdu sod (Some ?p) a = (SODCHAN_OK, a\<lparr> ctx_ss_push := st, ctx_out_buf := on_wire ct, ctx_out_off := 0 \<rparr>)"
    "paired st rst"
    "\<And>a' b'. ctx_out_off a' = 0 \<Longrightarrow> ctx_out_buf a' = on_wire ct \<Longrightarrow>
      handle_mux_pdu sod ?p (b\<lparr> ctx_in_buf := on_wire ct, ctx_ss_pull := rst \<rparr>) = (0, b') \<Longrightarrow>
      deliver sod a' b = (a'\<lparr> ctx_out_off := 0, ctx_out_buf := [] \<rparr>, b'\<lparr> ctx_in_buf := [] \<rparr>)"
    by (rule record_travels [OF p(1) law sz]) blast
  let ?a1 = "a\<lparr> ctx_ss_push := st, ctx_out_buf := on_wire ct, ctx_out_off := 0 \<rparr>"
  let ?b1 = "b\<lparr> ctx_in_buf := on_wire ct, ctx_ss_pull := rst \<rparr>"
  have la: "ctx_state a = STATE_READY" "ctx_ss_push_ready a" "ctx_state b = STATE_READY" "ctx_hs b = HS_DONE"
    "ctx_ss_pull_ready b" using p(1) by (simp_all add: linked_def)
  have send: "ss_send_pdu sod (Some (mux_encode (Data (ch_peer_id ca) d))) a = (SODCHAN_OK, ?a1)"
    using t(1) by (simp only: p(7))
  have cs: "length d \<le> unat (ch_max_packet ca)" using ok by (simp add: chunk_ok_def)
  obtain i where i: "sodchan_channel_send sod True k (Some d) a = (SODCHAN_OK, ch_set i ?ca ?a1)"
    using channel_send_succeeds [OF p(2) la(1) p(5,6,8) cs len win(1) send] by blast
  have ma: "chan_map (ch_set i ?ca ?a1) = (chan_map a)(k \<mapsto> ?ca)" "chan_table_inv (ch_set i ?ca ?a1)"
    by (rule channel_send_ok [OF p(2,5) i])+
  have b1: "chan_map ?b1 = chan_map b" "chan_table_inv ?b1"
    using p(3) chan_map_cong [of ?b1 b] chan_table_inv_cong [of ?b1 b] by simp_all
  obtain l where h: "handle_mux_pdu sod ?p ?b1 = (0, emit (EVENT_CHANNEL_DATA j d) (ch_set l ?cb ?b1))"
    and mb: "chan_table_inv (ch_set l ?cb ?b1)" "chan_map (ch_set l ?cb ?b1) = (chan_map ?b1)(j \<mapsto> ?cb)"
    by (rule data_handled [OF b1(2) _ p(10) win(2) len, of j, where sod = sod]) (simp_all add: b1(1) p(9))
  let ?a2 = "(ch_set i ?ca ?a1)\<lparr> ctx_out_off := 0, ctx_out_buf := [] \<rparr>"
  let ?b2 = "(emit (EVENT_CHANNEL_DATA j d) (ch_set l ?cb ?b1))\<lparr> ctx_in_buf := [] \<rparr>"
  have d: "deliver sod (ch_set i ?ca ?a1) b = (?a2, ?b2)"
    by (rule t(3) [OF _ _ h]) (simp_all add: ch_set_def)
  show thesis
  proof (rule that [OF i d])
    show "event_list ?b2 = event_list b @ [EVENT_CHANNEL_DATA j d]"
      using p(4) room by (simp add: event_list_emit)
    have "linked paired ?a2 ?b2"
      using la t(2) by (simp add: linked_def ch_set_def out_pending_def)
    moreover have "chan_map ?a2 = (chan_map a)(k \<mapsto> ?ca)" "chan_table_inv ?a2"
      using ma chan_map_cong [of ?a2 "ch_set i ?ca ?a1"] chan_table_inv_cong [of ?a2 "ch_set i ?ca ?a1"] by simp_all
    moreover have "chan_map ?b2 = (chan_map b)(j \<mapsto> ?cb)" "chan_table_inv ?b2"
      using mb b1(1) chan_map_cong [of ?b2 "ch_set l ?cb ?b1"] chan_table_inv_cong [of ?b2 "ch_set l ?cb ?b1"]
      by simp_all
    moreover have "ring_wf ?b2" using p(4) by simp
    ultimately show "pipe paired k j ?ca ?cb ?a2 ?b2" using p(6-8,10) by (simp add: pipe_def)
  qed (simp_all add: ch_set_def)
qed

section \<open>A sequence of chunks\<close>

text \<open>Send each chunk with a call of its own and hand over the output after each.\<close>

fun transfer ::
    "('ss, 'gh) sodium \<Rightarrow> u32 \<Rightarrow> bytes list \<Rightarrow> 'ss sodchan_ctx \<Rightarrow> 'ss sodchan_ctx
       \<Rightarrow> rc \<times> 'ss sodchan_ctx \<times> 'ss sodchan_ctx" where
  "transfer sod k [] a b = (SODCHAN_OK, a, b)"
| "transfer sod k (d # ds) a b =
     (case sodchan_channel_send sod True k (Some d) a of (rc, a) \<Rightarrow>
      if rc \<noteq> SODCHAN_OK then (rc, a, b)
      else case deliver sod a b of (a, b) \<Rightarrow> transfer sod k ds a b)"

lemma chunk_ok_cong:
  "ctx_max_record_size a' = ctx_max_record_size a \<Longrightarrow> ctx_max_record_size b' = ctx_max_record_size b \<Longrightarrow>
   ch_max_packet ca' = ch_max_packet ca \<Longrightarrow> chunk_ok ca' a' b' d = chunk_ok ca a b d"
  by (simp add: chunk_ok_def admits_def)

lemma chunks_delivered:
  assumes "pipe paired k j ca cb a b" and "stream_law sod paired" and "\<forall>d \<in> set ds. chunk_ok ca a b d"
    and "sum_list (map length ds) \<le> unat (ch_send_window ca)"
    and "sum_list (map length ds) \<le> unat (ch_recv_window cb)"
    and "ctx_event_count b + length ds \<le> ctx_event_cap b"
  shows "\<exists>a' b' ca' cb'. transfer sod k ds a b = (SODCHAN_OK, a', b')
    \<and> event_list b' = event_list b @ map (EVENT_CHANNEL_DATA j) ds
    \<and> pipe paired k j ca' cb' a' b'
    \<and> unat (ch_send_window ca') = unat (ch_send_window ca) - sum_list (map length ds)
    \<and> unat (ch_recv_window cb') = unat (ch_recv_window cb) - sum_list (map length ds)"
  using assms
proof (induction ds arbitrary: a b ca cb)
  case Nil
  then show ?case by auto
next
  case (Cons d ds)
  let ?ca = "ca\<lparr> ch_send_window := ch_send_window ca - of_nat (length d) \<rparr>"
  let ?cb = "cb\<lparr> ch_recv_window := ch_recv_window cb - of_nat (length d) \<rparr>"
  have h: "chunk_ok ca a b d" "length d \<le> unat (ch_send_window ca)" "length d \<le> unat (ch_recv_window cb)"
    "ctx_event_count b < ctx_event_cap b" using Cons.prems(3-6) by simp_all
  obtain a1 a2 b2 where s: "sodchan_channel_send sod True k (Some d) a = (SODCHAN_OK, a1)"
    "deliver sod a1 b = (a2, b2)" "pipe paired k j ?ca ?cb a2 b2"
    "event_list b2 = event_list b @ [EVENT_CHANNEL_DATA j d]" "ctx_event_cap b2 = ctx_event_cap b"
    "ctx_max_record_size a2 = ctx_max_record_size a" "ctx_max_record_size b2 = ctx_max_record_size b"
    by (rule chunk_delivered [OF Cons.prems(1,2) h])
  note w = u32_sub_exact [OF h(2)] u32_sub_exact [OF h(3)]
  have "ctx_event_count b2 = ctx_event_count b + 1" using arg_cong [OF s(4), of length] by simp
  moreover have "\<forall>d \<in> set ds. chunk_ok ?ca a2 b2 d"
    using Cons.prems(3) chunk_ok_cong [OF s(6,7), of ?ca ca] by simp
  ultimately have "\<exists>a' b' ca' cb'. transfer sod k ds a2 b2 = (SODCHAN_OK, a', b')
    \<and> event_list b' = event_list b2 @ map (EVENT_CHANNEL_DATA j) ds
    \<and> pipe paired k j ca' cb' a' b'
    \<and> unat (ch_send_window ca') = unat (ch_send_window ?ca) - sum_list (map length ds)
    \<and> unat (ch_recv_window cb') = unat (ch_recv_window ?cb) - sum_list (map length ds)"
    using Cons.prems(4-6) w s(5) by (intro Cons.IH [OF s(3) Cons.prems(2)]) simp_all
  then obtain a' b' ca' cb' where "transfer sod k ds a2 b2 = (SODCHAN_OK, a', b')"
    "event_list b' = event_list b2 @ map (EVENT_CHANNEL_DATA j) ds" "pipe paired k j ca' cb' a' b'"
    "unat (ch_send_window ca') = unat (ch_send_window ?ca) - sum_list (map length ds)"
    "unat (ch_recv_window cb') = unat (ch_recv_window ?cb) - sum_list (map length ds)" by blast
  with s(1,2,4) w show ?case
    by (intro exI [of _ a'] exI [of _ b'] exI [of _ ca'] exI [of _ cb']) simp
qed

text \<open>
  C9. Data arrives. Over an open channel of an established session, a host that
  sends chunks within the window, the packet size and the record size succeeds with
  every call, and after the output has been handed over the other host has exactly
  these chunks, in order, as its new events; both windows shrink by what was sent.
\<close>

theorem data_delivered:
  assumes "pipe paired k j ca cb a b" and "stream_law sod paired" and "\<forall>d \<in> set ds. chunk_ok ca a b d"
    and "sum_list (map length ds) \<le> unat (ch_send_window ca)"
    and "sum_list (map length ds) \<le> unat (ch_recv_window cb)"
    and "ctx_event_count b + length ds \<le> ctx_event_cap b"
  shows "\<exists>a' b' ca' cb'. transfer sod k ds a b = (SODCHAN_OK, a', b')
    \<and> event_list b' = event_list b @ map (EVENT_CHANNEL_DATA j) ds
    \<and> pipe paired k j ca' cb' a' b'
    \<and> unat (ch_send_window ca') = unat (ch_send_window ca) - sum_list (map length ds)
    \<and> unat (ch_recv_window cb') = unat (ch_recv_window cb) - sum_list (map length ds)"
  by (rule chunks_delivered [OF assms])

theorem data_delivered_witness:
  "\<exists>a b a' b'. transfer sample_sodium 0 [[7], [8, 9]] a b = (SODCHAN_OK, a', b')
     \<and> event_list b' = [EVENT_CHANNEL_DATA 0 [7], EVENT_CHANNEL_DATA 0 [8, 9]]"
proof -
  let ?e = "open_end\<lparr> ctx_hs := HS_DONE, ctx_ss_pull_ready := True \<rparr>"
  let ?c = "zero_channel\<lparr> ch_state := CH_OPEN, ch_have_peer_id := True, ch_name := [97],
       ch_send_window := 100, ch_recv_window := 100, ch_max_packet := 50 \<rparr>"
  have e: "chan_map ?e 0 = Some ?c" "chan_table_inv ?e"
    using open_end_channel(1,2) chan_map_cong [of ?e open_end] chan_table_inv_cong [of ?e open_end] by simp_all
  have f: "ctx_event_count ?e = 0" "ctx_event_cap ?e = 4" "ring_wf ?e" "event_list ?e = []"
    "ctx_in_buf ?e = []" "ctx_max_record_size ?e = 2000" "ctx_ss_push ?e = ctx_ss_pull ?e"
    by (simp_all add: open_end_def idle_end_def ring_wf_def event_list_def zero_ctx_def)
  have "linked (=) ?e ?e" using open_end_channel(3,5,6) f by (simp add: linked_def)
  then have p: "pipe (=) 0 0 ?c ?c ?e ?e" using e f(3) by (simp add: pipe_def zero_channel_def)
  have "\<forall>d \<in> set [[7], [8, 9]]. chunk_ok ?c ?e ?e d"
    using f(6) by (simp add: chunk_ok_def admits_def SODCHAN_DATA_MAX_def)
  from data_delivered [OF p sample_stream_law this] f(1,2,4) show ?thesis by fastforce
qed

section \<open>Saying goodbye\<close>

lemma disconnect_handled:
  assumes "m = take 64 (cstr msg)" and "- (2 ^ 31) \<le> reason" "reason < 2 ^ 31"
  shows "handle_mux_pdu sod (mux_encode (Disconnect (of_int reason) m)) b
    = (0, (emit (EVENT_DISCONNECTED reason m) b)\<lparr> ctx_state := STATE_CLOSED \<rparr>)"
proof -
  have len: "length m \<le> 64" using assms(1) by simp
  have nul: "0 \<notin> set m" using cstr_no_nul [of msg] by (auto simp: assms(1) dest: in_set_takeD)
  have dec: "sodchan_wire_disconnect_decode (Some (disconnect_enc (of_int reason, m))) 128
      = Inr (of_int reason, m @ [0], length m)"
    using disconnect_decode_enc [of m "of_int reason"] len by (simp add: copy_cstr_fits)
  have "sint (of_int reason :: u32) = reason"
    using assms(2,3) by (simp add: sint_sbintrunc' signed_take_bit_int_eq_self)
  moreover have "snprintf_s SODCHAN_ERROR_MAX (m @ [0]) = m"
    using len nul by (simp add: snprintf_s_def SODCHAN_ERROR_MAX_def cstr_append_nul)
  moreover have "mux_encode (Disconnect (of_int reason) m) ! 0 = SODCHAN_PDU_DISCONNECT"
    using mux_encode_nth [of "Disconnect (of_int reason) m"] len by simp
  ultimately show ?thesis
    using dec by (simp add: handle_mux_pdu_def handle_disconnect_def mux_type_defs)
qed

text \<open>
  C21. A goodbye is understood. When one end of an established session disconnects,
  it drains, and after its output has been handed over the other end is closed and
  has one new event with the reason and the first 64 bytes of the message.
\<close>

theorem disconnect_arrives:
  assumes "linked paired a b" and "stream_law sod paired" and "admits 70 a" "admits 70 b"
    and "- (2 ^ 31) \<le> reason" "reason < 2 ^ 31" and "ring_wf b" "ctx_event_count b < ctx_event_cap b"
    and "sodchan_disconnect sod reason (Some msg) a = (r, a1)" and "deliver sod a1 b = (a2, b2)"
  shows "r = SODCHAN_OK \<and> ctx_state a2 = STATE_DRAINING \<and> ctx_state b2 = STATE_CLOSED
    \<and> event_list b2 = event_list b @ [EVENT_DISCONNECTED reason (take 64 (cstr msg))]
    \<and> out_pending a2 = []"
proof -
  let ?m = "take 64 (cstr msg)"
  let ?p = "mux_encode (Disconnect (of_int reason) ?m)"
  have p: "?p = [SODCHAN_PDU_DISCONNECT] @ sodchan_wire_put_u32 (of_int reason) @ [of_nat (length ?m)] @ ?m"
    by (simp add: disconnect_enc_def sodchan_wire_disconnect_encode_def min_def)
  have lp: "length ?p = 6 + length ?m" unfolding p by simp
  have sz: "?p \<noteq> []" "length ?p \<le> SODCHAN_DATA_MAX + 64" "admits (length ?p) a" "admits (length ?p) b"
    using lp assms(3,4) by (auto simp: admits_def SODCHAN_DATA_MAX_def)
  obtain st ct rst where t:
    "ss_send_pdu sod (Some ?p) a = (SODCHAN_OK, a\<lparr> ctx_ss_push := st, ctx_out_buf := on_wire ct, ctx_out_off := 0 \<rparr>)"
    "\<And>a' b'. ctx_out_off a' = 0 \<Longrightarrow> ctx_out_buf a' = on_wire ct \<Longrightarrow>
      handle_mux_pdu sod ?p (b\<lparr> ctx_in_buf := on_wire ct, ctx_ss_pull := rst \<rparr>) = (0, b') \<Longrightarrow>
      deliver sod a' b = (a'\<lparr> ctx_out_off := 0, ctx_out_buf := [] \<rparr>, b'\<lparr> ctx_in_buf := [] \<rparr>)"
    by (rule record_travels [OF assms(1,2) sz]) blast
  let ?a1 = "a\<lparr> ctx_ss_push := st, ctx_out_buf := on_wire ct, ctx_out_off := 0, ctx_state := STATE_DRAINING \<rparr>"
  let ?b1 = "b\<lparr> ctx_in_buf := on_wire ct, ctx_ss_pull := rst \<rparr>"
  have cut: "take (if 64 < length (cstr msg) then 64 else length (cstr msg)) (cstr msg) = ?m" by simp
  have enc: "sodchan_wire_disconnect_encode (of_int reason) (Some ?m) (Some 128) = Inr ?p"
    unfolding p by (simp add: sodchan_wire_disconnect_encode_def min_def)
  have "sodchan_disconnect sod reason (Some msg) a = (SODCHAN_OK, ?a1)"
    using assms(1) t(1) by (simp add: sodchan_disconnect_def Let_def linked_def enc cut del: mux_encode.simps)
  then have a1: "r = SODCHAN_OK" "a1 = ?a1" using assms(9) by simp_all
  have "deliver sod ?a1 b = (?a1\<lparr> ctx_out_off := 0, ctx_out_buf := [] \<rparr>,
      (emit (EVENT_DISCONNECTED reason ?m) ?b1)\<lparr> ctx_state := STATE_CLOSED, ctx_in_buf := [] \<rparr>)"
    using t(2) [OF _ _ disconnect_handled [OF refl assms(5,6)], of ?a1] by simp
  then have "a2 = ?a1\<lparr> ctx_out_off := 0, ctx_out_buf := [] \<rparr>"
    "b2 = (emit (EVENT_DISCONNECTED reason ?m) ?b1)\<lparr> ctx_state := STATE_CLOSED, ctx_in_buf := [] \<rparr>"
    using assms(10) a1(2) by simp_all
  moreover have "event_list (emit (EVENT_DISCONNECTED reason ?m) ?b1) = event_list b @ [EVENT_DISCONNECTED reason ?m]"
    using assms(7,8) by (subst event_list_emit) simp_all
  ultimately show ?thesis using a1(1) by (simp add: out_pending_def)
qed

theorem disconnect_arrives_witness:
  "\<exists>a1 a2 b2. sodchan_disconnect sample_sodium (-3) (Some [98, 121, 101])
       (open_end\<lparr> ctx_hs := HS_DONE, ctx_ss_pull_ready := True \<rparr>) = (SODCHAN_OK, a1)
     \<and> deliver sample_sodium a1 (open_end\<lparr> ctx_hs := HS_DONE, ctx_ss_pull_ready := True \<rparr>) = (a2, b2)
     \<and> event_list b2 = [EVENT_DISCONNECTED (-3) [98, 121, 101]]"
proof -
  let ?e = "open_end\<lparr> ctx_hs := HS_DONE, ctx_ss_pull_ready := True \<rparr>"
  have f: "ctx_event_count ?e = 0" "ctx_event_cap ?e = 4" "ring_wf ?e" "event_list ?e = []"
    "ctx_in_buf ?e = []" "ctx_max_record_size ?e = 2000" "ctx_ss_push ?e = ctx_ss_pull ?e"
    by (simp_all add: open_end_def idle_end_def ring_wf_def event_list_def zero_ctx_def)
  have l: "linked (=) ?e ?e" using open_end_channel(3,5,6) f by (simp add: linked_def)
  obtain r a1 where d: "sodchan_disconnect sample_sodium (-3) (Some [98, 121, 101]) ?e = (r, a1)"
    by (cases "sodchan_disconnect sample_sodium (-3) (Some [98, 121, 101]) ?e")
  obtain a2 b2 where e: "deliver sample_sodium a1 ?e = (a2, b2)" by (cases "deliver sample_sodium a1 ?e")
  have "admits 70 ?e" using f(6) by (simp add: admits_def)
  from disconnect_arrives [OF l sample_stream_law this this _ _ f(3) _ d e] f(1,2,4) d e show ?thesis
    by (auto simp: cstr_def)
qed

end
