(* ===== verification/Progress.thy ===== *)
theory Progress
  imports Security Input_Frame
begin

text \<open>
  The public state as a ladder: no call but \<^verbatim>\<open>sodchan_reset\<close> takes a session back to
  an earlier phase.
\<close>

section \<open>The order of the phases\<close>

text \<open>
  \<^verbatim>\<open>sodchan_disconnect\<close> closes a context that is in the error state, so the error
  state comes before \<open>STATE_CLOSED\<close>.
\<close>

primrec phase :: "sodchan_state \<Rightarrow> nat" where
  "phase STATE_IDLE = 0"
| "phase STATE_HELLO = 1"
| "phase STATE_SS_HEADER = 2"
| "phase STATE_AUTH = 3"
| "phase STATE_READY = 4"
| "phase STATE_DRAINING = 5"
| "phase STATE_ERROR = 6"
| "phase STATE_CLOSED = 7"

lemma phase_inject: "phase s = phase t \<longleftrightarrow> s = t"
  by (cases s; cases t) simp_all

instantiation sodchan_state :: linorder
begin

definition less_eq_sodchan_state :: "sodchan_state \<Rightarrow> sodchan_state \<Rightarrow> bool" where
  "less_eq_sodchan_state s t \<longleftrightarrow> phase s \<le> phase t"

definition less_sodchan_state :: "sodchan_state \<Rightarrow> sodchan_state \<Rightarrow> bool" where
  "less_sodchan_state s t \<longleftrightarrow> phase s < phase t"

instance
  by standard (auto simp: less_eq_sodchan_state_def less_sodchan_state_def phase_inject)

end

lemma le_error: "s \<noteq> STATE_CLOSED \<Longrightarrow> s \<le> STATE_ERROR"
  by (cases s) (simp_all add: less_eq_sodchan_state_def)

lemma le_closed: "s \<le> STATE_CLOSED"
  by (cases s) (simp_all add: less_eq_sodchan_state_def)

section \<open>One frame\<close>

lemma handle_auth_pdu_forward:
  assumes "ctx_state ctx = STATE_AUTH"
  shows "handle_auth_device_pdu sod p ctx = (r, c) \<Longrightarrow> STATE_AUTH \<le> ctx_state c"
    and "handle_auth_ok_pdu p ctx = (r, c) \<Longrightarrow> STATE_AUTH \<le> ctx_state c"
    and "handle_auth_fail_pdu p ctx = (r, c) \<Longrightarrow> STATE_AUTH \<le> ctx_state c"
proof -
  show "handle_auth_device_pdu sod p ctx = (r, c) \<Longrightarrow> STATE_AUTH \<le> ctx_state c"
    using handle_auth_device_pdu_state [of sod p ctx r c] assms by (auto simp: le_error)
  show "handle_auth_ok_pdu p ctx = (r, c) \<Longrightarrow> STATE_AUTH \<le> ctx_state c"
    using handle_auth_error(2) [of p ctx r c] handle_auth_ok_pdu_ok [of p ctx c]
    by (cases "r = 0") (auto simp: less_eq_sodchan_state_def)
  show "handle_auth_fail_pdu p ctx = (r, c) \<Longrightarrow> STATE_AUTH \<le> ctx_state c"
    using handle_auth_error(3) [of p ctx r c] by (auto simp: le_error)
qed

lemma handle_mux_pdu_forward:
  assumes "handle_mux_pdu sod p ctx = (r, c)" and "ctx_state ctx \<noteq> STATE_CLOSED"
  shows "ctx_state ctx \<le> ctx_state c"
  using mux_step_state [of sod ctx r c] handle_mux_pdu_step [of sod ctx p] assms
  by (auto simp: le_error le_closed)

lemma handle_encrypted_pdu_forward:
  assumes "handle_encrypted_pdu sod ct ctx = (r, c)" and "ctx_state ctx \<noteq> STATE_CLOSED"
  shows "ctx_state ctx \<le> ctx_state c"
proof -
  have mux: "ctx_state ctx \<le> ctx_state d" if "handle_mux_pdu sod p (ctx\<lparr> ctx_ss_pull := st \<rparr>) = (x, d)" for p st x d
    using handle_mux_pdu_forward [OF that] assms(2) by simp
  have auth: "ctx_state ctx = STATE_AUTH \<Longrightarrow> handle_auth_device_pdu sod p (ctx\<lparr> ctx_ss_pull := st \<rparr>) = (x, d) \<Longrightarrow> STATE_AUTH \<le> ctx_state d"
    "ctx_state ctx = STATE_AUTH \<Longrightarrow> handle_auth_ok_pdu p (ctx\<lparr> ctx_ss_pull := st \<rparr>) = (x, d) \<Longrightarrow> STATE_AUTH \<le> ctx_state d"
    "ctx_state ctx = STATE_AUTH \<Longrightarrow> handle_auth_fail_pdu p (ctx\<lparr> ctx_ss_pull := st \<rparr>) = (x, d) \<Longrightarrow> STATE_AUTH \<le> ctx_state d"
    for p st x d
    using handle_auth_pdu_forward [of "ctx\<lparr> ctx_ss_pull := st \<rparr>"] by simp_all
  from assms show ?thesis
    unfolding handle_encrypted_pdu_def Let_def
    by (auto split: if_splits option.splits sum.splits prod.splits simp: le_error le_closed
        dest: mux auth)
qed

lemma dispatch_frame_forward:
  assumes "dispatch_frame sod b ctx = (r, c)" and "live_ok sod ctx"
    and "ctx_state ctx \<noteq> STATE_ERROR" "ctx_state ctx \<noteq> STATE_CLOSED"
  shows "ctx_state ctx \<le> ctx_state c"
proof (cases "ctx_state ctx = STATE_HELLO \<or> ctx_state ctx = STATE_SS_HEADER")
  case True
  then show ?thesis
    using assms(1,2) handle_peer_hello_state [of sod b ctx r c] handle_peer_ss_header_state [of sod b ctx r c]
    by (auto simp: dispatch_frame_def live_ok_def less_eq_sodchan_state_def)
next
  case False
  with assms(2-4) have "ctx_hs ctx = HS_DONE" by (cases "ctx_state ctx") (simp_all add: live_ok_def)
  with assms(1) have "handle_encrypted_pdu sod b ctx = (r, c)" by (simp add: dispatch_frame_def)
  then show ?thesis by (rule handle_encrypted_pdu_forward [OF _ assms(4)])
qed

section \<open>One call\<close>

text \<open>
  Along the input loop the invariant is kept up to the contents of the input
  buffer, which no handler reads.
\<close>

lemma feed_forward:
  assumes "ctx_inv sod ctx" and "push_len_law sod"
  shows "ctx_state ctx \<le> ctx_state (snd (sodchan_feed_input sod d ctx))"
proof -
  let ?P = "\<lambda>c. ctx_inv sod (with_in [] c) \<and> ctx_state ctx \<le> ctx_state c"
  have "?P (snd (sodchan_feed_input sod d ctx))"
  proof (rule feed_input_preserves [where P = ?P])
    fix b c1 r c
    assume P: "?P c1" and live: "ctx_state c1 \<noteq> STATE_ERROR" "ctx_state c1 \<noteq> STATE_CLOSED"
      and disp: "dispatch_frame sod b c1 = (r, c)"
    have w: "dispatch_frame sod b (with_in [] c1) = (r, with_in [] c)" using disp by simp
    have "ctx_inv sod (with_in [] c)"
      using dispatch_frame_inv [OF w assms(2)] P live by simp
    moreover have "ctx_state c1 \<le> ctx_state c"
      using dispatch_frame_forward [OF w] P live by (simp add: ctx_inv_def)
    ultimately show "?P c" using P by (blast intro: order_trans)
  next
    fix c :: "'a sodchan_ctx" and e
    assume "?P c"
    then show "?P (c\<lparr> ctx_in_buf := e \<rparr>)" by (simp add: with_in_def)
  next
    fix c :: "'a sodchan_ctx"
    let ?e = "sodchan_i_set_error SODCHAN_ERR_PROTOCOL ''frame parse error''"
    assume P: "?P c" and live: "ctx_state c \<noteq> STATE_ERROR" "ctx_state c \<noteq> STATE_CLOSED"
    from P have "base_inv (?e (with_in [] c))"
      using base_inv_keeps [of sod "with_in [] c", OF _ assms(2)] by (simp add: ctx_inv_def del: with_in_set_error)
    then have "ctx_inv sod (with_in [] (?e c))" by (simp add: ctx_inv_def)
    moreover have "ctx_state ctx \<noteq> STATE_CLOSED"
      using P live by (cases "ctx_state c") (auto simp: less_eq_sodchan_state_def)
    ultimately show "?P (?e c)" by (simp add: le_error)
  next
    show "?P ctx"
      using assms(1) base_inv_in_buf [of ctx "[]"] by (simp add: ctx_inv_def with_in_def)
  qed
  then show ?thesis by simp
qed

lemma decide_forward: "ctx_state ctx \<le> ctx_state (snd (sodchan_auth_decide_ex sod acc cl ctx))"
  by (auto simp: sodchan_auth_decide_ex_def Let_def less_eq_sodchan_state_def emit_authenticated_def
      split: option.split prod.split)

lemma disconnect_forward: "ctx_state ctx \<le> ctx_state (snd (sodchan_disconnect sod r m ctx))"
  by (cases "ctx_state ctx") (simp_all add: sodchan_disconnect_def Let_def less_eq_sodchan_state_def)

lemma exec_forward:
  assumes "ctx_inv sod ctx" and "push_len_law sod" and "call \<noteq> Reset"
  shows "ctx_state ctx \<le> ctx_state (exec sod call ctx)"
proof (cases call)
  case (Feed_Input d)
  then show ?thesis using feed_forward [OF assms(1,2)] by simp
qed (use assms(3) decide_forward disconnect_forward in \<open>simp_all add:
    api_step_state [OF channel_open_step] api_step_state [OF channel_accept_step]
    api_step_state [OF channel_send_step] api_step_state [OF channel_eof_step]
    api_step_state [OF channel_close_step] api_step_state [OF channel_window_adjust_step]\<close>)

lemma calls_forward:
  assumes "push_len_law sod" and "kx_keypair_law sod"
  shows "ctx_inv sod ctx \<Longrightarrow> Reset \<notin> set calls \<Longrightarrow>
    ctx_state ctx \<le> ctx_state (foldl (\<lambda>c call. exec sod call c) ctx calls)"
proof (induction calls arbitrary: ctx)
  case (Cons call calls)
  then have "call \<noteq> Reset" by auto
  then have "ctx_state ctx \<le> ctx_state (exec sod call ctx)" by (rule exec_forward [OF Cons.prems(1) assms(1)])
  also have "\<dots> \<le> ctx_state (foldl (\<lambda>c call. exec sod call c) (exec sod call ctx) calls)"
    using Cons.prems by (intro Cons.IH exec_inv assms) simp_all
  finally show ?case by simp
qed simp

text \<open>
  C5. The session only moves forward: from any reachable context, no sequence of
  calls without a reset, whatever the peer sends, leads to an earlier phase in the
  order HELLO, \<^verbatim>\<open>SS_HEADER\<close>, AUTH, READY, DRAINING, ERROR, CLOSED.
\<close>

theorem session_moves_forward:
  assumes "reachable sod cfg ctx" and "config_ok cfg" and "push_len_law sod" and "kx_keypair_law sod"
    and "Reset \<notin> set calls"
  shows "ctx_state ctx \<le> ctx_state (foldl (\<lambda>c call. exec sod call c) ctx calls)"
  by (rule calls_forward [OF assms(3,4) reachable_inv [OF assms(1-4)] assms(5)])

theorem session_moves_forward_witness:
  "\<exists>ctx. reachable sample_sodium (Some sample_server) ctx
     \<and> STATE_READY \<le> ctx_state (exec sample_sodium (Disconnect_Call 1 None)
          (exec sample_sodium (Feed_Input (Some [0, 0, 0, 0])) ctx))"
proof -
  obtain c s where r: "reachable sample_sodium (Some sample_server) s"
    and u: "session_up (=) (replicate 32 3) (replicate 32 2) c s" by (rule sample_session)
  have "ctx_state s = STATE_READY" using u by (simp add: session_up_def)
  with session_moves_forward [OF r sample_config_ok(2) sample_push_len_law sample_kx_keypair_law,
      of "[Feed_Input (Some [0, 0, 0, 0]), Disconnect_Call 1 None]"] r
  show ?thesis by auto
qed

end
