(* ===== verification/Shapes.thy ===== *)
theory Shapes
  imports Security
begin

text \<open>
  The sizes that C declares and the model's lists do not: the arrays of the context
  keep their length, and what is written into a queued event fits the members of
  \<^verbatim>\<open>sodchan_event_t\<close>, with the terminating NUL of each text.
\<close>

section \<open>Shapes\<close>

primrec event_fits :: "sodchan_event \<Rightarrow> bool" where
  "event_fits EVENT_NONE = True"
| "event_fits (EVENT_HELLO_RECEIVED pk) = (length pk = 32)"
| "event_fits EVENT_KX_COMPLETE = True"
| "event_fits (EVENT_AUTH_DEVICE pk user dev fp ok) =
     (length pk = 32 \<and> length user < SODCHAN_USER_MAX + 1 \<and> length dev < SODCHAN_DEVICE_ID_MAX + 1
      \<and> length fp < SODCHAN_FP_SHA256_MAX)"
| "event_fits EVENT_AUTHENTICATED = True"
| "event_fits (EVENT_AUTH_FAILED r m) = (length m < SODCHAN_ERROR_MAX)"
| "event_fits (EVENT_CHANNEL_OPEN k p nm w x) = (length nm < SODCHAN_CHANNEL_NAME_MAX + 1)"
| "event_fits (EVENT_CHANNEL_OPENED k p nm w x) = (length nm < SODCHAN_CHANNEL_NAME_MAX + 1)"
| "event_fits (EVENT_CHANNEL_OPEN_FAIL k nm) = (length nm < SODCHAN_CHANNEL_NAME_MAX + 1)"
| "event_fits (EVENT_CHANNEL_DATA k d) = (length d \<le> SODCHAN_DATA_MAX)"
| "event_fits (EVENT_CHANNEL_WINDOW k n w) = True"
| "event_fits (EVENT_CHANNEL_EOF k) = True"
| "event_fits (EVENT_CHANNEL_CLOSE k) = True"
| "event_fits EVENT_PING = True"
| "event_fits (EVENT_DISCONNECTED r m) = (length m < SODCHAN_ERROR_MAX)"
| "event_fits (EVENT_ERROR c m) = (length m < SODCHAN_ERROR_MAX)"

definition shaped :: "'ss sodchan_ctx \<Rightarrow> bool" where
  "shaped ctx \<longleftrightarrow>
     length (ctx_client_id_pk ctx) = 32 \<and> length (ctx_client_id_sk ctx) = 64
     \<and> length (ctx_server_id_pk ctx) = 32 \<and> length (ctx_server_id_sk ctx) = 64
     \<and> length (ctx_eph_pk ctx) = 32 \<and> length (ctx_eph_sk ctx) = 32
     \<and> length (ctx_peer_eph_pk ctx) = 32 \<and> length (ctx_peer_id_pk ctx) = 32
     \<and> length (ctx_ss_key_c2s ctx) = 32 \<and> length (ctx_ss_key_s2c ctx) = 32
     \<and> length (ctx_t_hello ctx) = SODCHAN_T_HELLO_LEN
     \<and> length (ctx_error_msg ctx) < SODCHAN_ERROR_MAX \<and> list_all event_fits (ctx_events ctx)"

lemma shaped_upd [simp]:
  "shaped (ctx_role_update f_role ctx) = shaped ctx"
  "shaped (ctx_state_update f_state ctx) = shaped ctx"
  "shaped (ctx_hs_update f_hs ctx) = shaped ctx"
  "shaped (ctx_error_update f_error ctx) = shaped ctx"
  "shaped (ctx_event_queue_size_update f_event_queue_size ctx) = shaped ctx"
  "shaped (ctx_max_record_size_update f_max_record_size ctx) = shaped ctx"
  "shaped (ctx_max_channel_data_update f_max_channel_data ctx) = shaped ctx"
  "shaped (ctx_max_channels_update f_max_channels ctx) = shaped ctx"
  "shaped (ctx_initial_window_update f_initial_window ctx) = shaped ctx"
  "shaped (ctx_max_packet_update f_max_packet ctx) = shaped ctx"
  "shaped (ctx_accept_any_server_pk_update f_accept_any_server_pk ctx) = shaped ctx"
  "shaped (ctx_lab_mode_update f_lab_mode ctx) = shaped ctx"
  "shaped (ctx_have_client_id_pk_update f_have_client_id_pk ctx) = shaped ctx"
  "shaped (ctx_have_client_id_sk_update f_have_client_id_sk ctx) = shaped ctx"
  "shaped (ctx_have_server_id_pk_update f_have_server_id_pk ctx) = shaped ctx"
  "shaped (ctx_have_server_id_sk_update f_have_server_id_sk ctx) = shaped ctx"
  "shaped (ctx_have_peer_eph_update f_have_peer_eph ctx) = shaped ctx"
  "shaped (ctx_have_peer_id_update f_have_peer_id ctx) = shaped ctx"
  "shaped (ctx_ss_push_update f_ss_push ctx) = shaped ctx"
  "shaped (ctx_ss_pull_update f_ss_pull ctx) = shaped ctx"
  "shaped (ctx_ss_push_ready_update f_ss_push_ready ctx) = shaped ctx"
  "shaped (ctx_ss_pull_ready_update f_ss_pull_ready ctx) = shaped ctx"
  "shaped (ctx_have_t_hello_update f_have_t_hello ctx) = shaped ctx"
  "shaped (ctx_auth_sent_update f_auth_sent ctx) = shaped ctx"
  "shaped (ctx_auth_awaiting_decide_update f_auth_awaiting_decide ctx) = shaped ctx"
  "shaped (ctx_auth_decided_update f_auth_decided ctx) = shaped ctx"
  "shaped (ctx_auth_complete_update f_auth_complete ctx) = shaped ctx"
  "shaped (ctx_channels_update f_channels ctx) = shaped ctx"
  "shaped (ctx_next_local_channel_id_update f_next_local_channel_id ctx) = shaped ctx"
  "shaped (ctx_active_channels_update f_active_channels ctx) = shaped ctx"
  "shaped (ctx_cfg_store_used_update f_cfg_store_used ctx) = shaped ctx"
  "shaped (ctx_allowed_channels_update f_allowed_channels ctx) = shaped ctx"
  "shaped (ctx_client_username_update f_client_username ctx) = shaped ctx"
  "shaped (ctx_client_device_id_update f_client_device_id ctx) = shaped ctx"
  "shaped (ctx_out_buf_update f_out_buf ctx) = shaped ctx"
  "shaped (ctx_out_off_update f_out_off ctx) = shaped ctx"
  "shaped (ctx_in_buf_update f_in_buf ctx) = shaped ctx"
  "shaped (ctx_event_cap_update f_event_cap ctx) = shaped ctx"
  "shaped (ctx_event_head_update f_event_head ctx) = shaped ctx"
  "shaped (ctx_event_count_update f_event_count ctx) = shaped ctx"
  "shaped (ctx_draws_update f_draws ctx) = shaped ctx"
  by (simp_all add: shaped_def)

lemma shaped_keys [simp]:
  "shaped ctx \<Longrightarrow> length b = 32 \<Longrightarrow> shaped (ctx\<lparr> ctx_peer_eph_pk := b \<rparr>)"
  "shaped ctx \<Longrightarrow> length b = 32 \<Longrightarrow> shaped (ctx\<lparr> ctx_peer_id_pk := b \<rparr>)"
  "shaped ctx \<Longrightarrow> length b = 32 \<Longrightarrow> shaped (ctx\<lparr> ctx_server_id_pk := b \<rparr>)"
  "shaped ctx \<Longrightarrow> length b = SODCHAN_T_HELLO_LEN \<Longrightarrow> shaped (ctx\<lparr> ctx_t_hello := b \<rparr>)"
  by (simp_all add: shaped_def)

text \<open>The lengths that libsodium documents for what it writes into these arrays.\<close>

definition size_law :: "('ss, 'gh) sodium \<Rightarrow> bool" where
  "size_law sod \<longleftrightarrow>
     (\<forall>i pk sk. crypto_kx_keypair sod i = Some (pk, sk) \<longrightarrow> length pk = 32 \<and> length sk = 32)
     \<and> (\<forall>st n h. crypto_generichash_final sod st n = Some h \<longrightarrow> length h = n)
     \<and> (\<forall>b. length (sodium_memzero sod b) = length b)"

section \<open>The shared operations\<close>

lemma shaped_emit: "shaped ctx \<Longrightarrow> event_fits ev \<Longrightarrow> shaped (emit ev ctx)"
  by (auto simp: shaped_def emit_def sodchan_i_queue_event_def Let_def list_all_iff
      dest!: set_update_subset_insert [THEN subsetD])

lemma shaped_set_error [simp]: "shaped ctx \<Longrightarrow> shaped (sodchan_i_set_error code msg ctx)"
  unfolding sodchan_i_set_error_def Let_def
  by (rule shaped_emit) (auto simp: shaped_def SODCHAN_ERROR_MAX_def)

lemma shaped_compact [simp]: "shaped (out_compact ctx) = shaped ctx"
  by (simp add: out_compact_def)

lemma shaped_append [simp]: "shaped (snd (out_append_frame b ctx)) = shaped ctx"
  by (simp add: out_append_frame_def out_append_def Let_def split: sum.split)

lemma shaped_send [simp]: "shaped (snd (ss_send_pdu sod pl ctx)) = shaped ctx"
  by (simp add: ss_send_pdu_def Let_def split: option.split)

lemma shaped_pairs:
  "ss_send_pdu sod pl ctx = (r, c) \<Longrightarrow> shaped ctx \<Longrightarrow> shaped c"
  "out_append_frame b ctx = (r, c) \<Longrightarrow> shaped ctx \<Longrightarrow> shaped c"
  using shaped_send [of sod pl ctx] shaped_append [of b ctx] by simp_all

lemma shaped_table [simp]:
  "shaped (ch_set i c ctx) = shaped ctx" "shaped (ch_free i ctx) = shaped ctx"
  by (simp_all add: ch_set_def ch_free_def Let_def)

lemma shaped_alloc: "ch_alloc ctx = (r, c) \<Longrightarrow> shaped ctx \<Longrightarrow> shaped c"
  by (auto simp: ch_alloc_def Let_def split: if_splits option.splits)

lemma fits_name [simp]: "length (snprintf_s (Suc n) s) < Suc n" "length (snprintf_s (n + 1) s) < n + 1"
  using length_snprintf_s [of n s] by simp_all

section \<open>The channel layer\<close>

lemma handle_channel_open_shaped:
  assumes "handle_channel_open sod p ctx = (r, c)" and "shaped ctx"
  shows "shaped c"
proof -
  have "shaped d \<Longrightarrow> shaped (emit (EVENT_CHANNEL_OPEN k s (snprintf_s (SODCHAN_CHANNEL_NAME_MAX + 1) nm) w m) d)"
    for d :: "'a sodchan_ctx" and k s nm w m
    by (rule shaped_emit) simp_all
  with assms show ?thesis
    unfolding handle_channel_open_def Let_def
    by (auto split: sum.splits prod.splits option.splits if_splits dest: shaped_alloc)
qed

lemma mux_handlers_shaped:
  "handle_channel_open_confirm p ctx = (r, c) \<Longrightarrow> shaped ctx \<Longrightarrow> shaped c"
  "handle_channel_open_fail p ctx = (r, c) \<Longrightarrow> shaped ctx \<Longrightarrow> shaped c"
  "handle_channel_data p ctx = (r, c) \<Longrightarrow> shaped ctx \<Longrightarrow> shaped c"
  "handle_channel_window p ctx = (r, c) \<Longrightarrow> shaped ctx \<Longrightarrow> shaped c"
  "handle_channel_eof p ctx = (r, c) \<Longrightarrow> shaped ctx \<Longrightarrow> shaped c"
  "handle_channel_close p ctx = (r, c) \<Longrightarrow> shaped ctx \<Longrightarrow> shaped c"
  "handle_disconnect p ctx = (r, c) \<Longrightarrow> shaped ctx \<Longrightarrow> shaped c"
proof -
  have err: "length (snprintf_s SODCHAN_ERROR_MAX m) < SODCHAN_ERROR_MAX" for m
    using fits_name(1) [of 255 m] by (simp add: SODCHAN_ERROR_MAX_def)
  have emax: "0 < SODCHAN_ERROR_MAX" by (simp add: SODCHAN_ERROR_MAX_def)
  show "handle_disconnect p ctx = (r, c) \<Longrightarrow> shaped ctx \<Longrightarrow> shaped c"
    unfolding handle_disconnect_def Let_def
    by (auto split: sum.splits prod.splits intro!: shaped_emit simp: err emax)
qed (auto simp: handle_channel_open_confirm_def handle_channel_open_fail_def handle_channel_data_def
    handle_channel_window_def handle_channel_eof_def handle_channel_close_def Let_def not_less
    split: sum.splits prod.splits option.splits if_splits intro!: shaped_emit)

lemma handle_ping_shaped: "handle_ping sod p ctx = (r, c) \<Longrightarrow> shaped ctx \<Longrightarrow> shaped c"
  unfolding handle_ping_def Let_def
  by (auto split: sum.splits intro!: shaped_emit)

lemma handle_mux_pdu_shaped: "handle_mux_pdu sod p ctx = (r, c) \<Longrightarrow> shaped ctx \<Longrightarrow> shaped c"
  unfolding handle_mux_pdu_def Let_def
  by (auto split: if_splits dest: handle_channel_open_shaped mux_handlers_shaped handle_ping_shaped)

lemma channel_calls_shaped:
  "shaped ctx \<Longrightarrow> shaped (snd (snd (sodchan_channel_open sod nm ctx)))"
  "shaped ctx \<Longrightarrow> shaped (snd (sodchan_channel_accept sod k acc ctx))"
  "shaped ctx \<Longrightarrow> shaped (snd (sodchan_channel_send sod mem k d ctx))"
  "shaped ctx \<Longrightarrow> shaped (snd (sodchan_channel_eof sod k ctx))"
  "shaped ctx \<Longrightarrow> shaped (snd (sodchan_channel_close sod k ctx))"
  "shaped ctx \<Longrightarrow> shaped (snd (sodchan_channel_window_adjust sod k n ctx))"
proof -
  show "shaped ctx \<Longrightarrow> shaped (snd (snd (sodchan_channel_open sod nm ctx)))"
    by (auto simp: sodchan_channel_open_def Let_def split: option.split sum.split prod.split
        dest!: shaped_pairs dest: shaped_alloc)
  show "shaped ctx \<Longrightarrow> shaped (snd (sodchan_channel_accept sod k acc ctx))"
    by (auto simp: sodchan_channel_accept_def Let_def split: option.split sum.split prod.split
        dest!: shaped_pairs intro!: shaped_emit)
qed (auto simp: sodchan_channel_send_def sodchan_channel_eof_def sodchan_channel_close_def
    sodchan_channel_window_adjust_def Let_def split: option.split sum.split prod.split dest: shaped_pairs)

section \<open>Authentication\<close>

lemma auth_events_shaped [simp]:
  "shaped ctx \<Longrightarrow> shaped (emit_authenticated ctx)"
  "shaped ctx \<Longrightarrow> shaped (emit_auth_failed r m ctx)"
  "shaped ctx \<Longrightarrow> shaped (emit_kx_complete ctx)"
  "shaped ctx \<Longrightarrow> shaped (emit_hello_received ctx)"
proof -
  show "shaped ctx \<Longrightarrow> shaped (emit_hello_received ctx)"
    unfolding emit_hello_received_def by (rule shaped_emit) (simp_all add: shaped_def)
qed (simp_all add: emit_authenticated_def emit_auth_failed_def emit_kx_complete_def shaped_emit
    SODCHAN_ERROR_MAX_def)

lemma auth_sends_shaped [simp]:
  "shaped (snd (server_send_auth_fail sod ctx)) = shaped ctx"
  "shaped (snd (server_send_auth_ok sod cl ctx)) = shaped ctx"
  by (simp_all add: server_send_auth_fail_def server_send_auth_ok_def split: sum.split)

lemma auth_sends_shaped_pairs:
  "server_send_auth_fail sod ctx = (r, c) \<Longrightarrow> shaped ctx \<Longrightarrow> shaped c"
  "server_send_auth_ok sod cl ctx = (r, c) \<Longrightarrow> shaped ctx \<Longrightarrow> shaped c"
  using auth_sends_shaped(1) [of sod ctx] auth_sends_shaped(2) [of sod cl ctx] by simp_all

lemma length_cstr_nul: "length (cstr (s @ [0])) \<le> length s"
  by (induction s) (simp_all add: cstr_def)

lemma fingerprint_fits:
  "length (cstr (encoded (sodchan_pubkey_fingerprint_sha256 sod pk (Some SODCHAN_FP_SHA256_MAX)))) < SODCHAN_FP_SHA256_MAX"
proof (cases "sodchan_pubkey_fingerprint_sha256 sod pk (Some SODCHAN_FP_SHA256_MAX)")
  case (Inl e)
  then show ?thesis by (simp add: SODCHAN_FP_SHA256_MAX_def cstr_def)
next
  case (Inr bs)
  then obtain b where bs: "bs = (ascii ''SHA256:'' @ cstr b) @ [0]" and len: "8 + length (cstr b) \<le> SODCHAN_FP_SHA256_MAX"
    by (auto simp: sodchan_pubkey_fingerprint_sha256_def Let_def not_less c_strlen_def
        split: if_splits option.splits)
  have "length (cstr bs) \<le> length (ascii ''SHA256:'' @ cstr b)" unfolding bs by (rule length_cstr_nul)
  then show ?thesis using Inr len by simp
qed

lemma handle_auth_shaped:
  "handle_auth_ok_pdu p ctx = (r, c) \<Longrightarrow> shaped ctx \<Longrightarrow> shaped c"
  "handle_auth_fail_pdu p ctx = (r, c) \<Longrightarrow> shaped ctx \<Longrightarrow> shaped c"
  "client_send_auth_device sod ctx = (q, c) \<Longrightarrow> shaped ctx \<Longrightarrow> shaped c"
  by (auto simp: handle_auth_ok_pdu_def handle_auth_fail_pdu_def client_send_auth_device_def Let_def
      split: sum.splits option.splits prod.splits if_splits dest: shaped_pairs)

lemma decide_shaped: "shaped ctx \<Longrightarrow> shaped (snd (sodchan_auth_decide_ex sod acc cl ctx))"
  by (auto simp: sodchan_auth_decide_ex_def Let_def split: option.split prod.split
      dest: auth_sends_shaped_pairs)

lemma handle_auth_device_shaped:
  assumes "handle_auth_device_pdu sod p ctx = (r, c)" and "shaped ctx"
  shows "shaped c"
proof -
  have pk: "length pk = 32" if "sodchan_wire_auth_device_decode (Some p) n m = Inr (pk, sig, u, ul, d, dl)"
    for n m pk sig u ul d dl
    using that by (auto simp: sodchan_wire_auth_device_decode_def Let_def split: if_splits)
  have ok: "shaped (emit (EVENT_AUTH_DEVICE pk (snprintf_s (SODCHAN_USER_MAX + 1) u)
      (snprintf_s (SODCHAN_DEVICE_ID_MAX + 1) d)
      (cstr (encoded (sodchan_pubkey_fingerprint_sha256 sod pk (Some SODCHAN_FP_SHA256_MAX)))) True)
      (ctx\<lparr> ctx_peer_id_pk := pk, ctx_have_peer_id := True \<rparr>))"
    if "length pk = 32" for pk u d
    by (rule shaped_emit) (use assms(2) that fingerprint_fits in \<open>simp_all add: shaped_def\<close>)
  from assms show ?thesis
    unfolding handle_auth_device_pdu_def Let_def
    by (auto split: if_splits sum.splits prod.splits dest!: pk intro: ok [simplified])
qed

section \<open>The handshake\<close>

lemma key_derive_length:
  "size_law sod \<Longrightarrow> sodchan_crypto_ss_key_derive sod k l = Inr key \<Longrightarrow> length key = 32"
  by (auto simp: sodchan_crypto_ss_key_derive_def size_law_def split: if_splits option.splits)

lemma derive_shaped:
  "derive_ss_keys_client sod ctx = (r, c) \<Longrightarrow> size_law sod \<Longrightarrow> shaped ctx \<Longrightarrow> shaped c"
  "derive_ss_keys_server sod ctx = (r, c) \<Longrightarrow> size_law sod \<Longrightarrow> shaped ctx \<Longrightarrow> shaped c"
  by (auto simp: derive_ss_keys_client_def derive_ss_keys_server_def Let_def shaped_def
      split: option.splits sum.splits prod.splits dest: key_derive_length)

lemma headers_shaped:
  "client_send_ss_header_c2s sod ctx = (r, c) \<Longrightarrow> shaped ctx \<Longrightarrow> shaped c"
  "server_send_ss_header_s2c sod ctx = (r, c) \<Longrightarrow> shaped ctx \<Longrightarrow> shaped c"
  by (auto simp: client_send_ss_header_c2s_def server_send_ss_header_s2c_def
      split: option.splits prod.splits dest: shaped_pairs)

lemma transcript_shaped:
  "sodchan_wire_build_t_hello v s a b k (Some n) = Inr t \<Longrightarrow> length a = 32 \<Longrightarrow> length b = 32 \<Longrightarrow>
   length k = 32 \<Longrightarrow> length t = SODCHAN_T_HELLO_LEN"
  by (auto simp: t_hello_Inr SODCHAN_T_HELLO_LEN_def)

lemma queue_local_hello_shaped:
  assumes "queue_local_hello sod ctx = (r, c)" and "shaped ctx"
  shows "shaped c"
proof -
  have "shaped (ctx\<lparr> ctx_t_hello := t, ctx_have_t_hello := True \<rparr>)"
    if "sodchan_wire_build_t_hello v s (ctx_peer_eph_pk ctx) (ctx_eph_pk ctx) (ctx_server_id_pk ctx) (Some n) = Inr t"
    for v s n t
    using transcript_shaped [OF that] assms(2) by (simp add: shaped_def)
  with assms show ?thesis
    unfolding queue_local_hello_def Let_def
    by (auto split: if_splits sum.splits option.splits dest: shaped_pairs)
qed

lemma hello_decode_arrays: "sodchan_wire_hello_decode b = Inr h \<Longrightarrow> length (h_eph_pk h) = 32 \<and> length (h_id_pk h) = 32"
  by (auto simp: sodchan_wire_hello_decode_def Let_def SODCHAN_HELLO_BODY_LEN_def
      split: option.splits if_splits)

lemma handle_client_hello_shaped:
  assumes "handle_client_hello sod h ctx = (r, c)" and "size_law sod" and "shaped ctx"
    and "length (h_eph_pk h) = 32" "length (h_id_pk h) = 32"
  shows "shaped c"
  using assms unfolding handle_client_hello_def Let_def
  by (auto split: if_splits prod.splits dest!: queue_local_hello_shaped derive_shaped)

lemma handle_server_hello_shaped:
  assumes "handle_server_hello sod h ctx = (r, c)" and "size_law sod" and "shaped ctx"
    and "length (h_eph_pk h) = 32" "length (h_id_pk h) = 32"
  shows "shaped c"
proof -
  have t: "length t = SODCHAN_T_HELLO_LEN"
    if "sodchan_wire_build_t_hello v s (ctx_eph_pk ctx) (h_eph_pk h) (h_id_pk h) (Some n) = Inr t" for v s n t
    using transcript_shaped [OF that] assms(3-5) by (simp add: shaped_def)
  from assms show ?thesis
    unfolding handle_server_hello_def Let_def
    by (auto split: if_splits prod.splits sum.splits dest!: t derive_shaped headers_shaped)
qed

lemma handle_peer_hello_shaped:
  "handle_peer_hello sod b ctx = (r, c) \<Longrightarrow> size_law sod \<Longrightarrow> shaped ctx \<Longrightarrow> shaped c"
  unfolding handle_peer_hello_def
  by (auto split: sum.splits if_splits dest!: hello_decode_arrays
      dest: handle_server_hello_shaped handle_client_hello_shaped)

lemma handle_peer_ss_header_shaped:
  "handle_peer_ss_header sod b ctx = (r, c) \<Longrightarrow> shaped ctx \<Longrightarrow> shaped c"
  unfolding handle_peer_ss_header_def
  by (auto split: option.splits if_splits prod.splits dest!: handle_auth_shaped(3) headers_shaped)

lemma handle_encrypted_pdu_shaped:
  assumes "handle_encrypted_pdu sod ct ctx = (r, c)" and "shaped ctx"
  shows "shaped c"
proof -
  have "shaped (emit (EVENT_DISCONNECTED 0 []) (ctx\<lparr> ctx_ss_pull := st \<rparr>))" for st
    by (rule shaped_emit) (use assms(2) in \<open>simp_all add: SODCHAN_ERROR_MAX_def\<close>)
  with assms show ?thesis
    unfolding handle_encrypted_pdu_def Let_def
    by (auto split: if_splits option.splits sum.splits prod.splits
        dest!: handle_auth_device_shaped handle_auth_shaped(1,2) handle_mux_pdu_shaped)
qed

lemma dispatch_frame_shaped:
  "dispatch_frame sod b ctx = (r, c) \<Longrightarrow> size_law sod \<Longrightarrow> shaped ctx \<Longrightarrow> shaped c"
  unfolding dispatch_frame_def
  by (auto split: if_splits dest: handle_peer_hello_shaped handle_peer_ss_header_shaped
      handle_encrypted_pdu_shaped)

section \<open>Every call\<close>

lemma handshake_start_shaped:
  assumes "handshake_start sod ctx = (r, c)" and "size_law sod" and "shaped ctx"
  shows "shaped c"
proof -
  have "shaped (ctx\<lparr> ctx_eph_pk := pk, ctx_eph_sk := sk, ctx_draws := n \<rparr>)"
    if "crypto_kx_keypair sod i = Some (pk, sk)" for i pk sk n
    using assms(2,3) that by (simp add: shaped_def size_law_def)
  with assms(1,3) show ?thesis
    unfolding handshake_start_def Let_def
    by (auto split: option.splits prod.splits if_splits dest!: queue_local_hello_shaped)
qed

lemma exec_shaped:
  assumes "size_law sod" and "shaped ctx"
  shows "shaped (exec sod call ctx)"
proof (cases call)
  case (Feed_Input d)
  have "shaped (snd (sodchan_feed_input sod d ctx))"
    by (rule feed_input_preserves [where P = shaped]) (use assms dispatch_frame_shaped in auto)
  with Feed_Input show ?thesis by simp
next
  case (Get_Output b)
  with assms show ?thesis by (simp add: sodchan_get_output_def Let_def split: option.split)
next
  case Next_Event
  with assms show ?thesis by (simp add: sodchan_next_event_def Let_def)
next
  case (Disconnect_Call r m)
  with assms show ?thesis by (simp add: sodchan_disconnect_def Let_def split: sum.split)
next
  case Reset
  have "\<exists>d. sodchan_reset sod ctx = snd (handshake_start sod d) \<and> shaped d"
    unfolding sodchan_reset_def Let_def
    by (rule exI, rule conjI [OF refl])
      (use assms in \<open>simp add: shaped_def size_law_def SODCHAN_ERROR_MAX_def list_all_iff\<close>)
  then show ?thesis using Reset handshake_start_shaped [OF _ assms(1)] by (metis exec.simps(12) prod.collapse)
qed (use assms(2) in \<open>simp_all add: channel_calls_shaped decide_shaped\<close>)

lemma copy_key_shaped:
  "(case src of None \<Rightarrow> True | Some k \<Rightarrow> length k = n) \<Longrightarrow> length (fst (copy_key src n)) = n"
  by (simp add: copy_key_def split: option.splits)

lemma create_shaped:
  assumes "sodchan_create sod lab m1 m2 z draws role cfg = Some ctx" and "config_ok cfg" and "size_law sod"
  shows "shaped ctx"
proof -
  from assms(1) obtain c0 where hs: "handshake_start sod c0 = (SODCHAN_OK, ctx)"
    and c0: "c0 = (let c = apply_config_defaults (case cfg of None \<Rightarrow> zero_config | Some x \<Rightarrow> x)
            ((zero_ctx z (if role = 0 then ROLE_SERVER else ROLE_CLIENT))\<lparr> ctx_draws := draws \<rparr>) in
          c\<lparr> ctx_event_cap := ctx_event_queue_size c, ctx_events := replicate (ctx_event_queue_size c) EVENT_NONE \<rparr>)"
    by (rule sodchan_create_Some)
  have len: "length (fst (copy_key k n)) = n" if "case k of None \<Rightarrow> True | Some b \<Rightarrow> length b = n" for k n
    using that by (rule copy_key_shaped)
  have "shaped c0"
    using assms(2) unfolding c0 Let_def apply_config_defaults_def
    by (auto simp: shaped_def case_prod_unfold config_ok_def zero_config_def len SODCHAN_ERROR_MAX_def
        SODCHAN_T_HELLO_LEN_def list_all_iff split: option.splits)
  then show ?thesis by (rule handshake_start_shaped [OF hs assms(3)])
qed

lemma reachable_shaped:
  assumes "reachable sod cfg ctx" and "config_ok cfg" and "size_law sod"
  shows "shaped ctx"
  using assms(1)
proof induction
  case (created lab m1 m2 z draws role ctx)
  then show ?case by (rule create_shaped [OF _ assms(2,3)])
next
  case (called ctx call)
  then show ?case by (intro exec_shaped assms(3))
qed

lemma queued_event_fits:
  assumes "ring_wf ctx" and "shaped ctx" and "ev \<in> set (event_list ctx)"
  shows "event_fits ev"
proof -
  have "ev \<in> set (ctx_events ctx)" using assms(1,3) by (auto simp: event_list_def ring_wf_def)
  with assms(2) show ?thesis by (simp add: shaped_def list_all_iff)
qed

lemma sample_size_law: "size_law sample_sodium"
  by (auto simp: size_law_def sample_sodium_def min_def)

section \<open>The property\<close>

text \<open>
  C6. Every array keeps the size that C declares. In every context that calls lead
  to, whatever the peer sends, the keys, the transcript, the error text, the slots of
  the channel table and the two byte buffers have their declared lengths or are within
  them, the ring indices are within the ring, and every event that waits for the host
  fits the members of the event structure, texts with their terminating NUL.
\<close>

theorem context_keeps_shape:
  assumes "reachable sod cfg ctx" and "config_ok cfg" and "size_law sod" and "push_len_law sod"
    and "kx_keypair_law sod"
  shows "shaped ctx \<and> (\<forall>ev \<in> set (event_list ctx). event_fits ev)
    \<and> length (ctx_events ctx) = ctx_event_cap ctx \<and> ctx_event_head ctx < ctx_event_cap ctx
    \<and> ctx_event_count ctx \<le> ctx_event_cap ctx
    \<and> length (ctx_channels ctx) = SODCHAN_MAX_CHANNELS
    \<and> (\<forall>c \<in> set (ctx_channels ctx). length (ch_name c) < SODCHAN_CHANNEL_NAME_MAX + 1)
    \<and> length (ctx_in_buf ctx) \<le> SODCHAN_IN_BUF_SIZE
    \<and> ctx_out_off ctx \<le> length (ctx_out_buf ctx) \<and> length (ctx_out_buf ctx) \<le> SODCHAN_OUT_BUF_SIZE"
proof -
  have b: "ring_wf ctx" "out_wf ctx" "table_wf ctx" "length (ctx_in_buf ctx) \<le> SODCHAN_IN_BUF_SIZE"
    using reachable_inv [OF assms(1,2,4,5)] by (simp_all add: ctx_inv_def base_inv_def)
  have s: "shaped ctx" by (rule reachable_shaped [OF assms(1-3)])
  have "\<forall>c \<in> set (ctx_channels ctx). length (ch_name c) < SODCHAN_CHANNEL_NAME_MAX + 1"
    using b(3) by (auto simp: table_wf_def slot_ok_def)
  with b s queued_event_fits [OF b(1) s] show ?thesis
    by (simp add: ring_wf_def out_wf_def table_wf_def)
qed

theorem context_keeps_shape_witness:
  "\<exists>ctx. reachable sample_sodium (Some sample_server) ctx \<and> length (ctx_t_hello ctx) = 123
     \<and> (\<forall>ev \<in> set (event_list ctx). event_fits ev)"
proof -
  obtain c s where r: "reachable sample_sodium (Some sample_server) s"
    by (rule sample_session)
  from context_keeps_shape [OF r sample_config_ok(2) sample_size_law sample_push_len_law sample_kx_keypair_law] r
  show ?thesis by (auto simp: shaped_def SODCHAN_T_HELLO_LEN_def)
qed

end
