(* ===== verification/Harness.thy ===== *)
theory Harness
  imports Input_Stream
begin

text \<open>
  The programs that the repository builds around the library: the fuzz target of
  \<^verbatim>\<open>fuzz/fuzz_sodchan.c\<close> with its standalone driver, and the two example programs.
  They are clients of the public functions only. The loops of the fuzz target are
  total functions; the measure of its event loop counts what an answer can queue.
\<close>

section \<open>The surroundings of a run\<close>

text \<open>
  What a run gets from outside: the compile-time switch \<^verbatim>\<open>SODCHAN_ALLOW_LAB_CLEARTEXT\<close>,
  the zeroed stream state, the number from which the random draws of a key generation
  (0, 1) or of a context (2, 3) count, and whether the allocation at a place of the run
  finds memory; distinct calls ask at distinct places.
\<close>

record 'ss surroundings =
  env_lab :: bool
  env_zero :: 'ss
  env_draw :: "nat \<Rightarrow> nat"
  env_calloc :: "nat \<Rightarrow> bool"
  env_malloc :: "nat \<Rightarrow> bool"

definition create_in ::
    "('ss, 'gh) sodium \<Rightarrow> 'ss surroundings \<Rightarrow> nat \<Rightarrow> sodchan_role \<Rightarrow> sodchan_config \<Rightarrow> 'ss sodchan_ctx option" where
  "create_in sod env k role cfg =
     sodchan_create sod (env_lab env) (env_calloc env (2 * k)) (env_calloc env (2 * k + 1)) (env_zero env)
       (env_draw env (k + 2)) (if role = ROLE_SERVER then 0 else 1) (Some cfg)"

section \<open>Draining a context\<close>

text \<open>The loop over \<^verbatim>\<open>sodchan_get_output\<close>, which throws the bytes away.\<close>

definition pending_len :: "'ss sodchan_ctx \<Rightarrow> nat" where
  "pending_len ctx = length (ctx_out_buf ctx) - ctx_out_off ctx"

lemma get_output_pending:
  "sodchan_get_output buf ctx = (out, c) \<Longrightarrow> out \<noteq> [] \<Longrightarrow> pending_len c < pending_len ctx"
  by (auto simp: sodchan_get_output_def pending_len_def Let_def split: option.splits if_splits)

function drain_output :: "'ss sodchan_ctx \<Rightarrow> 'ss sodchan_ctx" where
  "drain_output ctx =
     (case sodchan_get_output (Some 8192) ctx of
        (out, ctx') \<Rightarrow> if length out > 0 then drain_output ctx' else ctx')"
  by pat_completeness auto
termination
  by (relation "measure pending_len") (auto dest: get_output_pending [OF sym])

declare drain_output.simps [simp del]

text \<open>The answer of the fuzz target to an event.\<close>

definition answer_event :: "('ss, 'gh) sodium \<Rightarrow> sodchan_event \<Rightarrow> 'ss sodchan_ctx \<Rightarrow> 'ss sodchan_ctx" where
  "answer_event sod ev ctx =
     (case ev of
        EVENT_AUTH_DEVICE _ _ _ _ sig_ok \<Rightarrow> snd (sodchan_auth_decide sod sig_ok ctx)
      | EVENT_CHANNEL_OPEN channel_id _ _ _ _ \<Rightarrow> snd (sodchan_channel_accept sod channel_id True ctx)
      | _ \<Rightarrow> ctx)"

text \<open>
  An answer can queue events of its own, but only a decision that is due and a channel
  that waits do so, and both are used up.
\<close>

definition waiting_channels :: "'ss sodchan_ctx \<Rightarrow> nat" where
  "waiting_channels ctx = length (filter (\<lambda>c. ch_state c = CH_PENDING) (ctx_channels ctx))"

definition event_budget :: "'ss sodchan_ctx \<Rightarrow> nat" where
  "event_budget ctx = ctx_event_count ctx + 2 * waiting_channels ctx
     + (if ctx_auth_awaiting_decide ctx then 2 else 0)"

lemma emit_count_le: "ctx_event_count (emit ev ctx) \<le> ctx_event_count ctx + 1"
  by (simp add: emit_def sodchan_i_queue_event_def Let_def)

lemma set_error_count_le: "ctx_event_count (sodchan_i_set_error code msg ctx) \<le> ctx_event_count ctx + 1"
  unfolding sodchan_i_set_error_def Let_def by (rule order_trans [OF emit_count_le]) simp

lemma send_budget [simp]:
  "ctx_event_count (snd (ss_send_pdu sod pl ctx)) = ctx_event_count ctx"
  "ctx_channels (snd (ss_send_pdu sod pl ctx)) = ctx_channels ctx"
  "ctx_auth_awaiting_decide (snd (ss_send_pdu sod pl ctx)) = ctx_auth_awaiting_decide ctx"
  by (auto simp: ss_send_pdu_def Let_def out_compact_def split: option.splits)

lemma auth_sends_budget [simp]:
  "ctx_event_count (snd (server_send_auth_ok sod cl ctx)) = ctx_event_count ctx"
  "ctx_channels (snd (server_send_auth_ok sod cl ctx)) = ctx_channels ctx"
  "ctx_auth_awaiting_decide (snd (server_send_auth_ok sod cl ctx)) = ctx_auth_awaiting_decide ctx"
  "ctx_event_count (snd (server_send_auth_fail sod ctx)) = ctx_event_count ctx"
  "ctx_channels (snd (server_send_auth_fail sod ctx)) = ctx_channels ctx"
  "ctx_auth_awaiting_decide (snd (server_send_auth_fail sod ctx)) = ctx_auth_awaiting_decide ctx"
  by (simp_all add: server_send_auth_ok_def server_send_auth_fail_def split: sum.split)

lemma budget_emit: "event_budget ctx + 1 \<le> n \<Longrightarrow> event_budget (emit ev ctx) \<le> n"
  using emit_count_le [of ev ctx] by (simp add: event_budget_def waiting_channels_def)

lemma budget_set_error: "event_budget ctx + 1 \<le> n \<Longrightarrow> event_budget (sodchan_i_set_error code msg ctx) \<le> n"
  using set_error_count_le [of code msg ctx] by (simp add: event_budget_def waiting_channels_def)

lemma budget_auth_events:
  "event_budget ctx + 1 \<le> n \<Longrightarrow> event_budget (emit_auth_failed r m ctx) \<le> n"
  "event_budget ctx + 1 \<le> n \<Longrightarrow>
     event_budget (emit_authenticated (ctx\<lparr> ctx_auth_complete := True, ctx_state := STATE_READY \<rparr>)) \<le> n"
  unfolding emit_auth_failed_def emit_authenticated_def
  by (rule budget_emit, simp add: event_budget_def waiting_channels_def)+

lemma budget_sends:
  "event_budget (snd (server_send_auth_ok sod cl ctx)) = event_budget ctx"
  "event_budget (snd (server_send_auth_fail sod ctx)) = event_budget ctx"
  by (simp_all add: event_budget_def waiting_channels_def)

lemma decide_budget: "event_budget (snd (sodchan_auth_decide_ex sod a cl ctx)) \<le> event_budget ctx"
proof (cases "ctx_auth_awaiting_decide ctx")
  case False
  then show ?thesis by (simp add: sodchan_auth_decide_ex_def)
next
  case True
  define d where "d = ctx\<lparr> ctx_auth_awaiting_decide := False, ctx_auth_decided := True \<rparr>"
  from True have d: "event_budget ctx = event_budget d + 2"
    by (simp add: d_def event_budget_def waiting_channels_def)
  have sent: "server_send_auth_ok sod cl d = (r, c) \<Longrightarrow> event_budget c = event_budget d"
    "server_send_auth_fail sod d = (r, c) \<Longrightarrow> event_budget c = event_budget d" for cl r c
    using budget_sends [where ctx = d and sod = sod] by (metis snd_conv)+
  show ?thesis
    unfolding sodchan_auth_decide_ex_def d_def [symmetric] Let_def
    by (auto simp: d sent split: option.splits prod.splits intro!: budget_set_error budget_auth_events)
qed

lemma slot_change_waiting:
  assumes "i < length cs" and "ch_state (cs ! i) = CH_PENDING" and "ch_state c \<noteq> CH_PENDING"
  shows "length (filter (\<lambda>c. ch_state c = CH_PENDING) cs)
    = Suc (length (filter (\<lambda>c. ch_state c = CH_PENDING) (cs[i := c])))"
  using assms(1,2)
proof (induction cs arbitrary: i)
  case Nil
  then show ?case by simp
next
  case (Cons b cs)
  then show ?case using assms(3) by (cases i) auto
qed

lemma accept_budget: "event_budget (snd (sodchan_channel_accept sod k a ctx)) \<le> event_budget ctx"
proof (cases "ch_by_local k ctx")
  case None
  then show ?thesis by (simp add: sodchan_channel_accept_def)
next
  case (Some i)
  then have i: "i < length (ctx_channels ctx)"
    by (simp add: ch_by_local_def slot_index_Some)
  have set: "event_budget (ch_set i c d) + 1 \<le> event_budget ctx"
    if "ss_send_pdu sod pl ctx = (r, d)" "ch_state (ch_at i ctx) = CH_PENDING" "ch_state c \<noteq> CH_PENDING" for pl r c d
    using send_budget [of sod pl ctx] slot_change_waiting [OF i that(2,3)] that(1)
    by (simp add: event_budget_def waiting_channels_def ch_set_def)
  have freed: "event_budget (ch_free i d) \<le> event_budget ctx"
    if "ss_send_pdu sod pl ctx = (r, d)" "ch_state (ch_at i ctx) = CH_PENDING" for pl r d
  proof -
    have "event_budget (ch_free i d) = event_budget (ch_set i zero_channel d)"
      using that send_budget [of sod pl ctx]
      by (simp add: ch_free_def Let_def event_budget_def waiting_channels_def)
    with set [OF that, of zero_channel] show ?thesis by (simp add: zero_channel_def)
  qed
  have sent: "event_budget d = event_budget ctx" if "ss_send_pdu sod pl ctx = (r, d)" for pl r d
    using send_budget [of sod pl ctx] that by (simp add: event_budget_def waiting_channels_def)
  from Some show ?thesis
    unfolding sodchan_channel_accept_def Let_def
    by (auto split: sum.splits prod.splits simp: sent intro!: budget_emit set freed)
qed

lemma answer_budget: "event_budget (answer_event sod ev ctx) \<le> event_budget ctx"
  by (auto simp: answer_event_def sodchan_auth_decide_def decide_budget accept_budget split: sodchan_event.split)

lemma next_event_budget: "sodchan_next_event ctx = (Some ev, c) \<Longrightarrow> event_budget c < event_budget ctx"
  by (auto simp: sodchan_next_event_def event_budget_def waiting_channels_def split: if_splits)

function drain_events :: "('ss, 'gh) sodium \<Rightarrow> 'ss sodchan_ctx \<Rightarrow> 'ss sodchan_ctx" where
  "drain_events sod ctx =
     (case sodchan_next_event ctx of
        (None, ctx') \<Rightarrow> ctx'
      | (Some ev, ctx') \<Rightarrow> drain_events sod (answer_event sod ev ctx'))"
  by pat_completeness auto
termination
  by (relation "measure (\<lambda>(sod, ctx). event_budget ctx)")
    (auto dest!: next_event_budget [OF sym] intro: le_less_trans [OF answer_budget])

declare drain_events.simps [simp del]

text \<open>
  What the target owes to each kind of event, as calls of the library, and a run that
  takes exactly the events listed, one after the other, and makes these calls for each.
\<close>

definition event_reply :: "sodchan_event \<Rightarrow> api_call list" where
  "event_reply ev =
     (case ev of
        EVENT_AUTH_DEVICE _ _ _ _ sig_ok \<Rightarrow> [Auth_Decide sig_ok (Some [])]
      | EVENT_CHANNEL_OPEN channel_id _ _ _ _ \<Rightarrow> [Channel_Accept channel_id True]
      | _ \<Rightarrow> [])"

primrec served :: "('ss, 'gh) sodium \<Rightarrow> sodchan_event list \<Rightarrow> 'ss sodchan_ctx \<Rightarrow> 'ss sodchan_ctx option" where
  "served sod [] ctx = Some ctx"
| "served sod (ev # evs) ctx =
     (if fst (sodchan_next_event ctx) = Some ev
      then served sod evs (fold (exec sod) (Next_Event # event_reply ev) ctx) else None)"

lemma answer_is_reply: "answer_event sod ev ctx = fold (exec sod) (event_reply ev) ctx"
  by (simp add: answer_event_def event_reply_def sodchan_auth_decide_def split: sodchan_event.split)

lemma drain_events_served:
  "\<exists>evs. served sod evs ctx = Some (drain_events sod ctx) \<and> fst (sodchan_next_event (drain_events sod ctx)) = None"
proof (induction sod ctx rule: drain_events.induct)
  case (1 sod ctx)
  obtain r c where n: "sodchan_next_event ctx = (r, c)" by fastforce
  show ?case
  proof (cases r)
    case None
    then have "c = ctx" using n by (auto simp: sodchan_next_event_def split: if_splits)
    with n None have "drain_events sod ctx = ctx" by (subst drain_events.simps) simp
    with n None show ?thesis by (intro exI [of _ "[]"]) simp
  next
    case (Some ev)
    with n have d: "drain_events sod ctx = drain_events sod (answer_event sod ev c)"
      by (subst drain_events.simps) simp
    obtain evs where "served sod evs (answer_event sod ev c) = Some (drain_events sod ctx)"
      "fst (sodchan_next_event (drain_events sod ctx)) = None"
      using "1.IH" [OF n [symmetric] Some] unfolding d by blast
    then show ?thesis
      using n Some by (intro exI [of _ "ev # evs"]) (simp add: answer_is_reply)
  qed
qed

lemma drain_output_empty: "fst (sodchan_get_output (Some 8192) (drain_output ctx)) = []"
proof (induction ctx rule: drain_output.induct)
  case (1 ctx)
  obtain out c where g: "sodchan_get_output (Some 8192) ctx = (out, c)" by fastforce
  show ?case
  proof (cases "out = []")
    case False
    with g "1.IH" [OF g [symmetric]] show ?thesis by (subst drain_output.simps) simp
  next
    case True
    with g have "drain_output ctx = c" by (subst drain_output.simps) simp
    moreover have "fst (sodchan_get_output (Some 8192) c) = []"
      using g True by (auto simp: sodchan_get_output_def Let_def split: if_splits)
    ultimately show ?thesis by simp
  qed
qed

text \<open>
  \<open>mem\<close>: whether \<^verbatim>\<open>malloc\<close> finds memory for the event. The fuzz target calls it only
  with contexts that were created, so the test for NULL never holds.
\<close>

definition drain_ctx :: "('ss, 'gh) sodium \<Rightarrow> bool \<Rightarrow> 'ss sodchan_ctx \<Rightarrow> 'ss sodchan_ctx" where
  "drain_ctx sod mem ctx =
     (let ctx = drain_output ctx in
      if \<not> mem then ctx else drain_events sod ctx)"

section \<open>One context under fuzzed input\<close>

text \<open>
  One pass of the feed loop up to its check of the state: the piece of input, a second
  attempt after draining when nothing was taken, and whether the loop is left.
\<close>

definition chunk_at :: "bytes \<Rightarrow> nat \<Rightarrow> nat" where
  "chunk_at data off =
     (let chunk = 1 + (if off < length data then unat (data ! (off mod length data) mod 64) else 1);
          left = length data - off in
      if chunk > left then left else chunk)"

definition feed_piece ::
    "('ss, 'gh) sodium \<Rightarrow> bool \<Rightarrow> bytes \<Rightarrow> nat \<Rightarrow> 'ss sodchan_ctx \<Rightarrow> bool \<times> nat \<times> 'ss sodchan_ctx" where
  "feed_piece sod mem data off ctx =
     (let chunk = chunk_at data off; piece = Some (take chunk (drop off data)) in
      case sodchan_feed_input sod piece ctx of
        (took, ctx) \<Rightarrow>
          if took = 0 \<and> chunk > 0 then
            (case sodchan_feed_input sod piece (drain_ctx sod mem ctx) of
               (took, ctx) \<Rightarrow> (took = 0, took, ctx))
          else (False, took, ctx))"

lemma chunk_at_pos: "off < length data \<Longrightarrow> 0 < chunk_at data off"
  by (simp add: chunk_at_def Let_def)

lemma feed_piece_takes:
  "feed_piece sod mem data off ctx = (False, took, c) \<Longrightarrow> off < length data \<Longrightarrow> 0 < took"
  using chunk_at_pos [of off data] by (auto simp: feed_piece_def Let_def split: prod.splits if_splits)

text \<open>The loop; the result is the offset and the context where it is left.\<close>

function feed_loop ::
    "('ss, 'gh) sodium \<Rightarrow> (nat \<Rightarrow> bool) \<Rightarrow> bytes \<Rightarrow> nat \<Rightarrow> 'ss sodchan_ctx \<Rightarrow> nat \<times> 'ss sodchan_ctx" where
  "feed_loop sod mem data off ctx =
     (if off < length data then
        (case feed_piece sod (mem (2 * off)) data off ctx of
           (stop, took, ctx) \<Rightarrow>
             if stop then (off, ctx)
             else let ctx = drain_ctx sod (mem (2 * off + 1)) ctx in
               if sodchan_current_state ctx = STATE_ERROR \<or> sodchan_current_state ctx = STATE_CLOSED
               then (off + took, ctx)
               else feed_loop sod mem data (off + took) ctx)
      else (off, ctx))"
  by pat_completeness auto
termination
  by (relation "measure (\<lambda>(sod, mem, data, off, ctx). length data - off)")
    (auto dest!: feed_piece_takes [OF sym])

declare feed_loop.simps [simp del]

definition fuzz_config ::
    "sodchan_role \<Rightarrow> bytes \<Rightarrow> bytes \<Rightarrow> bytes \<Rightarrow> bytes \<Rightarrow> bytes \<Rightarrow> sodchan_config" where
  "fuzz_config role data server_pk server_sk client_pk client_sk =
     (if role = ROLE_SERVER then
        zero_config\<lparr> cfg_server_id_pk := Some server_pk, cfg_server_id_sk := Some server_sk,
          cfg_allowed_channels := Some (ascii ''edge-telemetry,edge-control'') \<rparr>
      else
        let cfg = zero_config\<lparr> cfg_server_id_pk := Some server_pk, cfg_client_id_pk := Some client_pk,
              cfg_client_id_sk := Some client_sk, cfg_client_username := Some (ascii ''fuzz''),
              cfg_client_device_id := Some (ascii ''f1'') \<rparr> in
        if length data > 0 \<and> data ! 0 AND 1 \<noteq> 0
        then cfg\<lparr> cfg_accept_any_server_pk := True \<rparr> else cfg)"

text \<open>The channel that is opened when the session came up.\<close>

definition open_telemetry ::
    "('ss, 'gh) sodium \<Rightarrow> bool \<Rightarrow> bool \<Rightarrow> 'ss sodchan_ctx \<Rightarrow> 'ss sodchan_ctx" where
  "open_telemetry sod mem1 mem2 ctx =
     (if sodchan_current_state ctx = STATE_READY then
        (case sodchan_channel_open sod (Some (ascii ''edge-telemetry'')) ctx of
           (rc, id_out, ctx) \<Rightarrow>
             let id = (case id_out of Some i \<Rightarrow> i | None \<Rightarrow> 0);
                 ctx = (if rc = SODCHAN_OK
                        then snd (sodchan_channel_send sod mem1 id (Some (ascii ''fuzz'')) ctx) else ctx) in
             drain_ctx sod mem2 ctx)
      else ctx)"

text \<open>
  \<open>None\<close>: \<^verbatim>\<open>sodchan_create\<close> returned NULL. Otherwise the offset after the loop and the
  context that is passed to \<^verbatim>\<open>sodchan_destroy\<close>.
\<close>

definition fuzz_one_role ::
    "('ss, 'gh) sodium \<Rightarrow> 'ss surroundings \<Rightarrow> sodchan_role \<Rightarrow> bytes \<Rightarrow> bytes \<Rightarrow> bytes \<Rightarrow> bytes \<Rightarrow> bytes
       \<Rightarrow> (nat \<times> 'ss sodchan_ctx) option" where
  "fuzz_one_role sod env role data server_pk server_sk client_pk client_sk =
     (case create_in sod env 0 role (fuzz_config role data server_pk server_sk client_pk client_sk) of
        None \<Rightarrow> None
      | Some ctx \<Rightarrow>
          (case feed_loop sod (env_malloc env) data 0 ctx of
             (off, ctx) \<Rightarrow>
               Some (off, open_telemetry sod (env_malloc env (2 * length data))
                            (env_malloc env (2 * length data + 1)) ctx)))"

section \<open>Two contexts and injected input\<close>

definition dialectic_server_config :: "bytes \<Rightarrow> bytes \<Rightarrow> sodchan_config" where
  "dialectic_server_config server_pk server_sk =
     zero_config\<lparr> cfg_server_id_pk := Some server_pk, cfg_server_id_sk := Some server_sk \<rparr>"

definition dialectic_client_config :: "bytes \<Rightarrow> bytes \<Rightarrow> bytes \<Rightarrow> sodchan_config" where
  "dialectic_client_config server_pk client_pk client_sk =
     zero_config\<lparr> cfg_server_id_pk := Some server_pk, cfg_client_id_pk := Some client_pk,
       cfg_client_id_sk := Some client_sk, cfg_client_username := Some (ascii ''d''),
       cfg_client_device_id := Some (ascii ''e'') \<rparr>"

definition pump :: "('ss, 'gh) sodium \<Rightarrow> 'ss sodchan_ctx \<Rightarrow> 'ss sodchan_ctx \<Rightarrow> 'ss sodchan_ctx \<times> 'ss sodchan_ctx" where
  "pump sod a b =
     (case sodchan_get_output (Some 4096) a of
        (buf, a) \<Rightarrow> (a, if length buf > 0 then snd (sodchan_feed_input sod (Some buf) b) else b))"

text \<open>One round of the exchange, on the pair of the server and the client.\<close>

definition exchange_round ::
    "('ss, 'gh) sodium \<Rightarrow> (nat \<Rightarrow> bool) \<Rightarrow> nat \<Rightarrow> 'ss sodchan_ctx \<times> 'ss sodchan_ctx
       \<Rightarrow> 'ss sodchan_ctx \<times> 'ss sodchan_ctx" where
  "exchange_round sod mem r sc =
     (case sc of (s, c) \<Rightarrow>
      case pump sod c s of (c, s) \<Rightarrow>
      case pump sod s c of (s, c) \<Rightarrow>
        (drain_ctx sod (mem (2 * r)) s, drain_ctx sod (mem (2 * r + 1)) c))"

text \<open>The result lists the contexts that are passed to \<^verbatim>\<open>sodchan_destroy\<close>.\<close>

definition fuzz_dialectic_inject ::
    "('ss, 'gh) sodium \<Rightarrow> 'ss surroundings \<Rightarrow> bytes \<Rightarrow> bytes \<Rightarrow> bytes \<Rightarrow> bytes \<Rightarrow> bytes
       \<Rightarrow> 'ss sodchan_ctx list" where
  "fuzz_dialectic_inject sod env data server_pk server_sk client_pk client_sk =
     (let so = create_in sod env 0 ROLE_SERVER (dialectic_server_config server_pk server_sk);
          co = create_in sod env 1 ROLE_CLIENT (dialectic_client_config server_pk client_pk client_sk) in
      case (so, co) of
        (Some s, Some c) \<Rightarrow>
          (case fold (exchange_round sod (env_malloc env)) [0..<8] (s, c) of
             (s, c) \<Rightarrow>
               if length data > 0 then
                 [drain_ctx sod (env_malloc env 16) (snd (sodchan_feed_input sod (Some data) s)),
                  drain_ctx sod (env_malloc env 17) (snd (sodchan_feed_input sod (Some data) c))]
               else [s, c])
      | (Some s, None) \<Rightarrow> [s]
      | (None, Some c) \<Rightarrow> [c]
      | (None, None) \<Rightarrow> [])"

section \<open>The fuzz target and its standalone driver\<close>

definition LLVMFuzzerTestOneInput ::
    "('ss, 'gh) sodium \<Rightarrow> 'ss surroundings \<Rightarrow> bytes \<Rightarrow> int \<times> 'ss sodchan_ctx list" where
  "LLVMFuzzerTestOneInput sod env data =
     (case (sodchan_keygen_device sod (env_draw env 0) True, sodchan_keygen_device sod (env_draw env 1) True) of
        (Inr (server_pk, server_sk), Inr (client_pk, client_sk)) \<Rightarrow>
          (let mode = (if length data > 0 then data ! 0 mod 3 else 0);
               one = (\<lambda>role. case fuzz_one_role sod env role data server_pk server_sk client_pk client_sk of
                        None \<Rightarrow> [] | Some (_, ctx) \<Rightarrow> [ctx]) in
           if mode = 0 then (0, one ROLE_SERVER)
           else if mode = 1 then (0, one ROLE_CLIENT)
           else (0, fuzz_dialectic_inject sod env data server_pk server_sk client_pk client_sk))
      | _ \<Rightarrow> (0, []))"

text \<open>
  A corpus file as the standard library presents it: whether it opens, whether it can be
  positioned, the size that \<^verbatim>\<open>ftell\<close> reports, whether the buffer finds memory, and what
  \<^verbatim>\<open>fread\<close> can read.
\<close>

record corpus_file =
  file_opens :: bool
  file_seeks :: bool
  file_tell :: int
  file_memory :: bool
  file_bytes :: bytes

definition run_file ::
    "('ss, 'gh) sodium \<Rightarrow> 'ss surroundings \<Rightarrow> corpus_file \<Rightarrow> int \<times> 'ss sodchan_ctx list" where
  "run_file sod env f =
     (if \<not> file_opens f then (1, [])
      else if \<not> file_seeks f then (1, [])
      else if file_tell f < 0 then (1, [])
      else if \<not> file_memory f then (1, [])
      else (0, snd (LLVMFuzzerTestOneInput sod env (take (nat (file_tell f)) (file_bytes f)))))"

text \<open>\<^verbatim>\<open>main\<close> of the standalone driver, on the files its arguments name.\<close>

primrec run_files ::
    "('ss, 'gh) sodium \<Rightarrow> (nat \<Rightarrow> 'ss surroundings) \<Rightarrow> nat \<Rightarrow> corpus_file list \<Rightarrow> int \<times> 'ss sodchan_ctx list" where
  "run_files sod envs i [] = (0, [])"
| "run_files sod envs i (f # fs) =
     (case run_file sod (envs i) f of
        (r, ctxs) \<Rightarrow> case run_files sod envs (i + 1) fs of
          (rc, rest) \<Rightarrow> (if r \<noteq> 0 then 1 else rc, ctxs @ rest))"

definition standalone_main ::
    "('ss, 'gh) sodium \<Rightarrow> (nat \<Rightarrow> 'ss surroundings) \<Rightarrow> corpus_file list \<Rightarrow> int \<times> 'ss sodchan_ctx list" where
  "standalone_main sod envs files =
     (if files = []
      then (0, snd (LLVMFuzzerTestOneInput sod (envs 0) []) @ snd (LLVMFuzzerTestOneInput sod (envs 1) [])
                 @ snd (LLVMFuzzerTestOneInput sod (envs 2) [0]))
      else run_files sod envs 0 files)"

section \<open>The example programs\<close>

text \<open>
  The exit code, what the program prints when it got that far, and the contexts it
  passes to \<^verbatim>\<open>sodchan_destroy\<close>.
\<close>

definition client_example_main ::
    "('ss, 'gh) sodium \<Rightarrow> 'ss surroundings \<Rightarrow> int \<times> sodchan_state option \<times> 'ss sodchan_ctx list" where
  "client_example_main sod env =
     (case (sodchan_keygen_device sod (env_draw env 0) True, sodchan_keygen_device sod (env_draw env 1) True) of
        (Inr (server_pk, server_sk), Inr (client_pk, client_sk)) \<Rightarrow>
          (case create_in sod env 0 ROLE_CLIENT
                  (zero_config\<lparr> cfg_server_id_pk := Some server_pk, cfg_client_id_pk := Some client_pk,
                     cfg_client_id_sk := Some client_sk \<rparr>) of
             None \<Rightarrow> (1, None, [])
           | Some c \<Rightarrow> (0, Some (sodchan_current_state c), [c]))
      | _ \<Rightarrow> (1, None, []))"

definition server_example_main ::
    "('ss, 'gh) sodium \<Rightarrow> 'ss surroundings \<Rightarrow> int \<times> (sodchan_state \<times> (rc + bytes)) option
       \<times> 'ss sodchan_ctx list" where
  "server_example_main sod env =
     (case sodchan_keygen_device sod (env_draw env 0) True of
        Inr (pk, sk) \<Rightarrow>
          (let fp = sodchan_pubkey_fingerprint_sha256 sod pk (Some SODCHAN_FP_SHA256_MAX) in
           case create_in sod env 0 ROLE_SERVER
                  (zero_config\<lparr> cfg_server_id_pk := Some pk, cfg_server_id_sk := Some sk \<rparr>) of
             None \<Rightarrow> (1, None, [])
           | Some s \<Rightarrow> (0, Some (sodchan_current_state s, fp), [s]))
      | Inl _ \<Rightarrow> (1, None, []))"

section \<open>The contexts of a run\<close>

text \<open>The keys of \<^verbatim>\<open>crypto_sign_keypair\<close> have the documented sizes.\<close>

definition sign_keypair_law :: "('ss, 'gh) sodium \<Rightarrow> bool" where
  "sign_keypair_law sod \<longleftrightarrow>
     (\<forall>i pk sk. crypto_sign_keypair sod i = Some (pk, sk) \<longrightarrow> length pk = 32 \<and> length sk = 64)"

lemma keygen_lengths:
  "sodchan_keygen_device sod d p = Inr (pk, sk) \<Longrightarrow> sign_keypair_law sod \<Longrightarrow> length pk = 32 \<and> length sk = 64"
  by (auto simp: sodchan_keygen_device_def sign_keypair_law_def split: if_splits option.splits)

lemma reachable_calls:
  assumes "reachable sod cfg ctx"
  shows "reachable sod cfg (snd (sodchan_feed_input sod d ctx))"
    and "reachable sod cfg (snd (sodchan_get_output buf ctx))"
    and "reachable sod cfg (snd (sodchan_next_event ctx))"
    and "reachable sod cfg (snd (sodchan_auth_decide_ex sod a cl ctx))"
    and "reachable sod cfg (snd (sodchan_channel_accept sod k acc ctx))"
    and "reachable sod cfg (snd (snd (sodchan_channel_open sod nm ctx)))"
    and "reachable sod cfg (snd (sodchan_channel_send sod m k d ctx))"
  using reachable.called [OF assms, of "Feed_Input d"] reachable.called [OF assms, of "Get_Output buf"]
    reachable.called [OF assms, of Next_Event] reachable.called [OF assms, of "Auth_Decide a cl"]
    reachable.called [OF assms, of "Channel_Accept k acc"] reachable.called [OF assms, of "Channel_Open nm"]
    reachable.called [OF assms, of "Channel_Send m k d"]
  by simp_all

lemma reachable_snd: "reachable sod cfg (snd x) \<Longrightarrow> x = (r, c) \<Longrightarrow> reachable sod cfg c"
  by simp

lemma drain_output_reachable: "reachable sod cfg ctx \<Longrightarrow> reachable sod cfg (drain_output ctx)"
proof (induction ctx rule: drain_output.induct)
  case (1 ctx)
  then show ?case
    by (subst drain_output.simps)
      (auto split: prod.splits dest: reachable_snd [OF reachable_calls(2)])
qed

lemma answer_reachable: "reachable sod cfg ctx \<Longrightarrow> reachable sod cfg (answer_event sod ev ctx)"
  by (auto simp: answer_event_def sodchan_auth_decide_def reachable_calls split: sodchan_event.split)

lemma drain_events_reachable: "reachable sod cfg ctx \<Longrightarrow> reachable sod cfg (drain_events sod ctx)"
proof (induction sod ctx rule: drain_events.induct)
  case (1 sod ctx)
  obtain r c where n: "sodchan_next_event ctx = (r, c)" by fastforce
  have c: "reachable sod cfg c" by (rule reachable_snd [OF reachable_calls(3) [OF "1.prems"] n])
  show ?case
  proof (cases r)
    case None
    with n c show ?thesis by (subst drain_events.simps) simp
  next
    case (Some ev)
    with n "1.IH" [OF n [symmetric] Some answer_reachable [OF c]] show ?thesis
      by (subst drain_events.simps) simp
  qed
qed

lemma drain_events_empty: "ctx_event_count (drain_events sod ctx) = 0"
proof (induction sod ctx rule: drain_events.induct)
  case (1 sod ctx)
  then show ?case
    by (subst drain_events.simps)
      (auto simp: sodchan_next_event_def split: prod.splits option.splits if_splits)
qed

lemma drain_ctx_reachable: "reachable sod cfg ctx \<Longrightarrow> reachable sod cfg (drain_ctx sod mem ctx)"
  by (simp add: drain_ctx_def Let_def drain_output_reachable drain_events_reachable)

lemma drain_ctx_served:
  "\<exists>evs. served sod evs (drain_output ctx) = Some (drain_ctx sod True ctx)
     \<and> fst (sodchan_next_event (drain_ctx sod True ctx)) = None"
  using drain_events_served [of sod "drain_output ctx"] by (simp add: drain_ctx_def)

lemma drain_ctx_empty: "ctx_event_count (drain_ctx sod True ctx) = 0"
  by (simp add: drain_ctx_def drain_events_empty)

lemma open_telemetry_reachable:
  assumes "reachable sod cfg ctx"
  shows "reachable sod cfg (open_telemetry sod m1 m2 ctx)"
proof -
  obtain rc i c where o: "sodchan_channel_open sod (Some (ascii ''edge-telemetry'')) ctx = (rc, i, c)"
    by (cases "sodchan_channel_open sod (Some (ascii ''edge-telemetry'')) ctx") auto
  then have "reachable sod cfg c"
    using reachable_calls(6) [OF assms, of "Some (ascii ''edge-telemetry'')"] by simp
  with assms o show ?thesis
    by (simp add: open_telemetry_def Let_def drain_ctx_reachable reachable_calls(7))
qed

lemma open_telemetry_dead: "\<not> live ctx \<Longrightarrow> open_telemetry sod m1 m2 ctx = ctx"
  by (auto simp: open_telemetry_def live_def sodchan_current_state_def)

lemma open_telemetry_empty:
  "ctx_event_count ctx = 0 \<Longrightarrow> ctx_event_count (open_telemetry sod m1 True ctx) = 0"
  by (simp add: open_telemetry_def Let_def drain_ctx_empty split: prod.split)

lemma pump_reachable:
  assumes "pump sod a b = (a', b')" and "reachable sod x a" and "reachable sod y b"
  shows "reachable sod x a'" and "reachable sod y b'"
proof -
  obtain buf c where g: "sodchan_get_output (Some 4096) a = (buf, c)" by fastforce
  with assms(1) have "a' = c" "b' = b \<or> b' = snd (sodchan_feed_input sod (Some buf) b)"
    by (auto simp: pump_def split: if_splits)
  with g reachable_calls(2) [OF assms(2), of "Some 4096"] reachable_calls(1) [OF assms(3), of "Some buf"] assms(3)
  show "reachable sod x a'" and "reachable sod y b'" by auto
qed

lemma rounds_reachable:
  assumes "reachable sod x (fst sc)" and "reachable sod y (snd sc)"
  shows "reachable sod x (fst (fold (exchange_round sod mem) rs sc))
    \<and> reachable sod y (snd (fold (exchange_round sod mem) rs sc))"
  using assms
proof (induction rs arbitrary: sc)
  case Nil
  then show ?case by simp
next
  case (Cons r rs)
  obtain s c c1 s1 c2 s2 where p: "sc = (s, c)" "pump sod c s = (c1, s1)" "pump sod s1 c1 = (s2, c2)"
    by (metis prod.collapse)
  from Cons.prems p(1) have "reachable sod y c1" "reachable sod x s1"
    using pump_reachable [OF p(2), of y x] by simp_all
  then have "reachable sod x s2" "reachable sod y c2"
    using pump_reachable [OF p(3), of x y] by simp_all
  then have "reachable sod x (fst (exchange_round sod mem r sc))" "reachable sod y (snd (exchange_round sod mem r sc))"
    using p by (simp_all add: exchange_round_def drain_ctx_reachable)
  then show ?case using Cons.IH by simp
qed

text \<open>A live context takes input at the first attempt: the second one is never made.\<close>

lemma feed_piece_live:
  assumes "reachable sod cfg ctx" and "live ctx" and "off < length data"
  obtains took c where "feed_piece sod mem data off ctx = (False, took, c)"
    and "reachable sod cfg c" and "0 < took" and "off + took \<le> length data"
proof -
  define d where "d = take (chunk_at data off) (drop off data)"
  define n where "n = min (length d) (SODCHAN_IN_BUF_SIZE - length (ctx_in_buf ctx))"
  define c where "c = snd (sodchan_feed_input sod (Some d) ctx)"
  have chunk: "0 < chunk_at data off" "off + chunk_at data off \<le> length data"
    using assms(3) unfolding chunk_at_def Let_def by (simp, auto)
  then have d: "d \<noteq> []" "length d = chunk_at data off" using assms(3) by (simp_all add: d_def)
  have "length (ctx_in_buf ctx) < SODCHAN_IN_BUF_SIZE"
    by (rule waiting_room [OF reachable_waiting [OF assms(1,2)]])
  with d have n: "0 < n" "n \<le> length d" using chunk(1) by (simp_all add: n_def)
  have f: "sodchan_feed_input sod (Some d) ctx = (n, c)"
    using assms(2) d(1) n(1) unfolding c_def n_def
    by (auto simp: sodchan_feed_input_def live_def Let_def min_def)
  show thesis
  proof (rule that [of n c])
    show "feed_piece sod mem data off ctx = (False, n, c)"
      using f n(1) by (simp add: feed_piece_def d_def [symmetric])
    show "reachable sod cfg c" unfolding c_def by (rule reachable_calls(1) [OF assms(1)])
    show "0 < n" "off + n \<le> length data" using n d(2) chunk(2) by simp_all
  qed
qed

lemma feed_loop_end:
  assumes "reachable sod cfg ctx" and "live ctx" and "off \<le> length data"
    and "feed_loop sod mem data off ctx = (off', c)"
  shows "reachable sod cfg c \<and> (off' = length data \<or> \<not> live c)
    \<and> (off < length data \<longrightarrow> (\<forall>i. mem i) \<longrightarrow> ctx_event_count c = 0)"
  using assms
proof (induction sod mem data off ctx rule: feed_loop.induct)
  case (1 sod mem data off ctx)
  show ?case
  proof (cases "off < length data")
    case False
    with "1.prems" show ?thesis by (simp add: feed_loop.simps)
  next
    case True
    obtain took d where p: "feed_piece sod (mem (2 * off)) data off ctx = (False, took, d)"
      and d: "reachable sod cfg d" "off + took \<le> length data"
      by (rule feed_piece_live [OF "1.prems"(1,2) True])
    define e where "e = drain_ctx sod (mem (2 * off + 1)) d"
    have e: "reachable sod cfg e" "(\<forall>i. mem i) \<longrightarrow> ctx_event_count e = 0"
      using d(1) drain_ctx_empty [of sod d] by (auto simp: e_def drain_ctx_reachable)
    have dead: "(sodchan_current_state e = STATE_ERROR \<or> sodchan_current_state e = STATE_CLOSED) = (\<not> live e)"
      by (auto simp: live_def sodchan_current_state_def)
    have step: "feed_loop sod mem data off ctx
      = (if live e then feed_loop sod mem data (off + took) e else (off + took, e))"
      using True p by (subst feed_loop.simps) (simp only: p prod.case Let_def e_def [symmetric] dead if_True if_False not_not split: if_split, simp)
    show ?thesis
    proof (cases "live e")
      case False
      with step "1.prems"(4) e show ?thesis by auto
    next
      case live: True
      have ih: "reachable sod cfg c \<and> (off' = length data \<or> \<not> live c)
          \<and> (off + took < length data \<longrightarrow> (\<forall>i. mem i) \<longrightarrow> ctx_event_count c = 0)"
        using "1.IH" [OF True p [symmetric] refl _ e_def] dead live e(1) d(2) step "1.prems"(4) by simp
      have "off + took = length data \<Longrightarrow> c = e"
        using step live "1.prems"(4) by (simp add: feed_loop.simps)
      with ih e(2) d(2) show ?thesis by (cases "off + took < length data") auto
    qed
  qed
qed

lemma create_in_reachable: "create_in sod env k role cfg = Some ctx \<Longrightarrow> reachable sod (Some cfg) ctx"
  unfolding create_in_def by (rule created)

lemma create_in_hello: "create_in sod env k role cfg = Some ctx \<Longrightarrow> ctx_state ctx = STATE_HELLO"
  unfolding create_in_def by (erule sodchan_create_Some) (rule handshake_start_ok(1))

lemma create_in_no_events:
  assumes "create_in sod env k role cfg = Some ctx"
  shows "ctx_event_count ctx = 0"
proof -
  have same: "ctx_event_count c = ctx_event_count d" if "handshake_start sod d = (SODCHAN_OK, c)" for c d
    using that unfolding handshake_start_def queue_local_hello_def Let_def out_append_frame_def out_append_def out_compact_def
    by (auto split: option.splits prod.splits if_splits sum.splits)
  from assms obtain d where "handshake_start sod d = (SODCHAN_OK, ctx)" and "ctx_event_count d = 0"
    unfolding create_in_def
    by (rule sodchan_create_Some) (simp add: Let_def apply_config_defaults_fields)
  with same show ?thesis by simp
qed

lemma fuzz_configs_ok:
  assumes "length spk = 32" and "length ssk = 64" and "length cpk = 32" and "length csk = 64"
  shows "config_ok (Some (fuzz_config role data spk ssk cpk csk))"
    and "config_ok (Some (dialectic_server_config spk ssk))"
    and "config_ok (Some (dialectic_client_config spk cpk csk))"
  using assms
  by (simp_all add: config_ok_def fuzz_config_def dialectic_server_config_def dialectic_client_config_def
      zero_config_def Let_def)

lemma fuzz_one_role_end:
  assumes "fuzz_one_role sod env role data spk ssk cpk csk = Some (off, ctx)"
  shows "reachable sod (Some (fuzz_config role data spk ssk cpk csk)) ctx
    \<and> (off = length data \<or> \<not> live ctx)
    \<and> (data \<noteq> [] \<longrightarrow> (\<forall>i. env_malloc env i) \<longrightarrow> ctx_event_count ctx = 0)"
proof -
  let ?cfg = "fuzz_config role data spk ssk cpk csk"
  obtain c0 c where c0: "create_in sod env 0 role ?cfg = Some c0"
    and l: "feed_loop sod (env_malloc env) data 0 c0 = (off, c)"
    and ctx: "ctx = open_telemetry sod (env_malloc env (2 * length data))
      (env_malloc env (2 * length data + 1)) c"
    using assms by (auto simp: fuzz_one_role_def split: option.splits prod.splits)
  have "live c0" using create_in_hello [OF c0] by (simp add: live_def)
  from feed_loop_end [OF create_in_reachable [OF c0] this _ l]
  have e: "reachable sod (Some ?cfg) c" "off = length data \<or> \<not> live c"
    "data \<noteq> [] \<longrightarrow> (\<forall>i. env_malloc env i) \<longrightarrow> ctx_event_count c = 0" by simp_all
  then show ?thesis
    unfolding ctx by (auto simp: open_telemetry_reachable open_telemetry_dead open_telemetry_empty)
qed

text \<open>A context that a run passes to \<^verbatim>\<open>sodchan_destroy\<close>.\<close>

definition handed_back :: "('ss, 'gh) sodium \<Rightarrow> bool \<Rightarrow> 'ss sodchan_ctx \<Rightarrow> bool" where
  "handed_back sod drained ctx \<longleftrightarrow>
     (\<exists>cfg. config_ok (Some cfg) \<and> reachable sod (Some cfg) ctx) \<and> (drained \<longrightarrow> ctx_event_count ctx = 0)"

lemma handed_back_drain:
  "reachable sod (Some cfg) ctx \<Longrightarrow> config_ok (Some cfg) \<Longrightarrow> d \<longrightarrow> mem \<Longrightarrow>
     handed_back sod d (drain_ctx sod mem ctx)"
  by (auto simp: handed_back_def drain_ctx_empty intro: drain_ctx_reachable)

lemma handed_back_created:
  "create_in sod env k role cfg = Some ctx \<Longrightarrow> config_ok (Some cfg) \<Longrightarrow> handed_back sod d ctx"
  by (auto simp: handed_back_def create_in_no_events dest: create_in_reachable)

lemma handed_back_mono: "handed_back sod d ctx \<Longrightarrow> d' \<longrightarrow> d \<Longrightarrow> handed_back sod d' ctx"
  by (auto simp: handed_back_def)

lemma dialectic_handed_back:
  assumes "length spk = 32" and "length ssk = 64" and "length cpk = 32" and "length csk = 64"
    and "data \<noteq> []" and "ctx \<in> set (fuzz_dialectic_inject sod env data spk ssk cpk csk)"
  shows "handed_back sod (\<forall>i. env_malloc env i) ctx"
proof -
  let ?s = "create_in sod env 0 ROLE_SERVER (dialectic_server_config spk ssk)"
  let ?c = "create_in sod env 1 ROLE_CLIENT (dialectic_client_config spk cpk csk)"
  note ok = fuzz_configs_ok(2,3) [OF assms(1-4)]
  show ?thesis
  proof (cases "\<exists>s c. ?s = Some s \<and> ?c = Some c")
    case False
    with assms(6) have "?s = Some ctx \<or> ?c = Some ctx"
      by (auto simp: fuzz_dialectic_inject_def Let_def split: option.splits)
    then show ?thesis by (auto dest: handed_back_created intro: ok)
  next
    case True
    then obtain s c where sc: "?s = Some s" "?c = Some c" by blast
    obtain s' c' where r: "fold (exchange_round sod (env_malloc env)) [0..<8] (s, c) = (s', c')" by fastforce
    from rounds_reachable [of sod _ "(s, c)" _ "env_malloc env" "[0..<8]"] r
      create_in_reachable [OF sc(1)] create_in_reachable [OF sc(2)]
    have reach: "reachable sod (Some (dialectic_server_config spk ssk)) s'"
      "reachable sod (Some (dialectic_client_config spk cpk csk)) c'" by simp_all
    from assms(5,6) sc r
    have "ctx = drain_ctx sod (env_malloc env 16) (snd (sodchan_feed_input sod (Some data) s'))
        \<or> ctx = drain_ctx sod (env_malloc env 17) (snd (sodchan_feed_input sod (Some data) c'))"
      by (simp only: fuzz_dialectic_inject_def Let_def prod.case option.case if_True length_greater_0_conv
          not_False_eq_True list.set) blast
    then show ?thesis
      using handed_back_drain [OF reachable_calls(1) [OF reach(1)] ok(1)]
        handed_back_drain [OF reachable_calls(1) [OF reach(2)] ok(2)]
      by auto
  qed
qed

lemma target_handed_back:
  assumes "sign_keypair_law sod" and "ctx \<in> set (snd (LLVMFuzzerTestOneInput sod env data))"
  shows "handed_back sod (data \<noteq> [] \<and> (\<forall>i. env_malloc env i)) ctx"
proof -
  from assms(2) obtain spk ssk cpk csk
    where k: "sodchan_keygen_device sod (env_draw env 0) True = Inr (spk, ssk)"
      "sodchan_keygen_device sod (env_draw env 1) True = Inr (cpk, csk)"
    by (auto simp: LLVMFuzzerTestOneInput_def split: sum.splits)
  note len = keygen_lengths [OF k(1) assms(1)] keygen_lengths [OF k(2) assms(1)]
  consider role off where "fuzz_one_role sod env role data spk ssk cpk csk = Some (off, ctx)"
    | "data \<noteq> []" "ctx \<in> set (fuzz_dialectic_inject sod env data spk ssk cpk csk)"
    using assms(2) k
    by (auto simp: LLVMFuzzerTestOneInput_def Let_def split: if_splits option.splits
        dest!: sym [where s = "Some x" for x])
  then show ?thesis
  proof cases
    case 1
    with fuzz_one_role_end [OF 1] fuzz_configs_ok(1) [of spk ssk cpk csk role data] len
    show ?thesis by (auto simp: handed_back_def)
  next
    case 2
    from dialectic_handed_back [OF _ _ _ _ 2] len show ?thesis by (auto intro: handed_back_mono)
  qed
qed

lemma run_files_contexts:
  "snd (run_files sod envs i (f # fs)) = snd (run_file sod (envs i) f) @ snd (run_files sod envs (i + 1) fs)"
  by (simp add: case_prod_beta)

lemma main_handed_back:
  assumes "sign_keypair_law sod" and "ctx \<in> set (snd (standalone_main sod envs files))"
  shows "handed_back sod False ctx"
proof -
  have one: "handed_back sod False ctx" if "ctx \<in> set (snd (LLVMFuzzerTestOneInput sod env data))" for env data
    by (rule handed_back_mono [OF target_handed_back [OF assms(1) that]]) simp
  have one_file: "handed_back sod False ctx" if "ctx \<in> set (snd (run_file sod env f))" for env f
    using that one by (auto simp: run_file_def split: if_splits)
  have "handed_back sod False ctx" if "ctx \<in> set (snd (run_files sod envs i files))" for i
    using that by (induction files arbitrary: i) (auto simp: run_files_contexts intro: one_file simp del: run_files.simps(2))
  with assms(2) one show ?thesis by (auto simp: standalone_main_def split: if_splits)
qed

lemma handed_back_inv:
  "handed_back sod d ctx \<Longrightarrow> push_len_law sod \<Longrightarrow> kx_keypair_law sod \<Longrightarrow> ctx_inv sod ctx"
  by (auto simp: handed_back_def intro: reachable_inv)

lemma examples_configs_ok:
  assumes "length spk = 32" and "length ssk = 64" and "length cpk = 32" and "length csk = 64"
  shows "config_ok (Some (zero_config\<lparr> cfg_server_id_pk := Some spk, cfg_client_id_pk := Some cpk,
      cfg_client_id_sk := Some csk \<rparr>))"
    and "config_ok (Some (zero_config\<lparr> cfg_server_id_pk := Some spk, cfg_server_id_sk := Some ssk \<rparr>))"
  using assms by (simp_all add: config_ok_def zero_config_def)

lemma client_example_run:
  assumes "sign_keypair_law sod"
  shows "client_example_main sod env = (1, None, []) \<or>
    (\<exists>c. client_example_main sod env = (0, Some STATE_HELLO, [c]) \<and> handed_back sod True c)"
proof (cases "(sodchan_keygen_device sod (env_draw env 0) True, sodchan_keygen_device sod (env_draw env 1) True)
    \<in> range Inr \<times> range Inr")
  case True
  then obtain spk ssk cpk csk where k: "sodchan_keygen_device sod (env_draw env 0) True = Inr (spk, ssk)"
    "sodchan_keygen_device sod (env_draw env 1) True = Inr (cpk, csk)" by auto
  note ok = examples_configs_ok(1) [of spk ssk cpk csk] keygen_lengths [OF k(1) assms] keygen_lengths [OF k(2) assms]
  from k ok show ?thesis
    by (auto simp: client_example_main_def sodchan_current_state_def create_in_hello split: option.split
        intro: handed_back_created)
qed (auto simp: client_example_main_def split: sum.split)

lemma server_example_run:
  assumes "sign_keypair_law sod"
  shows "server_example_main sod env = (1, None, []) \<or>
    (\<exists>fp s. server_example_main sod env = (0, Some (STATE_HELLO, fp), [s]) \<and> handed_back sod True s)"
proof (cases "sodchan_keygen_device sod (env_draw env 0) True")
  case (Inl e)
  then show ?thesis by (simp add: server_example_main_def)
next
  case (Inr k)
  obtain pk sk where k: "k = (pk, sk)" by (cases k)
  note len = keygen_lengths [OF Inr [unfolded k] assms]
  note ok = examples_configs_ok(2) [of pk sk pk sk]
  from Inr k ok len show ?thesis
    by (auto simp: server_example_main_def Let_def sodchan_current_state_def create_in_hello split: option.split
        intro: handed_back_created)
qed

section \<open>Properties\<close>

text \<open>
  C40. The programs around the library. The fuzz target runs to its end on every
  input and returns 0. Every context that it, the standalone driver on any files, or an
  example program passes on to its destruction satisfies the invariant. A drain
  of a context, when its event finds memory, takes all pending output and then
  every event, one after the other until the ring is empty, and answers each as
  the source does: a device's request with a decision by the verdict on its
  signature, a channel's with an acceptance, any other with nothing. When memory
  is found, the ring of a context is empty at the end of a nonempty run. In the
  single-role modes a context has taken the whole input unless its session
  ended (the mode with two contexts feeds the input once and ignores how much was
  taken). An example program that exits with 0 has created a context in HELLO.
  All loops are total functions: an answer to an event uses up a due decision or
  a waiting channel for every event it may queue, and a live session always
  takes a piece of input.
\<close>

theorem fuzz_target_complete:
  assumes "push_len_law sod" and "kx_keypair_law sod" and "sign_keypair_law sod"
  shows "fst (LLVMFuzzerTestOneInput sod env data) = 0
    \<and> (\<forall>ctx \<in> set (snd (LLVMFuzzerTestOneInput sod env data)). ctx_inv sod ctx
         \<and> (data \<noteq> [] \<longrightarrow> (\<forall>i. env_malloc env i) \<longrightarrow> ctx_event_count ctx = 0))
    \<and> (\<forall>ctx \<in> set (snd (standalone_main sod envs files)). ctx_inv sod ctx)
    \<and> (\<forall>ctx. fst (sodchan_get_output (Some 8192) (drain_output ctx)) = []
         \<and> (\<exists>evs. served sod evs (drain_output ctx) = Some (drain_ctx sod True ctx)
              \<and> fst (sodchan_next_event (drain_ctx sod True ctx)) = None))
    \<and> (\<forall>role spk ssk cpk csk off ctx. fuzz_one_role sod env role data spk ssk cpk csk = Some (off, ctx) \<longrightarrow>
         off = length data \<or> ctx_state ctx = STATE_ERROR \<or> ctx_state ctx = STATE_CLOSED)
    \<and> (client_example_main sod env = (1, None, [])
         \<or> (\<exists>c. client_example_main sod env = (0, Some STATE_HELLO, [c]) \<and> ctx_inv sod c))
    \<and> (server_example_main sod env = (1, None, [])
         \<or> (\<exists>fp s. server_example_main sod env = (0, Some (STATE_HELLO, fp), [s]) \<and> ctx_inv sod s))"
proof (intro conjI ballI allI impI)
  show "fst (LLVMFuzzerTestOneInput sod env data) = 0"
    by (simp add: LLVMFuzzerTestOneInput_def Let_def split: sum.split)
next
  fix ctx assume "ctx \<in> set (snd (LLVMFuzzerTestOneInput sod env data))"
  note h = target_handed_back [OF assms(3) this]
  show "ctx_inv sod ctx" by (rule handed_back_inv [OF h assms(1,2)])
  show "data \<noteq> [] \<Longrightarrow> \<forall>i. env_malloc env i \<Longrightarrow> ctx_event_count ctx = 0"
    using h by (simp add: handed_back_def)
next
  fix ctx assume "ctx \<in> set (snd (standalone_main sod envs files))"
  from handed_back_inv [OF main_handed_back [OF assms(3) this] assms(1,2)] show "ctx_inv sod ctx" .
next
  fix role spk ssk cpk csk off ctx
  assume "fuzz_one_role sod env role data spk ssk cpk csk = Some (off, ctx)"
  from fuzz_one_role_end [OF this]
  show "off = length data \<or> ctx_state ctx = STATE_ERROR \<or> ctx_state ctx = STATE_CLOSED"
    by (auto simp: live_def)
next
  show "client_example_main sod env = (1, None, [])
      \<or> (\<exists>c. client_example_main sod env = (0, Some STATE_HELLO, [c]) \<and> ctx_inv sod c)"
    using client_example_run [OF assms(3), of env] handed_back_inv [OF _ assms(1,2)] by blast
  show "server_example_main sod env = (1, None, [])
      \<or> (\<exists>fp s. server_example_main sod env = (0, Some (STATE_HELLO, fp), [s]) \<and> ctx_inv sod s)"
    using server_example_run [OF assms(3), of env] handed_back_inv [OF _ assms(1,2)] by blast
qed (rule drain_output_empty drain_ctx_served)+

definition sample_surroundings :: "bytes surroundings" where
  "sample_surroundings = \<lparr> env_lab = False, env_zero = [], env_draw = (\<lambda>i. 10 * i + 1),
     env_calloc = (\<lambda>_. True), env_malloc = (\<lambda>_. True) \<rparr>"

lemma sample_sign_keypair_law: "sign_keypair_law sample_sodium"
  by (auto simp: sign_keypair_law_def sample_sodium_def)

lemma sample_run: "snd (LLVMFuzzerTestOneInput sample_sodium sample_surroundings [4]) \<noteq> []"
proof -
  let ?k = "\<lambda>n. replicate n (1 :: byte)" and ?j = "\<lambda>n. replicate n (11 :: byte)"
  let ?cfg = "fuzz_config ROLE_CLIENT [4] (?k 32) (?k 64) (?j 32) (?j 64)"
  have k: "sodchan_keygen_device sample_sodium (env_draw sample_surroundings 0) True = Inr (?k 32, ?k 64)"
    "sodchan_keygen_device sample_sodium (env_draw sample_surroundings 1) True = Inr (?j 32, ?j 64)"
    by (simp_all only: sodchan_keygen_device_def sodchan_crypto_init_def sample_sodium_def sample_surroundings_def)
      simp_all
  have "create_allowed sample_sodium False True True 1 (Some ?cfg)"
    by (simp add: create_allowed_def fuzz_config_def Let_def sample_sodium_def zero_config_def)
  from create_succeeds [OF this sample_kx_keypair_law fuzz_configs_ok(1), of "[]" 21]
  obtain c where "create_in sample_sodium sample_surroundings 0 ROLE_CLIENT ?cfg = Some c"
    by (auto simp: create_in_def sample_surroundings_def)
  then show ?thesis
    using k by (simp add: LLVMFuzzerTestOneInput_def Let_def fuzz_one_role_def split: prod.split)
qed

theorem fuzz_target_complete_witness:
  "\<exists>ctx \<in> set (snd (LLVMFuzzerTestOneInput sample_sodium sample_surroundings [4])).
     ctx_inv sample_sodium ctx \<and> ctx_event_count ctx = 0"
proof -
  note c = last_in_set [OF sample_run]
  from fuzz_target_complete [OF sample_push_len_law sample_kx_keypair_law sample_sign_keypair_law,
      of sample_surroundings "[4]"] c
  show ?thesis by (auto simp: sample_surroundings_def)
qed

end
