(* ===== verification/Spec2Isabelle.thy ===== *)
theory Spec2Isabelle
  imports Input_Stream Decision Allowlist Bounds Records_In Channel_Ends Transport Progress Shapes Harness
begin

text \<open>
  A verification library for libsodchan.

  \<^bold>\<open>The program.\<close> libsodchan (\<^verbatim>\<open>src/src\<close>, \<^verbatim>\<open>src/include\<close>) is a C library without system calls for
  an authenticated, encrypted, multiplexed connection between a client and a server. The
  host creates a context with \<^verbatim>\<open>sodchan_create\<close>, gives it the bytes that arrive with
  \<^verbatim>\<open>sodchan_feed_input\<close>, takes the bytes to send with \<^verbatim>\<open>sodchan_get_output\<close> and learns what
  happened with \<^verbatim>\<open>sodchan_next_event\<close>. A session exchanges a HELLO in each direction (the
  server signs the transcript, the client compares a pinned key), derives one key per
  direction, exchanges secretstream headers, authenticates the device with a signature on
  which the server's host decides, and then carries channels with flow control. Every
  byte on the wire is a frame with a 4-byte length; after the headers the body of a frame
  is an encrypted record that holds one message (PDU).

  \<^bold>\<open>The theories that model code\<close>, in the order in which the code builds on them:
  \<^item> \<open>Prelude\<close>: bytes, machine words, return codes, C strings (\<^verbatim>\<open>strlen\<close>, \<^verbatim>\<open>snprintf\<close>, guarded copies).
  \<^item> \<open>Wire_Base\<close>, \<open>Wire_Auth\<close>, \<open>Wire_Mux\<close> (\<^verbatim>\<open>sodchan_wire.c\<close>): integers and frames; HELLO, the signed
    transcripts and the authentication messages; the ten channel and control messages.
  \<^item> \<open>Wire_Memory\<close> (\<^verbatim>\<open>sodchan_wire.c\<close>): the decoders again, with every read and store in the order
    of the code, also those made before a late check fails; an access outside is \<open>None\<close>.
  \<^item> \<open>Sodium\<close>, \<open>Crypto\<close> (\<^verbatim>\<open>sodchan_crypto.c\<close>): libsodium as a record of functions with its laws;
    key generation, seed blobs, fingerprints, key derivation.
  \<^item> \<open>Context\<close> (\<^verbatim>\<open>sodchan_internal.h\<close>, \<^verbatim>\<open>sodchan.h\<close>): the context as a record with the fields of
    \<^verbatim>\<open>struct sodchan_ctx\<close>, channels, configuration, events, and the library's bounds.
  \<^item> \<open>Buffers\<close>: \<^verbatim>\<open>sodchan_i_set_error\<close>, the event ring, the compacting output buffer.
  \<^item> \<open>Record_Layer\<close>: \<^verbatim>\<open>ss_send_pdu\<close>, that is, encrypt, frame and enqueue; the frame limit.
  \<^item> \<open>Channels\<close>: the channel table (\<^verbatim>\<open>ch_alloc\<close>, \<^verbatim>\<open>ch_by_local\<close>, \<^verbatim>\<open>ch_free\<close>) and the allowlist scan.
  \<^item> \<open>Mux\<close>: \<^verbatim>\<open>handle_mux_pdu\<close>, one definition per case of its switch.
  \<^item> \<open>Auth\<close>: AUTH_DEVICE, AUTH_OK, AUTH_FAIL and \<^verbatim>\<open>sodchan_auth_decide_ex\<close>.
  \<^item> \<open>Handshake\<close>: HELLO handling, key agreement, secretstream headers, \<^verbatim>\<open>handshake_start\<close>.
  \<^item> \<open>Channel_Api\<close>: the seven public channel functions.
  \<^item> \<open>Session\<close>: record dispatch, the input loop, create, destroy, reset, disconnect, the configuration.
  \<^item> \<open>Harness\<close> (\<^verbatim>\<open>fuzz/fuzz_sodchan.c\<close>, \<^verbatim>\<open>examples\<close>): the programs that use the public functions: the fuzz
    target with its three modes and standalone driver, and the two examples. It imports the theories
    on input that only prove, since its loops rest on them.

  \<^bold>\<open>The theories that only prove\<close>:
  \<^item> \<open>Mux_Spec\<close>: a specification of the channel layer on a finite map, and its refinement.
  \<^item> \<open>Safety\<close>, \<open>Reachable\<close>, \<open>Security\<close>: the context invariant, the contexts that calls reach, and
    what holds in all of them (authentication, pinning, decisions, dead sessions).
  \<^item> \<open>Establish\<close>: two contexts that exchange their output, from creation to READY.
  \<^item> \<open>Input\<close>, \<open>Input_Frame\<close>, \<open>Input_Stream\<close>: the input as a stream: no stall, no dependence on
    how it is cut, a bound on the loop. \<open>Records_In\<close>: forged records and early disconnects.
  \<^item> \<open>Auth_Failure\<close>, \<open>Decision\<close>, \<open>Progress\<close>, \<open>Fresh_Reset\<close>, \<open>Allowlist\<close>: failures look alike on the wire; a
    decision is final; phases only move forward; a reset starts over as a creation does, with seven
    fields of the old session left or zeroed; the names allowed.
  \<^item> \<open>Flow\<close>, \<open>Transport\<close>, \<open>Channel_Ends\<close>: flow control between two ends, data and goodbye from
    host to host through all layers, and the edges (full event ring, close, credit overflow).
  \<^item> \<open>Shapes\<close>: the arrays keep their declared sizes, and queued events fit the event structure.
  \<^item> \<open>Bounds\<close>: no encoder writes past its capacity, no decoder reads or writes outside its memory.

  \<^bold>\<open>How code and model correspond.\<close> A C function with a context pointer becomes a function
  that returns its result and the updated context. Public functions return the code as a
  value of \<open>rc\<close>; the internal handlers return 0 or -1 as the code does, and \<open>err_ret\<close> is
  \<^verbatim>\<open>sodchan_i_set_error(...); return -1;\<close>. A wire function with output parameters returns
  \<open>Inl\<close> of the code or \<open>Inr\<close> of the values written; that some decoders also store on the way to
  an error is the matter of \<open>Wire_Memory\<close> (no caller reads the fields after an error). A pointer with a length is an optional
  byte list (\<open>None\<close> is NULL); an output buffer is the optional capacity. Integers of 8, 16
  and 32 bits are words and wrap around; \<^verbatim>\<open>size_t\<close> is \<open>nat\<close>, with the wrap-around written out
  where the code's sums can reach it (\<open>ss_frame_max_body\<close>). Buffers with a length field are
  lists; the offset of the output buffer is kept, since the code compacts it. The channel
  table is a list of 16 slots that is updated by index, the event ring a list with head
  and count. Nothing outside the library is invented: libsodium is an argument \<open>sod\<close> of every
  definition that calls it, the stream states have an opaque type \<open>'ss\<close>, and random bytes
  come from \<open>sod\<close> at the counter \<open>ctx_draws\<close>. Allocation is an argument too: \<open>m1\<close>, \<open>m2\<close> of
  \<^verbatim>\<open>sodchan_create\<close> and \<open>mem\<close> of \<^verbatim>\<open>sodchan_channel_send\<close> say whether \<^verbatim>\<open>calloc\<close> and \<^verbatim>\<open>malloc\<close> succeed,
  and \<open>lab\<close> is the compile-time switch for the lab mode.

  \<^bold>\<open>Interfaces.\<close> The locale \<open>codec\<close> (encode, decode, the values that fit) is interpreted for
  every message; \<open>framing\<close> for the frame functions; \<open>bounded_queue\<close> for the event ring;
  \<open>byte_pipe\<close> for the output buffer; \<open>id_table\<close> for the channel table. The step relations
  \<open>mux_step\<close> and \<open>api_step\<close> list the shapes of what a handler or a channel call can do; the
  invariants are proved once by their cases.

  \<^bold>\<open>Hypotheses.\<close> What a property needs of libsodium is a named law of \<open>Sodium\<close> that states
  documented behaviour (a signature verifies, both sides of a key exchange agree, a record
  decrypts to what was encrypted while the streams are in step, lengths, memory helpers), at the
  sizes the code uses: hashes of 32 bytes, records of less than \<open>2 ^ 32\<close> bytes.
  They are satisfiable: \<open>sample_sodium\<close> is a concrete instance that the witnesses use. No law
  says that forging is impossible; the security properties say which checks passed. The
  channel ids are drawn from a 32-bit counter; the statements about the table as a map
  assume that it does not wrap at the next channel.

  \<^bold>\<open>Termination.\<close> The input loop is a total function with the length of the input buffer as its
  measure, since every frame takes at least five bytes; \<open>process_passes\<close> counts the passes with
  fuel, and one more than a fifth of the buffered bytes is proved enough, 26215 for a full
  buffer. No other fuel is used. The loops of the fuzz target are total functions as well: the
  event loop by a measure that counts the events, the due decision and the waiting channels.

  \<^bold>\<open>What the modelling showed.\<close> A full event ring drops data that was debited from the
  window; credit wraps at 32 bits; a disconnect during authentication opens the channel
  layer to an unauthenticated peer; a local close, or giving up an opening, lets a message
  under way end the session; an allowlist that is too long is replaced by the default. The
  theorems of \<open>Channel_Ends\<close>, \<open>Records_In\<close> and \<open>Allowlist\<close> state these as the code behaves.

  \<^bold>\<open>Not modelled.\<close> NULL contexts and NULL out-parameters of the public functions, which they
  answer with a parameter error or ignore; the layout and the lifetime of memory
  (\<open>sodchan_destroy\<close> gives the contents of the context at the moment it is freed); the
  formatting of error messages, which are all literals; timing. Of the programs, what they
  print on errors and how the standard library reads a file (\<open>corpus_file\<close> presents its
  answers). In \<open>Harness\<close> the drain of a context is pinned to the answers of the source; the mode
  with two contexts makes one feed of the input into each. The tests and the build files are not modelled.
\<close>

end
